(* ===== verification/Prelude.thy ===== *)
theory Prelude
  imports Main "HOL-Library.Word"
begin

text \<open>
  Shared ground of the development: the types that every theory uses (JavaScript strings as
  lists of UTF-16 code units, byte arrays, thrown values), string literals, the collections of
  simplification rules, and generic lemmas on lists and on conversions between words and natural
  numbers.

  A JavaScript string is modelled as the list of its UTF-16 code units, each a natural number below
  \<open>2 ^ 16\<close>, so that \<open>length\<close> is what the code's \<^verbatim>\<open>.length\<close> counts.  A \<^verbatim>\<open>Uint8Array\<close> or
  \<^verbatim>\<open>Buffer\<close> is a list of 8-bit words.  A call that may throw returns a sum, with \<open>Inl\<close> the
  thrown value.
\<close>

section \<open>Rule collections\<close>

named_theorems js_lits \<open>string constants of the source, unfolded to code units\<close>
named_theorems text_simps \<open>evaluation rules for strings and byte arrays\<close>

section \<open>Types\<close>

type_synonym jsstr = "nat list"
type_synonym byte = "8 word"
type_synonym bytes = "8 word list"

text \<open>
  A thrown JavaScript error: its \<^verbatim>\<open>name\<close> and its \<^verbatim>\<open>message\<close>.  \<open>exn_string\<close> is what
  \<^verbatim>\<open>String(e)\<close> prints.
\<close>

datatype js_exn = JsExn (exn_name: jsstr) (exn_message: jsstr)

type_synonym 'a result = "js_exn + 'a"

text \<open>ASCII literals of the source.\<close>

definition js :: "string \<Rightarrow> jsstr" where
  "js s = map of_char s"

lemma js_Nil [simp]: "js [] = []"
  by (simp add: js_def)

lemma js_Cons: "js (c # cs) = of_char c # js cs"
  by (simp add: js_def)

lemma length_js [simp]: "length (js s) = length s"
  by (simp add: js_def)

lemma js_eq_iff [simp]: "js s = js t \<longleftrightarrow> s = t"
proof
  assume "js s = js t"
  then show "s = t"
    unfolding js_def by (rule map_injective) (simp add: inj_def)
qed simp

lemma js_eq_Nil_iff [simp]: "js s = [] \<longleftrightarrow> s = []" "[] = js s \<longleftrightarrow> s = []"
  by (simp_all add: js_def)

definition exn_string :: "js_exn \<Rightarrow> jsstr" where
  "exn_string e =
     (if exn_message e = [] then exn_name e
      else if exn_name e = [] then exn_message e
      else exn_name e @ js '': '' @ exn_message e)"

text \<open>\<^verbatim>\<open>new Error(m)\<close>\<close>

definition Error :: "jsstr \<Rightarrow> js_exn" where
  "Error m = JsExn (js ''Error'') m"

section \<open>Generic lemmas\<close>

lemma sum_case_eq_Inr:
  "(case r of Inl e \<Rightarrow> Inl e | Inr x \<Rightarrow> f x) = Inr y \<longleftrightarrow> (\<exists>x. r = Inr x \<and> f x = Inr y)"
  by (cases r) auto

lemma concat_map_same_length_inj:
  assumes "concat (map f xs) = concat (map f ys)" "length xs = length ys"
    and "\<And>x. length (f x) = n" and "inj f"
  shows "xs = ys"
  using assms(1,2)
proof (induction xs arbitrary: ys)
  case (Cons x xs)
  then obtain y zs where "ys = y # zs" by (cases ys) auto
  with Cons assms(3,4) show ?case by (auto simp: inj_eq)
qed simp

lemma unat_of_nat_byte: "n < 256 \<Longrightarrow> unat (of_nat n :: 8 word) = n"
  by (simp add: unat_of_nat take_bit_nat_eq_self)

lemma unat_byte_less [simp]: "unat (b :: 8 word) < 256"
  using unsigned_less [of b] by simp

lemma of_nat_unat_byte [simp]: "of_nat (unat (b :: 8 word)) = b"
  by simp

section \<open>Codecs\<close>

text \<open>
  The contract between an encoder and its decoder, which the wire layers rely on: on the values
  \<open>ok\<close> describes, decoding what was encoded gives the value back.  Two codecs compose when the
  inner one's output is acceptable to the outer one.
\<close>

locale codec =
  fixes ok :: "'a \<Rightarrow> bool" and enc :: "'a \<Rightarrow> 'b" and dec :: "'b \<Rightarrow> 'e + 'a"
  assumes dec_enc: "ok x \<Longrightarrow> dec (enc x) = Inr x"
begin

lemma enc_inj: "ok x \<Longrightarrow> ok y \<Longrightarrow> enc x = enc y \<Longrightarrow> x = y"
  by (metis dec_enc sum.inject(2))

lemma dec_unique: "ok x \<Longrightarrow> dec (enc x) = Inr y \<Longrightarrow> y = x"
  by (simp add: dec_enc)

end

locale codec_chain =
  inner: codec ok1 enc1 dec1 + outer: codec ok2 enc2 dec2
  for ok1 :: "'a \<Rightarrow> bool" and enc1 :: "'a \<Rightarrow> 'b" and dec1 :: "'b \<Rightarrow> 'e + 'a"
    and ok2 :: "'b \<Rightarrow> bool" and enc2 :: "'b \<Rightarrow> 'c" and dec2 :: "'c \<Rightarrow> 'e + 'b" +
  assumes ok_enc: "ok1 x \<Longrightarrow> ok2 (enc1 x)"
begin

lemma chain_dec_enc:
  "ok1 x \<Longrightarrow> (case dec2 (enc2 (enc1 x)) of Inl e \<Rightarrow> Inl e | Inr y \<Rightarrow> dec1 y) = Inr x"
  by (simp add: outer.dec_enc inner.dec_enc ok_enc)

lemma chain_inj: "ok1 x \<Longrightarrow> ok1 y \<Longrightarrow> enc2 (enc1 x) = enc2 (enc1 y) \<Longrightarrow> x = y"
  by (blast dest: outer.enc_inj [OF ok_enc ok_enc] inner.enc_inj)

end

end
