(* ===== verification/Evm.thy ===== *)
theory Evm
  imports Prelude
begin

text \<open>
  The parts of the EVM and of Solidity that the vault uses: words, checked arithmetic, the ABI
  encoding of static values (32-byte big-endian words, in order), and the two precompiles
  \<^verbatim>\<open>keccak256\<close> and \<^verbatim>\<open>ecrecover\<close>, which are parameters (the fields of \<open>evm\<close>).
\<close>

type_synonym address = "160 word"
type_synonym uint256 = "256 word"
type_synonym uint128 = "128 word"
type_synonym uint64 = "64 word"
type_synonym bytes32 = "256 word"

record evm =
  keccak :: "bytes \<Rightarrow> bytes32"
  ecrecover :: "bytes32 \<Rightarrow> byte \<Rightarrow> bytes32 \<Rightarrow> bytes32 \<Rightarrow> address"

section \<open>ABI encoding of static values\<close>

definition word_be :: "uint256 \<Rightarrow> bytes" where
  "word_be w = map (\<lambda>i. ucast (drop_bit (8 * (31 - i)) w)) [0..<32]"

definition abi_encode :: "uint256 list \<Rightarrow> bytes" where
  "abi_encode ws = concat (map word_be ws)"

text \<open>\<^verbatim>\<open>bytes32(slice)\<close> of 32 bytes.\<close>

definition be_word :: "bytes \<Rightarrow> bytes32" where
  "be_word bs = foldl (\<lambda>acc b. push_bit 8 acc + ucast b) 0 bs"

definition ascii_bytes :: "string \<Rightarrow> bytes" where
  "ascii_bytes s = map of_char s"

section \<open>Checked arithmetic\<close>

definition checked_add :: "'a::len word \<Rightarrow> 'a word \<Rightarrow> 'a word option" where
  "checked_add a b = (if unat a + unat b < 2 ^ LENGTH('a) then Some (a + b) else None)"

definition checked_sub :: "'a::len word \<Rightarrow> 'a word \<Rightarrow> 'a word option" where
  "checked_sub a b = (if b \<le> a then Some (a - b) else None)"

lemma checked_add_unat: "checked_add a b = Some c \<Longrightarrow> unat c = unat a + unat b"
  by (auto simp: checked_add_def unat_word_ariths split: if_splits)

lemma checked_add_None: "checked_add a b = None \<longleftrightarrow> 2 ^ LENGTH('a) \<le> unat a + unat (b :: 'a::len word)"
  by (auto simp: checked_add_def)

lemma checked_sub_unat: "checked_sub a b = Some c \<Longrightarrow> unat c = unat a - unat b \<and> unat b \<le> unat a"
  by (auto simp: checked_sub_def unat_sub word_le_nat_alt split: if_splits)

lemma checked_sub_Some: "b \<le> a \<Longrightarrow> checked_sub a b = Some (a - b)"
  by (simp add: checked_sub_def)

section \<open>The encoding is injective\<close>

lemma length_word_be [simp]: "length (word_be w) = 32"
  by (simp add: word_be_def)

lemma bit_word_be:
  assumes "n < 256"
  shows "bit (word_be w ! (31 - n div 8)) (n mod 8) = bit w n"
proof -
  have "31 - n div 8 < 32" "31 - (31 - n div 8) = n div 8" using assms by auto
  then have "word_be w ! (31 - n div 8) = ucast (drop_bit (8 * (n div 8)) w)"
    by (simp add: word_be_def)
  then show ?thesis
    using assms by (simp add: bit_ucast_iff bit_drop_bit_eq)
qed

lemma inj_word_be: "inj word_be"
proof (rule injI)
  fix v w :: uint256
  assume "word_be v = word_be w"
  then have "bit v n = bit w n" if "n < 256" for n
    using bit_word_be [OF that] by metis
  then show "v = w" by (intro bit_word_eqI) simp
qed

lemma abi_encode_inj:
  "length vs = length ws \<Longrightarrow> abi_encode vs = abi_encode ws \<Longrightarrow> vs = ws"
  unfolding abi_encode_def
  by (rule concat_map_same_length_inj [OF _ _ _ inj_word_be]) simp_all

lemma length_abi_encode [simp]: "length (abi_encode ws) = 32 * length ws"
  by (induction ws) (simp_all add: abi_encode_def)

lemma unat_ucast_wide:
  assumes "LENGTH('a) \<le> LENGTH('b)"
  shows "unat (ucast (a :: 'a::len word) :: 'b::len word) = unat a"
proof -
  have "unat a < 2 ^ LENGTH('a)" by (rule unsigned_less)
  also have "\<dots> \<le> 2 ^ LENGTH('b)" using assms by (rule power_increasing) simp
  finally show ?thesis by (simp add: unsigned_ucast_eq take_bit_nat_eq_self)
qed

lemma unat_ucast_128 [simp]: "unat (ucast (a :: uint128) :: uint256) = unat a"
  by (rule unat_ucast_wide) simp

lemma ucast_128_256 [simp]: "ucast (ucast (a :: uint128) :: uint256) = a"
  by (intro bit_word_eqI) (simp add: bit_ucast_iff)

lemma ucast_address_inj: "(ucast (a :: address) :: uint256) = ucast b \<Longrightarrow> a = b"
  using unat_ucast_wide [of a, where 'b = 256] unat_ucast_wide [of b, where 'b = 256]
  by (simp add: word_unat_eq_iff)

section \<open>Reading a word back\<close>

lemma be_word_snoc: "be_word (bs @ [b]) = push_bit 8 (be_word bs) + ucast b"
  by (simp add: be_word_def)

lemma byte_split: "push_bit 8 (drop_bit 8 x) + ucast (ucast x :: byte) = (x :: uint256)"
proof -
  have "ucast (ucast x :: byte) = take_bit 8 x"
    by (intro bit_word_eqI) (auto simp: bit_ucast_iff bit_take_bit_iff)
  then show ?thesis by (simp add: bits_ident)
qed

lemma be_word_take:
  "k \<le> 32 \<Longrightarrow> be_word (take k (word_be w)) = drop_bit (8 * (32 - k)) w"
proof (induction k)
  case 0
  have "drop_bit 256 w = 0"
    by (intro bit_word_eqI) (auto simp: bit_drop_bit_eq dest: bit_imp_le_length)
  then show ?case by (simp add: be_word_def)
next
  case (Suc k)
  let ?x = "drop_bit (8 * (31 - k)) w"
  have "8 * (32 - k) = 8 + 8 * (31 - k)" using Suc.prems by simp
  then have "drop_bit (8 * (32 - k)) w = drop_bit 8 ?x"
    by (simp only: drop_bit_drop_bit)
  moreover have "take (Suc k) (word_be w) = take k (word_be w) @ [ucast ?x]"
    using Suc.prems by (simp add: take_Suc_conv_app_nth word_be_def)
  ultimately have "be_word (take (Suc k) (word_be w)) = push_bit 8 (drop_bit 8 ?x) + ucast (ucast ?x :: byte)"
    using Suc by (simp only: be_word_snoc)
  also have "\<dots> = ?x" by (rule byte_split)
  finally show ?case by simp
qed

lemma be_word_word_be [simp]: "be_word (word_be w) = w"
  using be_word_take [of 32 w] by simp

lemma drop_byte: "drop_bit 8 (push_bit 8 w + ucast (b :: byte)) = (take_bit 248 w :: uint256)"
proof -
  have "push_bit 8 w + ucast b = or (push_bit 8 w) (ucast b :: uint256)"
    by (rule disjunctive_add_eq_or, rule bit_eqI)
      (auto simp: bit_and_iff bit_push_bit_iff bit_ucast_iff dest: bit_imp_le_length)
  moreover have "\<not> bit b (8 + n)" for n
    using bit_imp_le_length [of b "8 + n"] by auto
  ultimately show ?thesis
    by (auto intro!: bit_word_eqI simp: bit_drop_bit_eq bit_or_iff bit_push_bit_iff bit_ucast_iff
        bit_take_bit_iff)
qed

lemma low_byte: "ucast (push_bit 8 w + ucast (b :: byte) :: uint256) = b"
proof -
  have "push_bit 8 w + ucast b = or (push_bit 8 w) (ucast b :: uint256)"
    by (rule disjunctive_add_eq_or, rule bit_eqI)
      (auto simp: bit_and_iff bit_push_bit_iff bit_ucast_iff dest: bit_imp_le_length)
  then show ?thesis
    by (auto intro!: bit_word_eqI simp: bit_or_iff bit_push_bit_iff bit_ucast_iff)
qed

lemma word_be_snoc: "word_be (push_bit 8 w + ucast b) = tl (word_be w) @ [b]"
proof (rule nth_equalityI)
  fix i assume "i < length (word_be (push_bit 8 w + ucast b))"
  then have i: "i < 32" by simp
  show "word_be (push_bit 8 w + ucast b) ! i = (tl (word_be w) @ [b]) ! i"
  proof (cases "i = 31")
    case True
    then show ?thesis by (simp add: word_be_def low_byte nth_append)
  next
    case False
    with i have i31: "i < 31" by simp
    then have eq: "8 * (31 - i) = 8 * (30 - i) + 8" by simp
    have "drop_bit (8 * (31 - i)) (push_bit 8 w + ucast b) = drop_bit (8 * (30 - i)) (take_bit 248 w)"
      unfolding eq by (simp add: drop_byte flip: drop_bit_drop_bit)
    moreover have "(ucast (drop_bit (8 * (30 - i)) (take_bit 248 w)) :: byte) = ucast (drop_bit (8 * (30 - i)) w)"
      using i31 by (intro bit_word_eqI)
        (auto simp: bit_ucast_iff bit_drop_bit_eq bit_take_bit_iff)
    ultimately show ?thesis using i31 by (simp add: word_be_def nth_append nth_tl)
  qed
qed simp

lemma word_be_be_word:
  "length bs \<le> 32 \<Longrightarrow> word_be (be_word bs) = replicate (32 - length bs) 0 @ bs"
proof (induction bs rule: rev_induct)
  case Nil
  have "word_be 0 = replicate 32 0" by (rule nth_equalityI) (simp_all add: word_be_def)
  then show ?case by (simp add: be_word_def)
next
  case (snoc b bs)
  then show ?case by (simp add: be_word_snoc word_be_snoc Suc_diff_le)
qed

text \<open>The words of an encoding, read back.\<close>

fun abi_words :: "nat \<Rightarrow> bytes \<Rightarrow> uint256 list option" where
  "abi_words 0 bs = Some []"
| "abi_words (Suc n) bs =
     (if length bs < 32 then None
      else map_option ((#) (be_word (take 32 bs))) (abi_words n (drop 32 bs)))"

lemma abi_words_encode: "abi_words (length ws) (abi_encode ws @ bs) = Some ws"
  by (induction ws) (simp_all add: abi_encode_def)

section \<open>An instance for the witnesses\<close>

text \<open>A polynomial hash of the bytes, and a recovery that always yields account 5.\<close>

definition demo_evm :: evm where
  "demo_evm = \<lparr>keccak = (\<lambda>bs. foldl (\<lambda>h b. 31 * h + ucast b) 7 bs), ecrecover = (\<lambda>d v r s. 5)\<rparr>"

end
