(* ===== verification/Vault.thy ===== *)
theory Vault
  imports Evm
begin

text \<open>
  \<^verbatim>\<open>contracts/StreamVault.sol\<close>.  A call takes the vault's storage and the state of the tokens and
  returns both updated, or a revert, which rolls back both.  The tokens are contracts the vault
  only calls: a parameter \<open>'w tokens\<close>.  A token call may revert, may return a boolean, and may call
  back into the vault before it returns: the reply carries the list of such calls.  Each of them
  runs the very functions below (\<open>vault_call_with\<close>), on the storage as it is at that moment, and may
  call the token and be re-entered in its turn, down to the depth the EVM allows (\<open>reentered\<close>).  That
  a re-entered guarded call is refused is thus not built in: it is what \<open>nonReentrant\<close> achieves.
\<close>

section \<open>Storage\<close>

record stream =
  s_employer :: address
  s_recipient :: address
  s_token :: address
  s_commitment :: bytes32
  s_funded :: uint128
  s_withdrawn :: uint128
  s_startTime :: uint64
  s_cancelled :: bool

datatype event =
    StreamCreated uint256 address address address bytes32 uint64 bytes
  | StreamFunded uint256 uint128
  | Withdrawn uint256 address uint256
  | StreamCancelled uint256 uint256
  | TermsRevealed uint256 bytes
  | TeeSignerUpdated address

record vault =
  v_owner :: address
  v_teeSigner :: address
  v_nextStreamId :: uint256
  v_streams :: "uint256 \<Rightarrow> stream"
  v_entered :: nat
  v_events :: "event list"

text \<open>The value of an unset mapping entry.\<close>

definition empty_stream :: stream where
  "empty_stream = \<lparr>s_employer = 0, s_recipient = 0, s_token = 0, s_commitment = 0, s_funded = 0,
     s_withdrawn = 0, s_startTime = 0, s_cancelled = False\<rparr>"

text \<open>The transaction: \<^verbatim>\<open>msg.sender\<close>, \<^verbatim>\<open>block.timestamp\<close>, \<^verbatim>\<open>block.chainid\<close>, \<^verbatim>\<open>address(this)\<close>.\<close>

record txenv =
  tx_sender :: address
  tx_time :: uint256
  tx_chain :: uint256
  tx_this :: address

datatype revert = Revert string | Panic | TokenRevert | CallDepth

definition emit :: "event \<Rightarrow> vault \<Rightarrow> vault" where
  "emit e v = v\<lparr>v_events := v_events v @ [e]\<rparr>"

definition set_stream :: "uint256 \<Rightarrow> stream \<Rightarrow> vault \<Rightarrow> vault" where
  "set_stream i s v = v\<lparr>v_streams := (v_streams v)(i := s)\<rparr>"

text \<open>The constructor; every other field has its declared initial value.\<close>

definition new_vault :: "address \<Rightarrow> address \<Rightarrow> vault" where
  "new_vault sender signer = \<lparr>v_owner = sender, v_teeSigner = signer, v_nextStreamId = 1,
     v_streams = (\<lambda>_. empty_stream), v_entered = 1, v_events = []\<rparr>"

section \<open>Calls without the reentrancy guard\<close>

definition setTeeSigner :: "txenv \<Rightarrow> address \<Rightarrow> vault \<Rightarrow> revert + vault" where
  "setTeeSigner x signer v =
     (if tx_sender x \<noteq> v_owner v then Inl (Revert ''not owner'')
      else if signer = 0 then Inl (Revert ''zero signer'')
      else Inr (emit (TeeSignerUpdated signer) (v\<lparr>v_teeSigner := signer\<rparr>)))"

definition createStream ::
    "txenv \<Rightarrow> address \<Rightarrow> address \<Rightarrow> bytes32 \<Rightarrow> uint64 \<Rightarrow> bytes \<Rightarrow> vault \<Rightarrow> revert + (uint256 \<times> vault)" where
  "createStream x recipient token commitment start enc v =
     (if recipient = 0 then Inl (Revert ''zero recipient'')
      else if token = 0 then Inl (Revert ''zero token'')
      else if commitment = 0 then Inl (Revert ''zero commitment'')
      else case checked_add (v_nextStreamId v) 1 of
        None \<Rightarrow> Inl Panic
      | Some n \<Rightarrow>
          (let i = v_nextStreamId v;
               s = \<lparr>s_employer = tx_sender x, s_recipient = recipient, s_token = token,
                    s_commitment = commitment, s_funded = 0, s_withdrawn = 0,
                    s_startTime = start, s_cancelled = False\<rparr>
           in Inr (i, emit (StreamCreated i (tx_sender x) recipient token commitment start enc)
                       (set_stream i s (v\<lparr>v_nextStreamId := n\<rparr>)))))"

definition revealTerms :: "evm \<Rightarrow> uint256 \<Rightarrow> bytes \<Rightarrow> vault \<Rightarrow> revert + vault" where
  "revealTerms E i terms v =
     (let s = v_streams v i in
      if s_employer s = 0 then Inl (Revert ''no stream'')
      else if keccak E terms \<noteq> s_commitment s then Inl (Revert ''terms do not match commitment'')
      else Inr (emit (TermsRevealed i terms) v))"

section \<open>Token calls and reentrancy\<close>

text \<open>A call to the vault, with its arguments.\<close>

datatype vcall =
    CSetTeeSigner address
  | CCreateStream address address bytes32 uint64 bytes
  | CRevealTerms uint256 bytes
  | CFund uint256 uint128
  | CWithdraw uint256 uint256 uint256 bytes
  | CCancelStream uint256 uint256 uint256 bytes

datatype 'w tok_reply = TokRevert | TokReturn bool 'w "(address \<times> vcall) list"

text \<open>
  The tokens: \<open>t_transfer tok caller to amount\<close> and \<open>t_transferFrom tok caller from to amount\<close>.
\<close>

record 'w tokens =
  t_transfer :: "address \<Rightarrow> address \<Rightarrow> address \<Rightarrow> uint256 \<Rightarrow> 'w \<Rightarrow> 'w tok_reply"
  t_transferFrom :: "address \<Rightarrow> address \<Rightarrow> address \<Rightarrow> address \<Rightarrow> uint256 \<Rightarrow> 'w \<Rightarrow> 'w tok_reply"

text \<open>
  What runs a call to the vault.  The functions below take the one that serves the calls the token
  makes; the sender of such a call is the account that makes it, and one that reverts has no effect.
\<close>

type_synonym 'w vexec = "txenv \<Rightarrow> vcall \<Rightarrow> vault \<times> 'w \<Rightarrow> revert + (vault \<times> 'w)"

definition reenter1 :: "'w vexec \<Rightarrow> txenv \<Rightarrow> address \<times> vcall \<Rightarrow> vault \<times> 'w \<Rightarrow> vault \<times> 'w" where
  "reenter1 R x ac vw =
     (case R (x\<lparr>tx_sender := fst ac\<rparr>) (snd ac) vw of Inl _ \<Rightarrow> vw | Inr vw' \<Rightarrow> vw')"

fun reenter :: "'w vexec \<Rightarrow> txenv \<Rightarrow> (address \<times> vcall) list \<Rightarrow> vault \<times> 'w \<Rightarrow> vault \<times> 'w" where
  "reenter R x [] vw = vw"
| "reenter R x (ac # cs) vw = reenter R x cs (reenter1 R x ac vw)"

text \<open>\<^verbatim>\<open>require(token.transfer(..), msg)\<close>\<close>

definition after_call ::
    "'w vexec \<Rightarrow> txenv \<Rightarrow> string \<Rightarrow> 'w tok_reply \<Rightarrow> vault \<Rightarrow> revert + (vault \<times> 'w)" where
  "after_call R x msg reply v =
     (case reply of
        TokRevert \<Rightarrow> Inl TokenRevert
      | TokReturn ok w cs \<Rightarrow> if ok then Inr (reenter R x cs (v, w)) else Inl (Revert msg))"

definition nonReentrant ::
    "(vault \<times> 'w \<Rightarrow> revert + (vault \<times> 'w)) \<Rightarrow> vault \<times> 'w \<Rightarrow> revert + (vault \<times> 'w)" where
  "nonReentrant body vw =
     (case vw of (v, w) \<Rightarrow>
        if v_entered v \<noteq> 1 then Inl (Revert ''reentrancy'')
        else case body (v\<lparr>v_entered := 2\<rparr>, w) of
          Inl e \<Rightarrow> Inl e
        | Inr (v', w') \<Rightarrow> Inr (v'\<lparr>v_entered := 1\<rparr>, w'))"

section \<open>Signatures and digests\<close>

definition WITHDRAW_TAG :: "evm \<Rightarrow> bytes32" where
  "WITHDRAW_TAG E = keccak E (ascii_bytes ''SW_WITHDRAW_V1'')"

definition SETTLE_TAG :: "evm \<Rightarrow> bytes32" where
  "SETTLE_TAG E = keccak E (ascii_bytes ''SW_SETTLE_V1'')"

definition auth_words ::
    "bytes32 \<Rightarrow> uint256 \<Rightarrow> address \<Rightarrow> uint256 \<Rightarrow> bytes32 \<Rightarrow> uint256 \<Rightarrow> uint256 \<Rightarrow> uint256 list" where
  "auth_words tag chain vault i commitment accrued deadline =
     [tag, chain, ucast vault, i, commitment, accrued, deadline]"

definition auth_digest ::
    "evm \<Rightarrow> bytes32 \<Rightarrow> uint256 \<Rightarrow> address \<Rightarrow> uint256 \<Rightarrow> bytes32 \<Rightarrow> uint256 \<Rightarrow> uint256 \<Rightarrow> bytes32" where
  "auth_digest E tag chain vault i commitment accrued deadline =
     keccak E (abi_encode (auth_words tag chain vault i commitment accrued deadline))"

text \<open>\<^verbatim>\<open>keccak256(abi.encodePacked("\x19Ethereum Signed Message:\n32", digest))\<close>\<close>

definition eth_digest :: "evm \<Rightarrow> bytes32 \<Rightarrow> bytes32" where
  "eth_digest E d =
     keccak E (0x19 # ascii_bytes ''Ethereum Signed Message:'' @ [10] @ ascii_bytes ''32'' @ word_be d)"

definition recoverEthSigned :: "evm \<Rightarrow> bytes32 \<Rightarrow> bytes \<Rightarrow> revert + address" where
  "recoverEthSigned E digest sig =
     (if length sig \<noteq> 65 then Inl (Revert ''bad sig length'')
      else
        (let r = be_word (take 32 sig);
             vs = be_word (take 32 (drop 32 sig));
             v = sig ! 64;
             v = (if v < 27 then v + 27 else v);
             signer = ecrecover E (eth_digest E digest) v r vs
         in if signer = 0 then Inl (Revert ''invalid signature'') else Inr signer))"

section \<open>Guarded calls\<close>

definition fund_body ::
    "'w vexec \<Rightarrow> 'w tokens \<Rightarrow> txenv \<Rightarrow> uint256 \<Rightarrow> uint128 \<Rightarrow> vault \<times> 'w \<Rightarrow> revert + (vault \<times> 'w)" where
  "fund_body R T x i amount vw =
     (case vw of (v, w) \<Rightarrow>
       let s = v_streams v i in
       if s_employer s = 0 then Inl (Revert ''no stream'')
       else if s_cancelled s then Inl (Revert ''cancelled'')
       else if \<not> 0 < amount then Inl (Revert ''zero amount'')
       else case checked_add (s_funded s) amount of
         None \<Rightarrow> Inl Panic
       | Some f \<Rightarrow>
           (let v1 = set_stream i (s\<lparr>s_funded := f\<rparr>) v in
            case after_call R x ''transferFrom failed''
                   (t_transferFrom T (s_token s) (tx_this x) (tx_sender x) (tx_this x) (ucast amount) w) v1 of
              Inl e \<Rightarrow> Inl e
            | Inr (v2, w2) \<Rightarrow> Inr (emit (StreamFunded i amount) v2, w2)))"

definition withdraw_body ::
    "'w vexec \<Rightarrow> evm \<Rightarrow> 'w tokens \<Rightarrow> txenv \<Rightarrow> uint256 \<Rightarrow> uint256 \<Rightarrow> uint256 \<Rightarrow> bytes \<Rightarrow> vault \<times> 'w
       \<Rightarrow> revert + (vault \<times> 'w)" where
  "withdraw_body R E T x i accrued deadline sig vw =
     (case vw of (v, w) \<Rightarrow>
       let s = v_streams v i in
       if s_employer s = 0 then Inl (Revert ''no stream'')
       else if s_cancelled s then Inl (Revert ''cancelled'')
       else if \<not> tx_time x \<le> deadline then Inl (Revert ''authorization expired'')
       else
         let digest = auth_digest E (WITHDRAW_TAG E) (tx_chain x) (tx_this x) i
                        (s_commitment s) accrued deadline in
         case recoverEthSigned E digest sig of
           Inl e \<Rightarrow> Inl e
         | Inr signer \<Rightarrow>
             if signer \<noteq> v_teeSigner v then Inl (Revert ''bad TEE signature'')
             else
               let cap = (if accrued < ucast (s_funded s) then accrued else ucast (s_funded s)) in
               if \<not> ucast (s_withdrawn s) < cap then Inl (Revert ''nothing accrued'')
               else case checked_sub cap (ucast (s_withdrawn s)) of
                 None \<Rightarrow> Inl Panic
               | Some payout \<Rightarrow>
                   (let v1 = set_stream i (s\<lparr>s_withdrawn := ucast cap\<rparr>) v in
                    case after_call R x ''transfer failed''
                           (t_transfer T (s_token s) (tx_this x) (s_recipient s) payout w) v1 of
                      Inl e \<Rightarrow> Inl e
                    | Inr (v2, w2) \<Rightarrow>
                        Inr (emit (Withdrawn i (s_recipient (v_streams v2 i)) payout) v2, w2)))"

text \<open>A transfer that is made only for a positive amount.\<close>

definition pay ::
    "'w vexec \<Rightarrow> 'w tokens \<Rightarrow> txenv \<Rightarrow> string \<Rightarrow> address \<Rightarrow> address \<Rightarrow> uint256 \<Rightarrow> vault \<times> 'w
       \<Rightarrow> revert + (vault \<times> 'w)" where
  "pay R T x msg tok to amount vw =
     (case vw of (v, w) \<Rightarrow>
        if 0 < amount then after_call R x msg (t_transfer T tok (tx_this x) to amount w) v
        else Inr (v, w))"

definition cancelStream_body ::
    "'w vexec \<Rightarrow> evm \<Rightarrow> 'w tokens \<Rightarrow> txenv \<Rightarrow> uint256 \<Rightarrow> uint256 \<Rightarrow> uint256 \<Rightarrow> bytes \<Rightarrow> vault \<times> 'w
       \<Rightarrow> revert + (vault \<times> 'w)" where
  "cancelStream_body R E T x i final deadline sig vw =
     (case vw of (v, w) \<Rightarrow>
       let s = v_streams v i in
       if tx_sender x \<noteq> s_employer s then Inl (Revert ''not employer'')
       else if s_cancelled s then Inl (Revert ''cancelled'')
       else if \<not> tx_time x \<le> deadline then Inl (Revert ''authorization expired'')
       else
         let digest = auth_digest E (SETTLE_TAG E) (tx_chain x) (tx_this x) i
                        (s_commitment s) final deadline in
         case recoverEthSigned E digest sig of
           Inl e \<Rightarrow> Inl e
         | Inr signer \<Rightarrow>
             if signer \<noteq> v_teeSigner v then Inl (Revert ''bad TEE signature'')
             else
               let wd = (ucast (s_withdrawn s) :: uint256);
                   owed = (if final < ucast (s_funded s) then final else ucast (s_funded s));
                   toRecipient = (if wd < owed then owed - wd else 0) in
               case checked_sub (s_funded s) (s_withdrawn s) of
                 None \<Rightarrow> Inl Panic
               | Some left \<Rightarrow>
                   (case checked_sub (ucast left) toRecipient of
                      None \<Rightarrow> Inl Panic
                    | Some refund \<Rightarrow>
                        let v1 = set_stream i (s\<lparr>s_cancelled := True,
                              s_withdrawn := ucast (if wd < owed then owed else wd)\<rparr>) v in
                        case pay R T x ''transfer failed'' (s_token s) (s_recipient s) toRecipient (v1, w) of
                          Inl e \<Rightarrow> Inl e
                        | Inr (v2, w2) \<Rightarrow>
                            (case pay R T x ''refund failed'' (s_token (v_streams v2 i))
                                    (s_employer (v_streams v2 i)) refund (v2, w2) of
                               Inl e \<Rightarrow> Inl e
                             | Inr (v3, w3) \<Rightarrow> Inr (emit (StreamCancelled i refund) v3, w3))))"

section \<open>The external functions\<close>

text \<open>The six external functions, when \<open>R\<close> serves the calls the token makes in the meantime.\<close>

fun vault_call_with :: "'w vexec \<Rightarrow> evm \<Rightarrow> 'w tokens \<Rightarrow> 'w vexec" where
  "vault_call_with R E T x (CSetTeeSigner a) (v, w) =
     (case setTeeSigner x a v of Inl e \<Rightarrow> Inl e | Inr v' \<Rightarrow> Inr (v', w))"
| "vault_call_with R E T x (CCreateStream r t c st enc) (v, w) =
     (case createStream x r t c st enc v of Inl e \<Rightarrow> Inl e | Inr (_, v') \<Rightarrow> Inr (v', w))"
| "vault_call_with R E T x (CRevealTerms i terms) (v, w) =
     (case revealTerms E i terms v of Inl e \<Rightarrow> Inl e | Inr v' \<Rightarrow> Inr (v', w))"
| "vault_call_with R E T x (CFund i n) vw = nonReentrant (fund_body R T x i n) vw"
| "vault_call_with R E T x (CWithdraw i n d sig) vw = nonReentrant (withdraw_body R E T x i n d sig) vw"
| "vault_call_with R E T x (CCancelStream i n d sig) vw =
     nonReentrant (cancelStream_body R E T x i n d sig) vw"

text \<open>
  A call the token makes, with \<open>n\<close> more levels of re-entry left.  The EVM nests 1024 calls, and a
  re-entry takes two of them, the token's and the vault's; a deeper call fails.
\<close>

primrec reentered :: "nat \<Rightarrow> evm \<Rightarrow> 'w tokens \<Rightarrow> 'w vexec" where
  "reentered 0 E T = (\<lambda>x c vw. Inl CallDepth)"
| "reentered (Suc n) E T = vault_call_with (reentered n E T) E T"

definition reentry_depth :: nat where
  "reentry_depth = 512"

definition fund where
  "fund E T x i amount = nonReentrant (fund_body (reentered reentry_depth E T) T x i amount)"

definition withdraw where
  "withdraw E T x i accrued deadline sig =
     nonReentrant (withdraw_body (reentered reentry_depth E T) E T x i accrued deadline sig)"

definition cancelStream where
  "cancelStream E T x i final deadline sig =
     nonReentrant (cancelStream_body (reentered reentry_depth E T) E T x i final deadline sig)"

text \<open>One transaction to the vault.\<close>

fun vault_call :: "evm \<Rightarrow> 'w tokens \<Rightarrow> txenv \<Rightarrow> vcall \<Rightarrow> vault \<times> 'w \<Rightarrow> revert + (vault \<times> 'w)" where
  "vault_call E T x (CSetTeeSigner a) (v, w) =
     (case setTeeSigner x a v of Inl e \<Rightarrow> Inl e | Inr v' \<Rightarrow> Inr (v', w))"
| "vault_call E T x (CCreateStream r t c st enc) (v, w) =
     (case createStream x r t c st enc v of Inl e \<Rightarrow> Inl e | Inr (_, v') \<Rightarrow> Inr (v', w))"
| "vault_call E T x (CRevealTerms i terms) (v, w) =
     (case revealTerms E i terms v of Inl e \<Rightarrow> Inl e | Inr v' \<Rightarrow> Inr (v', w))"
| "vault_call E T x (CFund i n) vw = fund E T x i n vw"
| "vault_call E T x (CWithdraw i n d sig) vw = withdraw E T x i n d sig vw"
| "vault_call E T x (CCancelStream i n d sig) vw = cancelStream E T x i n d sig vw"

end
