(* ===== verification/VaultProps.thy ===== *)
theory VaultProps
  imports Vault
begin

text \<open>
  What the vault guarantees: reentered calls never touch the accounting of an existing stream, the
  storage invariant, what each operation does when it succeeds, and the contract of its accounting.
\<close>

lemmas vault_upd_defs = emit_def set_stream_def

section \<open>Reentered calls\<close>

text \<open>The guard: a call that is entered while another guarded call runs always reverts.\<close>

lemma guarded_reverts:
  assumes "v_entered v \<noteq> 1"
  shows "fund E T x i n (v, w) = Inl (Revert ''reentrancy'')"
    "withdraw E T x i a d sig (v, w) = Inl (Revert ''reentrancy'')"
    "cancelStream E T x i a d sig (v, w) = Inl (Revert ''reentrancy'')"
  using assms by (simp_all add: fund_def withdraw_def cancelStream_def nonReentrant_def)

text \<open>
  \<open>frame v v'\<close>: the owner is as it was, ids are only allocated, streams below the
  old counter are unchanged, and a stream that did change is a fresh, unfunded one.
\<close>

definition frame :: "vault \<Rightarrow> vault \<Rightarrow> bool" where
  "frame v v' \<longleftrightarrow>
     v_owner v' = v_owner v \<and>
     v_nextStreamId v \<le> v_nextStreamId v' \<and>
     (\<forall>j < v_nextStreamId v. v_streams v' j = v_streams v j) \<and>
     (\<forall>j \<ge> v_nextStreamId v'. v_streams v' j = v_streams v j) \<and>
     (\<forall>j. v_streams v' j \<noteq> v_streams v j \<longrightarrow>
        s_funded (v_streams v' j) = 0 \<and> s_withdrawn (v_streams v' j) = 0)"

lemma frame_refl [simp]: "frame v v"
  by (simp add: frame_def)

lemma frame_trans:
  assumes "frame v1 v2" "frame v2 v3"
  shows "frame v1 v3"
proof -
  have "v_streams v3 j = v_streams v1 j" if "v_nextStreamId v3 \<le> j" for j
    using assms that unfolding frame_def by (metis order_trans)
  moreover have "v_streams v3 j = v_streams v1 j" if "j < v_nextStreamId v1" for j
    using assms that unfolding frame_def by (metis less_le_trans)
  moreover have "s_funded (v_streams v3 j) = 0 \<and> s_withdrawn (v_streams v3 j) = 0"
    if "v_streams v3 j \<noteq> v_streams v1 j" for j
    using assms that unfolding frame_def by metis
  ultimately show ?thesis using assms unfolding frame_def by auto
qed

lemma next_id_less: "checked_add (n :: uint256) 1 = Some m \<Longrightarrow> n < m"
  using checked_add_unat [of n 1 m] by (simp add: word_less_nat_alt)

lemma frame_setTeeSigner: "setTeeSigner x a v = Inr v' \<Longrightarrow> frame v v'"
  by (auto simp: setTeeSigner_def frame_def vault_upd_defs split: if_splits)

lemma frame_createStream: "createStream x r t c st enc v = Inr (i, v') \<Longrightarrow> frame v v'"
  by (auto simp: createStream_def frame_def vault_upd_defs Let_def
      split: if_splits option.splits dest: next_id_less)

lemma frame_revealTerms: "revealTerms E i terms v = Inr v' \<Longrightarrow> frame v v'"
  by (auto simp: revealTerms_def frame_def vault_upd_defs Let_def split: if_splits)

text \<open>
  What the calls of a token amount to while the guard is closed: the three calls without it have
  their effect, the others none.
\<close>

fun open_effect :: "evm \<Rightarrow> txenv \<Rightarrow> address \<times> vcall \<Rightarrow> vault \<Rightarrow> vault" where
  "open_effect E x (a, CSetTeeSigner signer) v =
     (case setTeeSigner (x\<lparr>tx_sender := a\<rparr>) signer v of Inl _ \<Rightarrow> v | Inr v' \<Rightarrow> v')"
| "open_effect E x (a, CCreateStream r t c st enc) v =
     (case createStream (x\<lparr>tx_sender := a\<rparr>) r t c st enc v of Inl _ \<Rightarrow> v | Inr (_, v') \<Rightarrow> v')"
| "open_effect E x (a, CRevealTerms i terms) v =
     (case revealTerms E i terms v of Inl _ \<Rightarrow> v | Inr v' \<Rightarrow> v')"
| "open_effect E x (a, _) v = v"

fun open_effects :: "evm \<Rightarrow> txenv \<Rightarrow> (address \<times> vcall) list \<Rightarrow> vault \<Rightarrow> vault" where
  "open_effects E x [] v = v"
| "open_effects E x (c # cs) v = open_effects E x cs (open_effect E x c v)"

lemma frame_open_effect: "frame v (open_effect E x c v)"
proof -
  obtain a k where "c = (a, k)" by (cases c)
  then show ?thesis
    by (cases k) (auto split: sum.splits
        intro: frame_setTeeSigner frame_createStream frame_revealTerms)
qed

lemma frame_open_effects: "frame v (open_effects E x cs v)"
  by (induction cs arbitrary: v) (auto intro: frame_trans frame_open_effect)

lemma open_effect_entered [simp]: "v_entered (open_effect E x c v) = v_entered v"
proof -
  obtain a k where "c = (a, k)" by (cases c)
  then show ?thesis
    by (cases k) (auto simp: setTeeSigner_def createStream_def revealTerms_def vault_upd_defs Let_def
        split: sum.splits if_splits option.splits)
qed

lemma open_effects_entered [simp]: "v_entered (open_effects E x cs v) = v_entered v"
  by (induction cs arbitrary: v) simp_all

text \<open>
  The point of the guard: once it is closed, a re-entered call of the vault's own functions, at
  whatever depth, amounts to that and leaves the tokens alone.
\<close>

lemma guard_closed:
  "v_entered v \<noteq> 1 \<Longrightarrow> nonReentrant body (v, w) = Inl (Revert ''reentrancy'')"
  by (simp add: nonReentrant_def)

lemma reenter1_closed:
  assumes "v_entered v \<noteq> 1"
  shows "reenter1 (vault_call_with R E T) x c (v, w) = (open_effect E x c v, w)"
proof -
  obtain a k where "c = (a, k)" by (cases c)
  with assms show ?thesis
    by (cases k) (auto simp: reenter1_def guard_closed split: sum.splits)
qed

lemma reenter_closed:
  "v_entered v \<noteq> 1 \<Longrightarrow>
     reenter (vault_call_with R E T) x cs (v, w) = (open_effects E x cs v, w)"
  by (induction cs arbitrary: v) (simp_all add: reenter1_closed)

lemma reentered_unfold:
  "reentered reentry_depth E T = vault_call_with (reentered (reentry_depth - 1) E T) E T"
  by (metis One_nat_def Suc_diff_1 reentered.simps(2) reentry_depth_def zero_less_numeral)

lemma vault_call_reentered: "vault_call E T x c vw = vault_call_with (reentered reentry_depth E T) E T x c vw"
  by (cases vw; cases c) (simp_all add: fund_def withdraw_def cancelStream_def)

section \<open>The storage invariant\<close>

text \<open>
  Ids are allocated from 1 up, an unallocated id has the empty stream, and no stream has paid out
  more than it was funded with.
\<close>

definition vault_ok :: "vault \<Rightarrow> bool" where
  "vault_ok v \<longleftrightarrow>
     v_nextStreamId v \<noteq> 0 \<and> v_streams v 0 = empty_stream \<and>
     (\<forall>j \<ge> v_nextStreamId v. v_streams v j = empty_stream) \<and>
     (\<forall>j. s_withdrawn (v_streams v j) \<le> s_funded (v_streams v j))"

lemma empty_stream_simps [simp]:
  "s_employer empty_stream = 0" "s_funded empty_stream = 0" "s_withdrawn empty_stream = 0"
  "s_cancelled empty_stream = False" "s_token empty_stream = 0" "s_commitment empty_stream = 0"
  by (simp_all add: empty_stream_def)

lemma vault_ok_new [simp]: "vault_ok (new_vault a b)"
  by (simp add: vault_ok_def new_vault_def)

lemma vault_ok_alloc:
  "vault_ok v \<Longrightarrow> s_employer (v_streams v i) \<noteq> 0 \<Longrightarrow> i \<noteq> 0 \<and> i < v_nextStreamId v"
  unfolding vault_ok_def by (metis empty_stream_simps(1) not_le_imp_less)

lemma vault_ok_frame:
  assumes "frame v v'" "vault_ok v"
  shows "vault_ok v'"
proof -
  have "0 < v_nextStreamId v" using assms(2) by (simp add: vault_ok_def word_neq_0_conv)
  then have "v_streams v' 0 = empty_stream" "v_nextStreamId v' \<noteq> 0"
    using assms by (auto simp: frame_def vault_ok_def)
  moreover have "v_streams v' j = empty_stream" if "v_nextStreamId v' \<le> j" for j
    using assms that unfolding frame_def vault_ok_def by (metis order_trans)
  moreover have "s_withdrawn (v_streams v' j) \<le> s_funded (v_streams v' j)" for j
    using assms unfolding frame_def vault_ok_def by (metis order_refl)
  ultimately show ?thesis by (simp add: vault_ok_def)
qed

lemma vault_ok_upd [simp]:
  "vault_ok (v\<lparr>v_entered := n\<rparr>) = vault_ok v" "vault_ok (emit e v) = vault_ok v"
  "vault_ok (v\<lparr>v_teeSigner := a\<rparr>) = vault_ok v"
  by (simp_all add: vault_ok_def emit_def)

lemma vault_ok_set_stream:
  "vault_ok v \<Longrightarrow> i \<noteq> 0 \<Longrightarrow> i < v_nextStreamId v \<Longrightarrow> s_withdrawn s \<le> s_funded s
    \<Longrightarrow> vault_ok (set_stream i s v)"
  by (auto simp: vault_ok_def set_stream_def)

lemma upd_simps [simp]:
  "v_streams (emit e v) = v_streams v" "v_nextStreamId (emit e v) = v_nextStreamId v"
  "v_entered (emit e v) = v_entered v" "v_events (emit e v) = v_events v @ [e]"
  "v_teeSigner (emit e v) = v_teeSigner v"
  "v_streams (set_stream i s v) = (v_streams v)(i := s)"
  "v_nextStreamId (set_stream i s v) = v_nextStreamId v"
  "v_entered (set_stream i s v) = v_entered v"
  "v_teeSigner (set_stream i s v) = v_teeSigner v"
  "v_events (set_stream i s v) = v_events v"
  by (simp_all add: emit_def set_stream_def)

section \<open>What a successful call did\<close>

lemma after_call_closed:
  "v_entered v \<noteq> 1 \<Longrightarrow> after_call (reentered reentry_depth E T) x m r v =
     (case r of
        TokRevert \<Rightarrow> Inl TokenRevert
      | TokReturn ok w cs \<Rightarrow> if ok then Inr (open_effects E x cs v, w) else Inl (Revert m))"
  by (cases r) (simp_all add: after_call_def reentered_unfold reenter_closed)

lemma after_call_Inr:
  "v_entered v \<noteq> 1 \<Longrightarrow> after_call (reentered reentry_depth E T) x m r v = Inr (v', w') \<longleftrightarrow>
     (\<exists>cs. r = TokReturn True w' cs \<and> v' = open_effects E x cs v)"
  by (cases r) (auto simp: after_call_closed)

lemma nonReentrant_Inr:
  "nonReentrant body (v, w) = Inr (v', w') \<longleftrightarrow>
     v_entered v = 1 \<and> (\<exists>u. body (v\<lparr>v_entered := 2\<rparr>, w) = Inr (u, w') \<and> v' = u\<lparr>v_entered := 1\<rparr>)"
  by (auto simp: nonReentrant_def split: sum.splits)

text \<open>The signature check that \<^verbatim>\<open>withdraw\<close> and \<^verbatim>\<open>cancelStream\<close> share.\<close>

definition tee_signed ::
    "evm \<Rightarrow> bytes32 \<Rightarrow> txenv \<Rightarrow> vault \<Rightarrow> uint256 \<Rightarrow> uint256 \<Rightarrow> uint256 \<Rightarrow> bytes \<Rightarrow> bool" where
  "tee_signed E tag x v i amount deadline sig \<longleftrightarrow>
     recoverEthSigned E (auth_digest E tag (tx_chain x) (tx_this x) i
        (s_commitment (v_streams v i)) amount deadline) sig = Inr (v_teeSigner v)"

definition cap_of :: "uint256 \<Rightarrow> stream \<Rightarrow> uint256" where
  "cap_of a s = (if a < ucast (s_funded s) then a else ucast (s_funded s))"

lemma unat_cap: "unat (cap_of a s) = min (unat a) (unat (s_funded s))"
  by (auto simp: cap_of_def word_less_nat_alt)

lemma unat_ucast_cap: "unat (ucast (cap_of a s) :: uint128) = min (unat a) (unat (s_funded s))"
proof -
  have "unat (s_funded s) < 2 ^ LENGTH(128)" by (rule unsigned_less)
  then have "unat (cap_of a s) < 2 ^ 128" by (simp add: unat_cap)
  then show ?thesis
    by (simp add: unsigned_ucast_eq take_bit_nat_eq_self unat_cap)
qed

text \<open>The effect of a withdrawal, before the token call.\<close>

definition withdrawn_to :: "uint256 \<Rightarrow> uint256 \<Rightarrow> vault \<Rightarrow> vault" where
  "withdrawn_to i cap v = set_stream i ((v_streams v i)\<lparr>s_withdrawn := ucast cap\<rparr>) v"

lemma withdraw_Inr:
  assumes "withdraw E T x i a d sig (v, w) = Inr (v', w')"
  obtains s payout cs where
    "s = v_streams v i" "v_entered v = 1" "s_employer s \<noteq> 0" "\<not> s_cancelled s" "tx_time x \<le> d"
    "tee_signed E (WITHDRAW_TAG E) x v i a d sig"
    "unat (s_withdrawn s) < min (unat a) (unat (s_funded s))"
    "unat payout = min (unat a) (unat (s_funded s)) - unat (s_withdrawn s)"
    "t_transfer T (s_token s) (tx_this x) (s_recipient s) payout w = TokReturn True w' cs"
    "let u = open_effects E x cs (withdrawn_to i (cap_of a s) (v\<lparr>v_entered := 2\<rparr>))
     in v' = (emit (Withdrawn i (s_recipient (v_streams u i)) payout) u)\<lparr>v_entered := 1\<rparr>"
proof -
  let ?s = "v_streams v i"
  from assms obtain u payout cs where u:
    "v_entered v = 1" "s_employer ?s \<noteq> 0" "\<not> s_cancelled ?s" "tx_time x \<le> d"
    "tee_signed E (WITHDRAW_TAG E) x v i a d sig"
    "ucast (s_withdrawn ?s) < cap_of a ?s"
    "checked_sub (cap_of a ?s) (ucast (s_withdrawn ?s)) = Some payout"
    "t_transfer T (s_token ?s) (tx_this x) (s_recipient ?s) payout w = TokReturn True w' cs"
    "u = open_effects E x cs (withdrawn_to i (cap_of a ?s) (v\<lparr>v_entered := 2\<rparr>))"
    "v' = (emit (Withdrawn i (s_recipient (v_streams u i)) payout) u)\<lparr>v_entered := 1\<rparr>"
    unfolding withdraw_def nonReentrant_Inr withdraw_body_def Let_def cap_of_def [symmetric]
    by (auto simp: after_call_Inr tee_signed_def withdrawn_to_def
        split: if_splits sum.splits option.splits)
  from u(6) have "unat (s_withdrawn ?s) < min (unat a) (unat (s_funded ?s))"
    by (simp add: word_less_nat_alt unat_cap)
  moreover from checked_sub_unat [OF u(7)]
  have "unat payout = min (unat a) (unat (s_funded ?s)) - unat (s_withdrawn ?s)"
    by (simp add: unat_cap)
  ultimately show ?thesis using u that [of ?s payout cs] by simp
qed


text \<open>A withdrawal that meets the conditions succeeds when the token transfer does.\<close>

lemma withdraw_succeeds:
  assumes "v_entered v = 1" "s_employer (v_streams v i) \<noteq> 0" "\<not> s_cancelled (v_streams v i)"
    and "tx_time x \<le> d" "tee_signed E (WITHDRAW_TAG E) x v i a d sig"
    and "unat (s_withdrawn (v_streams v i)) < min (unat a) (unat (s_funded (v_streams v i)))"
    and "unat payout = min (unat a) (unat (s_funded (v_streams v i))) - unat (s_withdrawn (v_streams v i))"
    and "t_transfer T (s_token (v_streams v i)) (tx_this x) (s_recipient (v_streams v i)) payout w
      = TokReturn True w' cs"
  shows "\<exists>v'. withdraw E T x i a d sig (v, w) = Inr (v', w')"
proof -
  let ?s = "v_streams v i"
  have lt: "ucast (s_withdrawn ?s) < cap_of a ?s"
    using assms(6) by (simp add: word_less_nat_alt unat_cap)
  then have sub: "checked_sub (cap_of a ?s) (ucast (s_withdrawn ?s)) = Some (cap_of a ?s - ucast (s_withdrawn ?s))"
    by (simp add: checked_sub_Some)
  have "cap_of a ?s - ucast (s_withdrawn ?s) = payout"
    using assms(7) checked_sub_unat [OF sub] by (simp add: word_unat_eq_iff unat_cap)
  with assms sub lt show ?thesis
    unfolding withdraw_def nonReentrant_Inr withdraw_body_def Let_def cap_of_def [symmetric]
    by (simp add: tee_signed_def after_call_closed)
qed

text \<open>The effect of a cancellation, before the token calls: what the recipient and the employer get.\<close>

definition settle_pay :: "uint256 \<Rightarrow> stream \<Rightarrow> nat" where
  "settle_pay a s = min (unat a) (unat (s_funded s)) - unat (s_withdrawn s)"

definition settle_refund :: "uint256 \<Rightarrow> stream \<Rightarrow> nat" where
  "settle_refund a s = unat (s_funded s) - max (min (unat a) (unat (s_funded s))) (unat (s_withdrawn s))"

definition settled :: "uint256 \<Rightarrow> uint128 \<Rightarrow> vault \<Rightarrow> vault" where
  "settled i wd v = set_stream i ((v_streams v i)\<lparr>s_cancelled := True, s_withdrawn := wd\<rparr>) v"

definition owed_of :: "uint256 \<Rightarrow> stream \<Rightarrow> uint256" where
  "owed_of a s = (if ucast (s_withdrawn s) < cap_of a s then cap_of a s - ucast (s_withdrawn s) else 0)"

lemma settled_entered [simp]: "v_entered (settled i wd v) = v_entered v"
  by (simp add: settled_def)

lemma unat_owed: "unat (owed_of a s) = settle_pay a s"
  by (auto simp: owed_of_def settle_pay_def word_less_nat_alt unat_cap unat_sub word_le_nat_alt)

lemma unat_max_cap:
  "unat (ucast (if (ucast (s_withdrawn s) :: uint256) < cap_of a s then cap_of a s
                else ucast (s_withdrawn s)) :: uint128)
     = max (min (unat a) (unat (s_funded s))) (unat (s_withdrawn s))"
proof (cases "(ucast (s_withdrawn s) :: uint256) < cap_of a s")
  case True
  then show ?thesis by (simp add: word_less_nat_alt unat_cap unat_ucast_cap)
next
  case False
  moreover have "unat (ucast (ucast (s_withdrawn s) :: uint256) :: uint128) = unat (s_withdrawn s)"
    by simp
  ultimately show ?thesis by (auto simp: word_less_nat_alt unat_cap max_def)
qed

lemma settle_no_panic:
  assumes "s_withdrawn s \<le> s_funded s"
  obtains left refund where
    "checked_sub (s_funded s) (s_withdrawn s) = Some left"
    "checked_sub (ucast left) (owed_of a s) = Some refund"
    "unat refund = settle_refund a s"
proof -
  let ?left = "s_funded s - s_withdrawn s"
  have l: "checked_sub (s_funded s) (s_withdrawn s) = Some ?left"
    using assms by (simp add: checked_sub_Some)
  have u: "unat ?left = unat (s_funded s) - unat (s_withdrawn s)"
    using assms by (simp add: unat_sub)
  have le: "owed_of a s \<le> ucast ?left"
    by (simp add: word_le_nat_alt u unat_owed settle_pay_def)
  have "unat (ucast ?left - owed_of a s) = settle_refund a s"
    using assms le by (simp add: unat_sub u unat_owed settle_pay_def settle_refund_def
        word_le_nat_alt min_def max_def)
  with l le that show ?thesis by (simp add: checked_sub_Some)
qed

text \<open>What the vault must give out on a cancellation is exactly what the stream still holds.\<close>

lemma settle_split:
  "s_withdrawn s \<le> s_funded s \<Longrightarrow>
     settle_pay a s + settle_refund a s = unat (s_funded s) - unat (s_withdrawn s)"
  by (auto simp: settle_pay_def settle_refund_def word_le_nat_alt)

abbreviation vault_pay where
  "vault_pay E T \<equiv> pay (reentered reentry_depth E T) T"

lemma pay_Inr:
  "v_entered v \<noteq> 1 \<Longrightarrow> vault_pay E T x m tok to amt (v, w) = Inr (v', w') \<longleftrightarrow>
     (if amt = 0 then v' = v \<and> w' = w
      else \<exists>cs. t_transfer T tok (tx_this x) to amt w = TokReturn True w' cs \<and> v' = open_effects E x cs v)"
  by (auto simp: pay_def after_call_Inr word_neq_0_conv)

lemma cancelStream_Inr:
  assumes "cancelStream E T x i a d sig (v, w) = Inr (v', w')" "vault_ok v"
  obtains s paid refund wd v1 v2 w1 where
    "s = v_streams v i" "v_entered v = 1" "tx_sender x = s_employer s" "\<not> s_cancelled s"
    "tx_time x \<le> d" "tee_signed E (SETTLE_TAG E) x v i a d sig"
    "unat paid = settle_pay a s" "unat refund = settle_refund a s"
    "unat wd = max (min (unat a) (unat (s_funded s))) (unat (s_withdrawn s))"
    "vault_pay E T x ''transfer failed'' (s_token s) (s_recipient s) paid
       (settled i wd (v\<lparr>v_entered := 2\<rparr>), w) = Inr (v1, w1)" "v_entered v1 = 2"
    "vault_pay E T x ''refund failed'' (s_token (v_streams v1 i)) (s_employer (v_streams v1 i)) refund
       (v1, w1) = Inr (v2, w')"
    "v' = (emit (StreamCancelled i refund) v2)\<lparr>v_entered := 1\<rparr>"
proof -
  let ?s = "v_streams v i"
  let ?wd = "ucast (if (ucast (s_withdrawn ?s) :: uint256) < cap_of a ?s then cap_of a ?s
                else ucast (s_withdrawn ?s)) :: uint128"
  have "s_withdrawn ?s \<le> s_funded ?s" using assms(2) by (simp add: vault_ok_def)
  then obtain left refund where r:
    "checked_sub (s_funded ?s) (s_withdrawn ?s) = Some left"
    "checked_sub (ucast left) (owed_of a ?s) = Some refund"
    "unat refund = settle_refund a ?s"
    by (rule settle_no_panic)
  from assms(1) obtain v1 w1 v2 where
    "v_entered v = 1" "tx_sender x = s_employer ?s" "\<not> s_cancelled ?s"
    "tx_time x \<le> d" "tee_signed E (SETTLE_TAG E) x v i a d sig"
    "vault_pay E T x ''transfer failed'' (s_token ?s) (s_recipient ?s) (owed_of a ?s)
       (settled i ?wd (v\<lparr>v_entered := 2\<rparr>), w) = Inr (v1, w1)"
    "vault_pay E T x ''refund failed'' (s_token (v_streams v1 i)) (s_employer (v_streams v1 i)) refund
       (v1, w1) = Inr (v2, w')"
    "v' = (emit (StreamCancelled i refund) v2)\<lparr>v_entered := 1\<rparr>"
    unfolding cancelStream_def nonReentrant_Inr cancelStream_body_def Let_def
      cap_of_def [symmetric] owed_of_def [symmetric]
    by (simp add: r tee_signed_def settled_def split: if_splits sum.splits prod.splits)
  moreover from this(6) have "v_entered v1 = 2"
    by (auto simp: pay_Inr split: if_splits)
  ultimately show ?thesis
    using that [OF refl, of "owed_of a ?s" refund ?wd] r(3) unat_owed unat_max_cap by blast
qed

lemma fund_Inr:
  assumes "fund E T x i n (v, w) = Inr (v', w')"
  obtains s f cs where
    "s = v_streams v i" "v_entered v = 1" "s_employer s \<noteq> 0" "\<not> s_cancelled s" "n \<noteq> 0"
    "unat f = unat (s_funded s) + unat n"
    "t_transferFrom T (s_token s) (tx_this x) (tx_sender x) (tx_this x) (ucast n) w
       = TokReturn True w' cs"
    "v' = (emit (StreamFunded i n)
       (open_effects E x cs (set_stream i (s\<lparr>s_funded := f\<rparr>) (v\<lparr>v_entered := 2\<rparr>))))\<lparr>v_entered := 1\<rparr>"
proof -
  let ?s = "v_streams v i"
  from assms obtain f cs where
    "v_entered v = 1" "s_employer ?s \<noteq> 0" "\<not> s_cancelled ?s" "n \<noteq> 0"
    "checked_add (s_funded ?s) n = Some f"
    "t_transferFrom T (s_token ?s) (tx_this x) (tx_sender x) (tx_this x) (ucast n) w
       = TokReturn True w' cs"
    "v' = (emit (StreamFunded i n)
       (open_effects E x cs (set_stream i (?s\<lparr>s_funded := f\<rparr>) (v\<lparr>v_entered := 2\<rparr>))))\<lparr>v_entered := 1\<rparr>"
    unfolding fund_def nonReentrant_Inr fund_body_def Let_def
    by (auto simp: after_call_Inr word_neq_0_conv split: if_splits sum.splits option.splits)
  then show ?thesis using that [of ?s f cs] checked_add_unat [of "s_funded ?s" n f] by simp
qed

end
