(* ===== verification/VaultContract.thy ===== *)
theory VaultContract
  imports VaultProps
begin

text \<open>
  The vault as a state machine: a run is a sequence of successful transactions, between which the
  rest of the chain may move the tokens.  The lemmas give the life of a stream over a run, and the
  theorems what a participant relies on.
\<close>

section \<open>The effect of a transaction on the streams\<close>

text \<open>How a stream may change: its parties and terms never do, its amounts only grow, and a cancelled
  stream stays as it is.\<close>

definition evolves :: "stream \<Rightarrow> stream \<Rightarrow> bool" where
  "evolves s s' \<longleftrightarrow>
     s_employer s' = s_employer s \<and> s_recipient s' = s_recipient s \<and> s_token s' = s_token s \<and>
     s_commitment s' = s_commitment s \<and> s_startTime s' = s_startTime s \<and>
     s_funded s \<le> s_funded s' \<and> s_withdrawn s \<le> s_withdrawn s' \<and>
     (s_cancelled s \<longrightarrow> s' = s)"

lemma evolves_refl [simp]: "evolves s s"
  by (simp add: evolves_def)

lemma evolves_trans: "evolves s t \<Longrightarrow> evolves t u \<Longrightarrow> evolves s u"
  by (auto simp: evolves_def)

lemma frame_upd [simp]:
  "frame v (v'\<lparr>v_entered := n\<rparr>) = frame v v'" "frame (v\<lparr>v_entered := n\<rparr>) v' = frame v v'"
  "frame v (emit e v') = frame v v'"
  by (simp_all add: frame_def emit_def)

lemma set_stream_entered: "set_stream i s (v\<lparr>v_entered := n\<rparr>) = (set_stream i s v)\<lparr>v_entered := n\<rparr>"
  by (simp add: set_stream_def)

text \<open>\<open>touches v i s' v'\<close>: the call replaced the live stream \<open>i\<close> by \<open>s'\<close>, and framed the rest.\<close>

definition touches :: "vault \<Rightarrow> uint256 \<Rightarrow> stream \<Rightarrow> vault \<Rightarrow> bool" where
  "touches v i s' v' \<longleftrightarrow>
     s_employer (v_streams v i) \<noteq> 0 \<and> \<not> s_cancelled (v_streams v i) \<and>
     evolves (v_streams v i) s' \<and> s_withdrawn s' \<le> s_funded s' \<and> frame (set_stream i s' v) v'"

lemma fund_touches:
  assumes "fund E T x i n (v, w) = Inr (v', w')" "vault_ok v"
  shows "\<exists>s'. touches v i s' v' \<and> unat (s_funded s') = unat (s_funded (v_streams v i)) + unat n \<and>
     s_withdrawn s' = s_withdrawn (v_streams v i) \<and> \<not> s_cancelled s'"
  using assms(1)
proof (rule fund_Inr)
  fix s f cs
  assume "s = v_streams v i" "s_employer s \<noteq> 0" "\<not> s_cancelled s"
    "unat f = unat (s_funded s) + unat n"
    "v' = (emit (StreamFunded i n)
       (open_effects E x cs (set_stream i (s\<lparr>s_funded := f\<rparr>) (v\<lparr>v_entered := 2\<rparr>))))\<lparr>v_entered := 1\<rparr>"
  moreover from this assms(2) have "s_withdrawn s \<le> s_funded s" by (simp add: vault_ok_def)
  ultimately show ?thesis
    by (intro exI [of _ "s\<lparr>s_funded := f\<rparr>"])
      (use frame_open_effects [of "(set_stream i (s\<lparr>s_funded := f\<rparr>) v)\<lparr>v_entered := 2\<rparr>"] in
        \<open>auto simp: touches_def evolves_def word_le_nat_alt set_stream_entered\<close>)
qed

lemma withdraw_touches:
  assumes "withdraw E T x i a d sig (v, w) = Inr (v', w')" "vault_ok v"
  shows "\<exists>s'. touches v i s' v' \<and> s_funded s' = s_funded (v_streams v i) \<and> \<not> s_cancelled s' \<and>
     s' = (v_streams v i)\<lparr>s_withdrawn := s_withdrawn s'\<rparr> \<and>
     unat (s_withdrawn s') = min (unat a) (unat (s_funded (v_streams v i)))"
  using assms(1)
proof (rule withdraw_Inr)
  fix s payout cs
  assume a: "s = v_streams v i" "s_employer s \<noteq> 0" "\<not> s_cancelled s"
    "unat (s_withdrawn s) < min (unat a) (unat (s_funded s))"
    "let u = open_effects E x cs (withdrawn_to i (cap_of a s) (v\<lparr>v_entered := 2\<rparr>))
     in v' = (emit (Withdrawn i (s_recipient (v_streams u i)) payout) u)\<lparr>v_entered := 1\<rparr>"
  let ?s' = "s\<lparr>s_withdrawn := ucast (cap_of a s)\<rparr>"
  have "frame (set_stream i ?s' v) v'"
    using a(1,5) frame_open_effects [of "(set_stream i ?s' v)\<lparr>v_entered := 2\<rparr>"]
    by (simp add: withdrawn_to_def set_stream_entered Let_def)
  then show ?thesis
    using a by (intro exI [of _ ?s'])
      (auto simp: touches_def evolves_def word_le_nat_alt unat_ucast_cap)
qed

lemma pay_frame:
  "vault_pay E T x m tok to amt (v, w) = Inr (v', w') \<Longrightarrow> v_entered v = 2 \<Longrightarrow> frame v v'"
  by (auto simp: pay_Inr frame_open_effects split: if_splits)

lemma vault_ok_live:
  "vault_ok v \<Longrightarrow> i = 0 \<or> \<not> i < v_nextStreamId v \<Longrightarrow> v_streams v i = empty_stream"
  by (auto simp: vault_ok_def not_less)

lemma cancel_touches:
  assumes "cancelStream E T x i a d sig (v, w) = Inr (v', w')" "vault_ok v" "tx_sender x \<noteq> 0"
  shows "\<exists>s'. touches v i s' v' \<and> s_funded s' = s_funded (v_streams v i) \<and> s_cancelled s' \<and>
     s' = (v_streams v i)\<lparr>s_withdrawn := s_withdrawn s', s_cancelled := True\<rparr> \<and>
     unat (s_withdrawn s') =
       max (min (unat a) (unat (s_funded (v_streams v i)))) (unat (s_withdrawn (v_streams v i)))"
  using assms(1,2)
proof (rule cancelStream_Inr)
  fix s paid refund wd v1 v2 w1
  assume a: "s = v_streams v i" "tx_sender x = s_employer s" "\<not> s_cancelled s"
    "unat wd = max (min (unat a) (unat (s_funded s))) (unat (s_withdrawn s))"
    "vault_pay E T x ''transfer failed'' (s_token s) (s_recipient s) paid
       (settled i wd (v\<lparr>v_entered := 2\<rparr>), w) = Inr (v1, w1)" "v_entered v1 = 2"
    "vault_pay E T x ''refund failed'' (s_token (v_streams v1 i)) (s_employer (v_streams v1 i)) refund
       (v1, w1) = Inr (v2, w')"
    "v' = (emit (StreamCancelled i refund) v2)\<lparr>v_entered := 1\<rparr>"
  let ?s' = "s\<lparr>s_cancelled := True, s_withdrawn := wd\<rparr>"
  have "frame ((set_stream i ?s' v)\<lparr>v_entered := 2\<rparr>) v2"
    using frame_trans [OF pay_frame [OF a(5)] pay_frame [OF a(7,6)]] a(1)
    by (simp add: settled_def set_stream_entered)
  moreover have "s_withdrawn s \<le> s_funded s" using assms(2) a(1) by (simp add: vault_ok_def)
  ultimately show ?thesis
    using a assms(3) by (intro exI [of _ ?s'])
      (auto simp: touches_def evolves_def word_le_nat_alt)
qed

lemma guarded_entered:
  "nonReentrant body (v, w) = Inr (v', w') \<Longrightarrow> v_entered v = 1 \<and> v_entered v' = 1"
  by (auto simp: nonReentrant_Inr)

lemma vault_call_cases:
  assumes "vault_call E T x c (v, w) = Inr (v', w')" "vault_ok v" "tx_sender x \<noteq> 0"
  shows "(frame v v' \<and> w' = w) \<or> (\<exists>i s'. touches v i s' v')"
proof (cases c)
  case (CSetTeeSigner a)
  with assms show ?thesis by (auto intro: frame_setTeeSigner split: sum.splits)
next
  case (CCreateStream r t c st enc)
  with assms show ?thesis by (auto intro: frame_createStream split: sum.splits)
next
  case (CRevealTerms i terms)
  with assms show ?thesis by (auto intro: frame_revealTerms split: sum.splits)
next
  case (CFund i n)
  with assms fund_touches [of E T x i n v w v' w'] show ?thesis by auto
next
  case (CWithdraw i a d sig)
  with assms withdraw_touches [of E T x i a d sig v w v' w'] show ?thesis by auto
next
  case (CCancelStream i a d sig)
  with assms cancel_touches [of E T x i a d sig v w v' w'] show ?thesis by auto
qed

lemma vault_call_entered:
  assumes "vault_call E T x c (v, w) = Inr (v', w')"
  shows "v_entered v' = v_entered v"
  using assms by (cases c) (auto simp: setTeeSigner_def createStream_def revealTerms_def Let_def
      vault_upd_defs fund_def withdraw_def cancelStream_def dest: guarded_entered
      split: sum.splits if_splits option.splits)

lemma touches_ok: "touches v i s' v' \<Longrightarrow> vault_ok v \<Longrightarrow> vault_ok v'"
  unfolding touches_def
  using vault_ok_alloc [of v i] vault_ok_set_stream [of v i s'] vault_ok_frame by blast

lemma touches_stream:
  assumes "touches v i s' v'" "vault_ok v"
  shows "v_streams v' i = s'" "v_nextStreamId v \<le> v_nextStreamId v'"
    "j < v_nextStreamId v \<Longrightarrow> j \<noteq> i \<Longrightarrow> v_streams v' j = v_streams v j"
  using assms vault_ok_alloc [of v i] by (auto simp: touches_def frame_def)

section \<open>Runs\<close>

inductive vault_step ::
    "evm \<Rightarrow> 'w tokens \<Rightarrow> address \<Rightarrow> ('w \<Rightarrow> 'w \<Rightarrow> bool) \<Rightarrow> vault \<times> 'w \<Rightarrow> vault \<times> 'w \<Rightarrow> bool"
  for E :: evm and T :: "'w tokens" and this :: address and others :: "'w \<Rightarrow> 'w \<Rightarrow> bool"
where
  transaction: "tx_this x = this \<Longrightarrow> tx_sender x \<noteq> 0 \<Longrightarrow> tx_sender x \<noteq> this
    \<Longrightarrow> vault_call E T x c (v, w) = Inr (v', w') \<Longrightarrow> vault_step E T this others (v, w) (v', w')"
| elsewhere: "others w w' \<Longrightarrow> vault_step E T this others (v, w) (v, w')"

inductive_cases vault_stepE: "vault_step E T this others (v, w) (v', w')"

definition vault_inv :: "vault \<times> 'w \<Rightarrow> bool" where
  "vault_inv vw \<longleftrightarrow> vault_ok (fst vw) \<and> v_entered (fst vw) = 1"

lemma vault_inv_new [simp]: "vault_inv (new_vault a b, w)"
  using vault_ok_new [of a b] by (simp add: vault_inv_def new_vault_def)

abbreviation vault_run where
  "vault_run E T this others \<equiv> (vault_step E T this others)\<^sup>*\<^sup>*"

lemma vault_step_inv:
  assumes "vault_step E T this others vw vw'" "vault_inv vw"
  shows "vault_inv vw'"
  using assms
proof cases
  case (transaction x c v w v' w')
  with assms(2) show ?thesis
    using vault_call_cases [of E T x c v w v' w'] vault_call_entered [of E T x c v w v' w']
    by (auto simp: vault_inv_def intro: vault_ok_frame touches_ok)
qed (use assms(2) in \<open>simp add: vault_inv_def\<close>)

lemma vault_run_inv: "vault_run E T this others vw vw' \<Longrightarrow> vault_inv vw \<Longrightarrow> vault_inv vw'"
  by (induction rule: rtranclp_induct) (auto intro: vault_step_inv)

lemma vault_step_evolves:
  assumes "vault_step E T this others vw vw'" "vault_inv vw" "i < v_nextStreamId (fst vw)"
  shows "evolves (v_streams (fst vw) i) (v_streams (fst vw') i) \<and> i < v_nextStreamId (fst vw')"
  using assms
proof cases
  case (transaction x c v w v' w')
  with assms(2) have "frame v v' \<or> (\<exists>j s'. touches v j s' v')"
    using vault_call_cases [of E T x c v w v' w'] by (auto simp: vault_inv_def)
  then show ?thesis
  proof (elim disjE exE)
    assume "frame v v'"
    with assms(3) transaction show ?thesis by (auto simp: frame_def)
  next
    fix j s' assume t: "touches v j s' v'"
    have ok: "vault_ok v" using assms(2) transaction by (simp add: vault_inv_def)
    have "evolves (v_streams v j) s'" using t by (simp add: touches_def)
    then have "evolves (v_streams v i) (v_streams v' i)"
      using touches_stream [OF t ok] assms(3) transaction by (cases "i = j") auto
    then show ?thesis
      using touches_stream(2) [OF t ok] assms(3) transaction by auto
  qed
qed (use assms(3) in simp)

lemma vault_run_evolves:
  "vault_run E T this others vw vw' \<Longrightarrow> vault_inv vw \<Longrightarrow> i < v_nextStreamId (fst vw) \<Longrightarrow>
     evolves (v_streams (fst vw) i) (v_streams (fst vw') i) \<and> i < v_nextStreamId (fst vw')"
proof (induction rule: rtranclp_induct)
  case (step y z)
  then show ?case
    using vault_step_evolves [of E T this others y z i] vault_run_inv [of E T this others vw y]
    by (auto intro: evolves_trans)
qed simp

end
