(* ===== verification/Solvency.thy ===== *)
theory Solvency
  imports VaultContract
begin

text \<open>
  The vault can always pay what it owes.  The locale \<open>erc20\<close> states what the vault relies on of the
  tokens and of the rest of the chain; the vault's solvency is proved inside it.  It is interpreted
  on the token contract \<^verbatim>\<open>MockERC20\<close> of \<^verbatim>\<open>test/StreamVault.t.sol\<close>, for every holder that
  has approved nobody, in the theory \<open>MockToken\<close>.
\<close>

section \<open>Liabilities\<close>

text \<open>What the vault holds of a token for a stream, and in all.\<close>

definition held :: "address \<Rightarrow> stream \<Rightarrow> nat" where
  "held tok s = (if s_token s = tok \<and> \<not> s_cancelled s
     then unat (s_funded s) - unat (s_withdrawn s) else 0)"

definition liability :: "vault \<Rightarrow> address \<Rightarrow> nat" where
  "liability v tok = (\<Sum>n\<leftarrow>[1..<unat (v_nextStreamId v)]. held tok (v_streams v (of_nat n)))"

lemma liability_sum:
  "liability v tok = (\<Sum>n\<in>{1..<unat (v_nextStreamId v)}. held tok (v_streams v (of_nat n)))"
  by (simp add: liability_def interv_sum_list_conv_sum_set_nat)

lemma held_unfunded: "s_funded s = 0 \<Longrightarrow> held tok s = 0"
  by (simp add: held_def)

lemma of_nat_id_less:
  assumes "n < unat (i :: uint256)"
  shows "of_nat n < i" "unat (of_nat n :: uint256) = n"
proof -
  have "unat i < 2 ^ LENGTH(256)" by (rule unsigned_less)
  with assms have "n < 2 ^ LENGTH(256)" by simp
  then show "unat (of_nat n :: uint256) = n"
    by (simp add: unat_of_nat take_bit_nat_eq_self)
  with assms show "of_nat n < i" by (simp add: word_less_nat_alt)
qed

lemma liability_frame:
  assumes "frame v v'" "vault_ok v"
  shows "liability v' tok = liability v tok"
proof -
  let ?h = "\<lambda>v n. held tok (v_streams v (of_nat n))"
  have le: "unat (v_nextStreamId v) \<le> unat (v_nextStreamId v')"
    using assms(1) by (simp add: frame_def word_le_nat_alt)
  have "?h v' n = 0" if "n \<in> {1..<unat (v_nextStreamId v')} - {1..<unat (v_nextStreamId v)}" for n
  proof -
    have "unat (of_nat n :: uint256) = n" using that of_nat_id_less(2) [of n "v_nextStreamId v'"] by simp
    with that have "v_nextStreamId v \<le> of_nat n" by (auto simp: word_le_nat_alt)
    then have "v_streams v (of_nat n) = empty_stream" using assms(2) by (simp add: vault_ok_def)
    then have "s_funded (v_streams v' (of_nat n)) = 0" using assms(1)
      unfolding frame_def by (metis empty_stream_simps(2))
    then show ?thesis by (rule held_unfunded)
  qed
  then have "liability v' tok = (\<Sum>n\<in>{1..<unat (v_nextStreamId v)}. ?h v' n)"
    unfolding liability_sum using le by (intro sum.mono_neutral_right) auto
  also have "\<dots> = (\<Sum>n\<in>{1..<unat (v_nextStreamId v)}. ?h v n)"
    by (rule sum.cong) (use assms(1) of_nat_id_less in \<open>auto simp: frame_def\<close>)
  finally show ?thesis by (simp add: liability_sum)
qed

lemma liability_set:
  assumes "i \<noteq> 0" "i < v_nextStreamId v"
  shows "liability (set_stream i s v) tok + held tok (v_streams v i) = liability v tok + held tok s"
proof -
  let ?A = "{1..<unat (v_nextStreamId v)}"
  let ?h = "\<lambda>u n. held tok (v_streams u (of_nat n))"
  have mem: "unat i \<in> ?A" using assms by (auto simp: word_less_nat_alt unat_gt_0 Suc_le_eq)
  have split: "(\<Sum>n\<in>?A. ?h u n) = held tok (v_streams u i) + (\<Sum>n\<in>?A - {unat i}. ?h u n)" for u
    using sum.remove [OF _ mem, of "?h u"] by simp
  have "(\<Sum>n\<in>?A - {unat i}. ?h (set_stream i s v) n) = (\<Sum>n\<in>?A - {unat i}. ?h v n)"
  proof (rule sum.cong)
    fix n assume "n \<in> ?A - {unat i}"
    then have "of_nat n \<noteq> i" using of_nat_id_less(2) [of n "v_nextStreamId v"] by auto
    then show "?h (set_stream i s v) n = ?h v n" by simp
  qed simp
  then show ?thesis
    using split [of v] split [of "set_stream i s v"] by (simp add: liability_sum)
qed

lemma liability_touches:
  assumes "touches v i s' v'" "vault_ok v"
  shows "liability v' tok + held tok (v_streams v i) = liability v tok + held tok s'"
proof -
  have i: "i \<noteq> 0" "i < v_nextStreamId v"
    using assms vault_ok_alloc by (auto simp: touches_def)
  have "liability v' tok = liability (set_stream i s' v) tok"
    using assms i by (intro liability_frame vault_ok_set_stream) (auto simp: touches_def)
  with liability_set [OF i] show ?thesis by simp
qed

section \<open>The token contract\<close>

text \<open>
  What a token holds for the vault changes only as the call says: \<open>bal w tok\<close> is the vault's
  balance of \<open>tok\<close>, \<open>sane\<close> an invariant of the tokens, \<open>others\<close> the steps the rest of the chain takes.
\<close>

locale erc20 =
  fixes T :: "'w tokens" and this :: address and others :: "'w \<Rightarrow> 'w \<Rightarrow> bool"
    and bal :: "'w \<Rightarrow> address \<Rightarrow> nat" and sane :: "'w \<Rightarrow> bool"
  assumes transfer_law:
    "sane w \<Longrightarrow> t_transfer T tok this to amt w = TokReturn True w' cs \<Longrightarrow>
       sane w' \<and> (\<forall>t. bal w t \<le> bal w' t + (if t = tok then unat amt else 0))"
  and transferFrom_law:
    "sane w \<Longrightarrow> from \<noteq> this \<Longrightarrow> t_transferFrom T tok this from this amt w = TokReturn True w' cs \<Longrightarrow>
       sane w' \<and> (\<forall>t. bal w t + (if t = tok then unat amt else 0) \<le> bal w' t)"
  and others_law: "sane w \<Longrightarrow> others w w' \<Longrightarrow> sane w' \<and> (\<forall>t. bal w t \<le> bal w' t)"
begin

definition solvent :: "vault \<times> 'w \<Rightarrow> bool" where
  "solvent vw \<longleftrightarrow> sane (snd vw) \<and> (\<forall>tok. liability (fst vw) tok \<le> bal (snd vw) tok)"

lemma fund_solvent:
  assumes "fund E T x i n (v, w) = Inr (v', w')" "vault_ok v" "solvent (v, w)"
    and "tx_this x = this" "tx_sender x \<noteq> this"
  shows "solvent (v', w')"
proof -
  obtain s' where s': "touches v i s' v'"
    "unat (s_funded s') = unat (s_funded (v_streams v i)) + unat n"
    "s_withdrawn s' = s_withdrawn (v_streams v i)" "\<not> s_cancelled s'"
    using fund_touches [OF assms(1,2)] by blast
  obtain cs where c:
    "t_transferFrom T (s_token (v_streams v i)) this (tx_sender x) this (ucast n) w
       = TokReturn True w' cs"
    by (rule fund_Inr [OF assms(1)]) (simp add: assms(4))
  have "sane w" using assms(3) by (simp add: solvent_def)
  note law = transferFrom_law [OF this assms(5) c, unfolded unat_ucast_128]
  have "sane w'" "bal w t + (if t = s_token (v_streams v i) then unat n else 0) \<le> bal w' t" for t
    using law by blast+
  moreover have "liability v' t \<le> liability v t + (if t = s_token (v_streams v i) then unat n else 0)"
    for t
    using liability_touches [OF s'(1) assms(2), of t] s'
    by (auto simp: held_def touches_def evolves_def split: if_splits)
  ultimately show ?thesis
    using assms(3) unfolding solvent_def fst_conv snd_conv by (meson add_le_mono1 order_trans)
qed

lemma withdraw_solvent:
  assumes "withdraw E T x i a d sig (v, w) = Inr (v', w')" "vault_ok v" "solvent (v, w)"
    and "tx_this x = this"
  shows "solvent (v', w')"
proof -
  let ?s = "v_streams v i"
  obtain s' where s': "touches v i s' v'" "s_funded s' = s_funded ?s" "\<not> s_cancelled s'"
    "unat (s_withdrawn s') = min (unat a) (unat (s_funded ?s))"
    using withdraw_touches [OF assms(1,2)] by blast
  obtain payout cs where p:
    "t_transfer T (s_token ?s) this (s_recipient ?s) payout w = TokReturn True w' cs"
    "unat payout = min (unat a) (unat (s_funded ?s)) - unat (s_withdrawn ?s)"
    "unat (s_withdrawn ?s) < min (unat a) (unat (s_funded ?s))"
    by (rule withdraw_Inr [OF assms(1)]) (simp add: assms(4))
  have law: "sane w'" "bal w t \<le> bal w' t + (if t = s_token ?s then unat payout else 0)" for t
    using transfer_law [OF _ p(1)] assms(3) by (auto simp: solvent_def)
  have "liability v' t + (if t = s_token ?s then unat payout else 0) \<le> liability v t" for t
    using liability_touches [OF s'(1) assms(2), of t] s' p
    by (auto simp: held_def touches_def evolves_def split: if_splits)
  then have l: "liability v' t + (if t = s_token ?s then unat payout else 0) \<le> bal w t" for t
    using assms(3) unfolding solvent_def fst_conv snd_conv by (meson order_trans)
  have "liability v' t \<le> bal w' t" for t
    using l [of t] law(2) [of t] by (cases "t = s_token ?s") simp_all
  then show ?thesis using law(1) by (simp add: solvent_def)
qed

lemma pay_law:
  assumes "vault_pay E T x m tok to amt (v, w) = Inr (v', w')" "v_entered v = 2" "sane w" "tx_this x = this"
  shows "sane w' \<and> (\<forall>t. bal w t \<le> bal w' t + (if t = tok then unat amt else 0))"
  using assms transfer_law [of w tok to amt w'] by (auto simp: pay_Inr split: if_splits)

lemma cancel_solvent:
  assumes "cancelStream E T x i a d sig (v, w) = Inr (v', w')" "vault_ok v" "solvent (v, w)"
    and "tx_this x = this" "tx_sender x \<noteq> 0"
  shows "solvent (v', w')"
proof -
  let ?s = "v_streams v i"
  obtain s' where s': "touches v i s' v'" "s_cancelled s'"
    using cancel_touches [OF assms(1,2,5)] by blast
  obtain paid refund wd v1 v2 w1 where p:
    "unat paid = settle_pay a ?s" "unat refund = settle_refund a ?s"
    "vault_pay E T x ''transfer failed'' (s_token ?s) (s_recipient ?s) paid
       (settled i wd (v\<lparr>v_entered := 2\<rparr>), w) = Inr (v1, w1)" "v_entered v1 = 2"
    "vault_pay E T x ''refund failed'' (s_token (v_streams v1 i)) (s_employer (v_streams v1 i)) refund
       (v1, w1) = Inr (v2, w')"
    by (rule cancelStream_Inr [OF assms(1,2)]) simp
  have live: "i < v_nextStreamId v"
    using s'(1) assms(2) vault_ok_alloc by (auto simp: touches_def)
  have tok: "s_token (v_streams v1 i) = s_token ?s"
    using pay_frame [OF p(3)] live by (auto simp: frame_def settled_def set_stream_def)
  have "s_withdrawn ?s \<le> s_funded ?s" using assms(2) by (simp add: vault_ok_def)
  from settle_split [OF this, of a] have sum:
    "liability v' t + (if t = s_token ?s then unat paid + unat refund else 0) = liability v t" for t
    using liability_touches [OF s'(1) assms(2), of t] s' p(1,2)
    by (auto simp: held_def touches_def evolves_def)
  have l1: "sane w1" "bal w t \<le> bal w1 t + (if t = s_token ?s then unat paid else 0)" for t
    using pay_law [OF p(3)] assms(3,4) by (auto simp: solvent_def)
  have l2: "sane w'" "bal w1 t \<le> bal w' t + (if t = s_token ?s then unat refund else 0)" for t
    using pay_law [OF p(5,4) l1(1) assms(4)] tok by auto
  have le: "liability v t \<le> bal w t" for t using assms(3) by (simp add: solvent_def)
  have "liability v' t \<le> bal w' t" for t
  proof (cases "t = s_token ?s")
    case True
    with sum [of t] l1(2) [of t] l2(2) [of t] le [of t] show ?thesis by simp
  next
    case False
    with sum [of t] l1(2) [of t] l2(2) [of t] le [of t] show ?thesis by simp
  qed
  then show ?thesis using l2(1) by (simp add: solvent_def)
qed

lemma step_solvent:
  assumes "vault_step E T this others vw vw'" "vault_inv vw" "solvent vw"
  shows "solvent vw'"
  using assms(1)
proof cases
  case (transaction x c v w v' w')
  have ok: "vault_ok v" and sol: "solvent (v, w)"
    using assms transaction by (auto simp: vault_inv_def)
  have framed: "solvent (u, w)" if "frame v u" for u
    using sol liability_frame [OF that ok] by (simp add: solvent_def)
  have "solvent (v', w')"
  proof (cases c)
    case (CFund i n)
    then show ?thesis using transaction fund_solvent [OF _ ok sol, of E x i n v' w'] by simp
  next
    case (CWithdraw i a d sig)
    then show ?thesis using transaction withdraw_solvent [OF _ ok sol, of E x i a d sig v' w'] by simp
  next
    case (CCancelStream i a d sig)
    then show ?thesis using transaction cancel_solvent [OF _ ok sol, of E x i a d sig v' w'] by simp
  next
    case (CSetTeeSigner a)
    then show ?thesis using transaction framed frame_setTeeSigner by (simp split: sum.splits)
  next
    case (CCreateStream r t co st enc)
    then show ?thesis using transaction framed frame_createStream by (auto split: sum.splits)
  next
    case (CRevealTerms i terms)
    then show ?thesis using transaction framed frame_revealTerms by (simp split: sum.splits)
  qed
  with transaction show ?thesis by simp
next
  case (elsewhere w w' v)
  then have "sane w'" "bal w t \<le> bal w' t" for t
    using others_law [of w w'] assms(3) by (auto simp: solvent_def)
  with elsewhere assms(3) show ?thesis
    unfolding solvent_def by (metis fst_conv order_trans snd_conv)
qed

lemma run_solvent:
  "vault_run E T this others vw vw' \<Longrightarrow> vault_inv vw \<Longrightarrow> solvent vw \<Longrightarrow> solvent vw'"
  by (induction rule: rtranclp_induct) (auto intro: step_solvent vault_run_inv)

lemma solvent_new: "sane w \<Longrightarrow> solvent (new_vault a b, w)"
  by (simp add: solvent_def new_vault_def liability_def)

lemma run_covered:
  assumes "vault_run E T this others (new_vault a b, w) (v', w')" "sane w"
  shows "liability v' tok \<le> bal w' tok"
  using run_solvent [OF assms(1) vault_inv_new solvent_new [OF assms(2)]]
  by (simp add: solvent_def)

end

end
