(* ===== verification/MockToken.thy ===== *)
theory MockToken
  imports Solvency
begin

text \<open>
  The token contract \<^verbatim>\<open>MockERC20\<close> of \<^verbatim>\<open>test/StreamVault.t.sol\<close>, with which the repository tests
  the vault.  The chain holds one such contract for each token address.  The locale \<open>erc20\<close> is
  interpreted on it, for any vault address: its allowances stay zero, as the vault approves nobody.
\<close>

record erc20_state =
  e_balanceOf :: "address \<Rightarrow> uint256"
  e_allowance :: "address \<Rightarrow> address \<Rightarrow> uint256"

definition mock_mint :: "address \<Rightarrow> uint256 \<Rightarrow> erc20_state \<Rightarrow> erc20_state option" where
  "mock_mint to amount m =
     (case checked_add (e_balanceOf m to) amount of None \<Rightarrow> None
      | Some b \<Rightarrow> Some (m\<lparr>e_balanceOf := (e_balanceOf m)(to := b)\<rparr>))"

definition mock_approve :: "address \<Rightarrow> address \<Rightarrow> uint256 \<Rightarrow> erc20_state \<Rightarrow> erc20_state option" where
  "mock_approve sender spender amount m =
     Some (m\<lparr>e_allowance := (e_allowance m)(sender := (e_allowance m sender)(spender := amount))\<rparr>)"

text \<open>Moving a balance: the subtraction first, then the addition, so that a transfer to oneself
  changes nothing.\<close>

definition mock_move :: "address \<Rightarrow> address \<Rightarrow> uint256 \<Rightarrow> erc20_state \<Rightarrow> erc20_state option" where
  "mock_move from to amount m =
     (case checked_sub (e_balanceOf m from) amount of None \<Rightarrow> None
      | Some b \<Rightarrow>
          (let bal = (e_balanceOf m)(from := b) in
           case checked_add (bal to) amount of None \<Rightarrow> None
           | Some c \<Rightarrow> Some (m\<lparr>e_balanceOf := bal(to := c)\<rparr>)))"

definition mock_transfer :: "address \<Rightarrow> address \<Rightarrow> uint256 \<Rightarrow> erc20_state \<Rightarrow> erc20_state option" where
  "mock_transfer sender to amount m =
     (if \<not> amount \<le> e_balanceOf m sender then None else mock_move sender to amount m)"

definition mock_transferFrom ::
    "address \<Rightarrow> address \<Rightarrow> address \<Rightarrow> uint256 \<Rightarrow> erc20_state \<Rightarrow> erc20_state option" where
  "mock_transferFrom sender from to amount m =
     (if \<not> amount \<le> e_balanceOf m from then None
      else if \<not> amount \<le> e_allowance m from sender then None
      else case checked_sub (e_allowance m from sender) amount of None \<Rightarrow> None
      | Some al \<Rightarrow>
          mock_move from to amount
            (m\<lparr>e_allowance := (e_allowance m)(from := (e_allowance m from)(sender := al))\<rparr>))"

type_synonym mock_world = "address \<Rightarrow> erc20_state"

definition mock_reply :: "address \<Rightarrow> mock_world \<Rightarrow> erc20_state option \<Rightarrow> mock_world tok_reply" where
  "mock_reply tok w r = (case r of None \<Rightarrow> TokRevert | Some m \<Rightarrow> TokReturn True (w(tok := m)) [])"

definition mock_tokens :: "mock_world tokens" where
  "mock_tokens =
     \<lparr>t_transfer = (\<lambda>tok caller to amount w. mock_reply tok w (mock_transfer caller to amount (w tok))),
      t_transferFrom = (\<lambda>tok caller from to amount w.
        mock_reply tok w (mock_transferFrom caller from to amount (w tok)))\<rparr>"

text \<open>A call anyone but the vault makes.\<close>

inductive mock_other :: "address \<Rightarrow> mock_world \<Rightarrow> mock_world \<Rightarrow> bool" for this :: address where
  mint: "mock_mint to amount (w tok) = Some m \<Longrightarrow> mock_other this w (w(tok := m))"
| approve: "c \<noteq> this \<Longrightarrow> mock_approve c s amount (w tok) = Some m \<Longrightarrow> mock_other this w (w(tok := m))"
| transfer: "c \<noteq> this \<Longrightarrow> mock_transfer c to amount (w tok) = Some m \<Longrightarrow> mock_other this w (w(tok := m))"
| transferFrom: "c \<noteq> this \<Longrightarrow> mock_transferFrom c f to amount (w tok) = Some m
    \<Longrightarrow> mock_other this w (w(tok := m))"

definition mock_wf :: "address \<Rightarrow> mock_world \<Rightarrow> bool" where
  "mock_wf this w \<longleftrightarrow> (\<forall>tok c. e_allowance (w tok) this c = 0)"

definition mock_bal :: "address \<Rightarrow> mock_world \<Rightarrow> address \<Rightarrow> nat" where
  "mock_bal this w tok = unat (e_balanceOf (w tok) this)"

lemmas mock_defs = mock_mint_def mock_approve_def mock_transfer_def mock_transferFrom_def Let_def

lemma mock_move_bal:
  assumes "mock_move from to amt m = Some m'"
  shows "e_allowance m' = e_allowance m \<and>
    (from \<noteq> h \<longrightarrow> unat (e_balanceOf m h) + (if to = h then unat amt else 0)
       = unat (e_balanceOf m' h)) \<and>
    unat (e_balanceOf m h) \<le> unat (e_balanceOf m' h) + (if from = h then unat amt else 0)"
  using assms by (auto simp: mock_move_def Let_def split: option.splits
      dest!: checked_sub_unat checked_add_unat)

lemma mock_mint_bal:
  assumes "mock_mint to amt m = Some m'"
  shows "e_allowance m' = e_allowance m \<and> unat (e_balanceOf m h) \<le> unat (e_balanceOf m' h)"
  using assms by (auto simp: mock_mint_def split: option.splits dest!: checked_add_unat)

lemma mock_transferFrom_move:
  assumes "mock_transferFrom c from to amt m = Some m'" "\<forall>c. e_allowance m h c = 0"
  shows "\<exists>m1. mock_move from to amt m1 = Some m' \<and> e_balanceOf m1 = e_balanceOf m \<and>
    (\<forall>c. e_allowance m1 h c = 0) \<and> (from = h \<longrightarrow> amt = 0)"
proof -
  let ?al = "e_allowance m from c - amt"
  let ?m1 = "m\<lparr>e_allowance := (e_allowance m)(from := (e_allowance m from)(c := ?al))\<rparr>"
  have "mock_move from to amt ?m1 = Some m'" "amt \<le> e_allowance m from c"
    using assms(1) by (auto simp: mock_transferFrom_def checked_sub_def split: if_splits)
  moreover from this(2) assms(2) have "from = h \<longrightarrow> amt = 0" by (metis order_antisym word_zero_le)
  ultimately show ?thesis using assms(2) by (intro exI [of _ ?m1]) auto
qed

lemma mock_transferFrom_vault:
  assumes "mock_transferFrom c from to amt m = Some m'" "\<forall>c. e_allowance m h c = 0"
  shows "(\<forall>c. e_allowance m' h c = 0) \<and>
    (from \<noteq> h \<longrightarrow> unat (e_balanceOf m h) + (if to = h then unat amt else 0)
       = unat (e_balanceOf m' h)) \<and>
    unat (e_balanceOf m h) \<le> unat (e_balanceOf m' h)"
proof -
  obtain m1 where m1: "mock_move from to amt m1 = Some m'" "e_balanceOf m1 = e_balanceOf m"
    "\<forall>c. e_allowance m1 h c = 0" "from = h \<longrightarrow> amt = 0"
    using mock_transferFrom_move [OF assms] by blast
  from mock_move_bal [OF m1(1), of h] m1(2,3,4) show ?thesis by (auto split: if_splits)
qed

interpretation mock: erc20 mock_tokens this "mock_other this" "mock_bal this" "mock_wf this"
  for this :: address
proof
  fix w tok to amt w' cs
  assume wf: "mock_wf this w" and "t_transfer mock_tokens tok this to amt w = TokReturn True w' cs"
  then obtain m where "mock_move this to amt (w tok) = Some m" "w' = w(tok := m)"
    by (auto simp: mock_tokens_def mock_reply_def mock_transfer_def split: option.splits if_splits)
  with wf mock_move_bal [of this to amt "w tok" m this]
  show "mock_wf this w' \<and> (\<forall>t. mock_bal this w t \<le> mock_bal this w' t + (if t = tok then unat amt else 0))"
    by (auto simp: mock_wf_def mock_bal_def)
next
  fix w "from" tok amt w' cs
  assume wf: "mock_wf this w" and "from \<noteq> this"
    and "t_transferFrom mock_tokens tok this from this amt w = TokReturn True w' cs"
  then obtain m where "mock_transferFrom this from this amt (w tok) = Some m" "w' = w(tok := m)"
    by (auto simp: mock_tokens_def mock_reply_def split: option.splits)
  with wf \<open>from \<noteq> this\<close> mock_transferFrom_vault [of this "from" this amt "w tok" m this]
  show "mock_wf this w' \<and> (\<forall>t. mock_bal this w t + (if t = tok then unat amt else 0) \<le> mock_bal this w' t)"
    by (auto simp: mock_wf_def mock_bal_def)
next
  fix w w' assume wf: "mock_wf this w" and "mock_other this w w'"
  from this(2,1) show "mock_wf this w' \<and> (\<forall>t. mock_bal this w t \<le> mock_bal this w' t)"
  proof induction
    case (mint to amount w tok m)
    then show ?case using mock_mint_bal [of to amount "w tok" m this]
      by (auto simp: mock_wf_def mock_bal_def)
  next
    case (approve c s amount w tok m)
    then show ?case by (auto simp: mock_approve_def mock_wf_def mock_bal_def)
  next
    case (transfer c to amount w tok m)
    then show ?case using mock_move_bal [of c to amount "w tok" m this]
      by (auto simp: mock_wf_def mock_bal_def mock_transfer_def split: if_splits)
  next
    case (transferFrom c f to amount w tok m)
    then show ?case using mock_transferFrom_vault [of c f to amount "w tok" m this]
      by (auto simp: mock_wf_def mock_bal_def)
  qed
qed

end
