(* ===== verification/VaultTheorems.thy ===== *)
theory VaultTheorems
  imports MockToken
begin

text \<open>
  What the vault promises to employers and recipients, over every token and every schedule of calls.
\<close>

section \<open>A concrete deployment\<close>

text \<open>
  Instances on which the theorems are applied: the recovered signer is
  always account 5, the token contract at address 7 is a \<open>MockToken\<close> that gave account 1 a million.
\<close>

definition demo_tx :: "address \<Rightarrow> uint256 \<Rightarrow> txenv" where
  "demo_tx a t = \<lparr>tx_sender = a, tx_time = t, tx_chain = 114, tx_this = 9\<rparr>"

definition demo_world :: mock_world where
  "demo_world = (\<lambda>_. \<lparr>e_balanceOf = (\<lambda>_. 0)(1 := 1000000),
     e_allowance = (\<lambda>a c. if a = 1 \<and> c = 9 then 1000000 else 0)\<rparr>)"

definition demo_sig :: bytes where
  "demo_sig = replicate 64 0 @ [27]"

definition demo_stream :: stream where
  "demo_stream = \<lparr>s_employer = 1, s_recipient = 2, s_token = 7, s_commitment = 99, s_funded = 1000,
     s_withdrawn = 300, s_startTime = 0, s_cancelled = False\<rparr>"

definition demo_vault :: vault where
  "demo_vault = \<lparr>v_owner = 1, v_teeSigner = 5, v_nextStreamId = 2,
     v_streams = (\<lambda>_. empty_stream)(1 := demo_stream), v_entered = 1, v_events = []\<rparr>"

definition rich_world :: mock_world where
  "rich_world = (\<lambda>_. \<lparr>e_balanceOf = (\<lambda>_. 0)(9 := 1000), e_allowance = (\<lambda>_ _. 0)\<rparr>)"

lemmas demo_defs = demo_evm_def demo_tx_def demo_world_def demo_sig_def demo_stream_def
  demo_vault_def rich_world_def

lemmas vault_eval = withdraw_def withdraw_body_def nonReentrant_def cancelStream_def
  cancelStream_body_def pay_def fund_def fund_body_def after_call_def createStream_def
  checked_add_def checked_sub_def vault_upd_defs mock_tokens_def mock_reply_def mock_defs
  mock_move_def recoverEthSigned_def

lemma demo_vault_ok: "vault_ok demo_vault"
  by (auto simp: vault_ok_def demo_vault_def demo_stream_def word_le_nat_alt)

lemma demo_withdraw:
  "\<exists>v' w'. withdraw demo_evm mock_tokens (demo_tx 2 50) 1 400 60 demo_sig (demo_vault, rich_world)
     = Inr (v', w')"
  by (simp add: vault_eval demo_defs)

lemma demo_cancel:
  "\<exists>v' w'. cancelStream demo_evm mock_tokens (demo_tx 1 50) 1 400 60 demo_sig (demo_vault, rich_world)
     = Inr (v', w')"
  by (simp add: vault_eval demo_defs)

section \<open>Withdrawing\<close>

lemma Withdrawn_event:
  "withdraw E T x i a d sig (v, w) = Inr (v', w') \<Longrightarrow>
     (\<exists>r p. last (v_events v') = Withdrawn i r p)"
  by (erule withdraw_Inr) (auto simp: Let_def)

text \<open>C1: a successful withdrawal was signed by the TEE for this stream, its commitment, this vault
  and this chain, and is in time; it pays the recipient exactly what the authorized cumulative amount,
  capped by the funds, exceeds the amount already withdrawn by, records that cap as withdrawn, and
  leaves every other existing stream alone.\<close>

theorem withdraw_pays_delta:
  assumes "vault_ok v" "withdraw E T x i a d sig (v, w) = Inr (v', w')"
  shows "let s = v_streams v i; s' = v_streams v' i in
     tee_signed E (WITHDRAW_TAG E) x v i a d sig \<and> tx_time x \<le> d \<and> \<not> s_cancelled s \<and>
     unat (s_withdrawn s') = min (unat a) (unat (s_funded s)) \<and> s_withdrawn s < s_withdrawn s' \<and>
     s' = s\<lparr>s_withdrawn := s_withdrawn s'\<rparr> \<and>
     (\<exists>payout cs. unat payout = unat (s_withdrawn s') - unat (s_withdrawn s) \<and>
        t_transfer T (s_token s) (tx_this x) (s_recipient s) payout w = TokReturn True w' cs) \<and>
     (\<forall>j < v_nextStreamId v. j \<noteq> i \<longrightarrow> v_streams v' j = v_streams v j)"
proof -
  obtain s' where s': "touches v i s' v'" "s' = (v_streams v i)\<lparr>s_withdrawn := s_withdrawn s'\<rparr>"
    "unat (s_withdrawn s') = min (unat a) (unat (s_funded (v_streams v i)))"
    using withdraw_touches [OF assms(2,1)] by blast
  note t = touches_stream [OF s'(1) assms(1)]
  show ?thesis
    by (rule withdraw_Inr [OF assms(2)]) (use s' t in \<open>auto simp: word_less_nat_alt Let_def\<close>)
qed

theorem withdraw_pays_delta_witness:
  "\<exists>v' w'. withdraw demo_evm mock_tokens (demo_tx 2 50) 1 400 60 demo_sig (demo_vault, rich_world)
      = Inr (v', w') \<and> unat (s_withdrawn (v_streams v' 1)) = 400"
proof -
  obtain v' w' where "withdraw demo_evm mock_tokens (demo_tx 2 50) 1 400 60 demo_sig
      (demo_vault, rich_world) = Inr (v', w')"
    using demo_withdraw by blast
  with withdraw_pays_delta [OF demo_vault_ok this] show ?thesis
    by (auto simp: Let_def demo_vault_def demo_stream_def)
qed

text \<open>C2: an authorization cannot be used twice.  After a withdrawal, in every later state of the
  vault, an authorization for no more than what was then recorded as withdrawn is refused; when it is
  otherwise valid, the refusal is \<^verbatim>\<open>nothing accrued\<close>.\<close>

theorem withdraw_no_replay:
  assumes "vault_inv (v, w)" "withdraw E T x i a d sig (v, w) = Inr (v', w')"
    and "vault_run E T this others (v', w') (v2, w2)"
    and "unat b \<le> min (unat a) (unat (s_funded (v_streams v i)))"
  shows "\<exists>e. withdraw E T y i b d' sig' (v2, w2) = Inl e \<and>
     (\<not> s_cancelled (v_streams v2 i) \<and> tx_time y \<le> d' \<and>
      tee_signed E (WITHDRAW_TAG E) y v2 i b d' sig' \<longrightarrow> e = Revert ''nothing accrued'')"
proof -
  have ok: "vault_ok v" and "v_entered v' = 1"
    using assms(1,2) by (auto simp: vault_inv_def withdraw_def dest: guarded_entered)
  obtain s' where s': "touches v i s' v'"
    "unat (s_withdrawn s') = min (unat a) (unat (s_funded (v_streams v i)))"
    using withdraw_touches [OF assms(2) ok] by blast
  have inv: "vault_inv (v', w')"
    using touches_ok [OF s'(1) ok] \<open>v_entered v' = 1\<close> by (simp add: vault_inv_def)
  have "i < v_nextStreamId v'"
    using touches_stream(2) [OF s'(1) ok] s'(1) vault_ok_alloc [OF ok, of i]
    by (auto simp: touches_def)
  with vault_run_evolves [OF assms(3) inv, of i] vault_run_inv [OF assms(3) inv]
  have ev: "evolves s' (v_streams v2 i)" "vault_inv (v2, w2)"
    using touches_stream(1) [OF s'(1) ok] by auto
  have "unat (s_withdrawn s') \<le> unat (s_withdrawn (v_streams v2 i))"
    using ev(1) by (simp add: evolves_def word_le_nat_alt)
  with s'(2) assms(4) have le: "unat b \<le> unat (s_withdrawn (v_streams v2 i))" by linarith
  have emp: "s_employer (v_streams v2 i) \<noteq> 0"
    using ev(1) s'(1) by (auto simp: evolves_def touches_def)
  have "\<not> ucast (s_withdrawn (v_streams v2 i)) < cap_of b (v_streams v2 i)"
    using le by (simp add: word_less_nat_alt unat_cap)
  then show ?thesis
    using ev(2) emp unfolding withdraw_def nonReentrant_def withdraw_body_def Let_def
      cap_of_def [symmetric]
    by (auto simp: vault_inv_def tee_signed_def split: sum.splits)
qed

theorem withdraw_no_replay_witness:
  "\<exists>v' w' e. withdraw demo_evm mock_tokens (demo_tx 2 50) 1 400 60 demo_sig (demo_vault, rich_world)
      = Inr (v', w') \<and>
    withdraw demo_evm mock_tokens (demo_tx 2 55) 1 400 60 demo_sig (v', w') = Inl e"
proof -
  obtain v' w' where "withdraw demo_evm mock_tokens (demo_tx 2 50) 1 400 60 demo_sig
      (demo_vault, rich_world) = Inr (v', w')"
    using demo_withdraw by blast
  moreover have "vault_inv (demo_vault, rich_world)"
    using demo_vault_ok by (simp add: vault_inv_def demo_vault_def)
  ultimately show ?thesis
    using withdraw_no_replay [of demo_vault rich_world demo_evm mock_tokens "demo_tx 2 50" 1 400 60
        demo_sig v' w' 9 "(=)" v' w' 400 "demo_tx 2 55" 60 demo_sig]
    by (auto simp: demo_vault_def demo_stream_def)
qed

section \<open>Cancelling\<close>

text \<open>The token moved \<open>amt\<close> from the vault to \<open>to\<close>; nothing was called for a zero amount.\<close>

definition transferred ::
    "'w tokens \<Rightarrow> address \<Rightarrow> address \<Rightarrow> address \<Rightarrow> uint256 \<Rightarrow> 'w \<Rightarrow> 'w \<Rightarrow> bool" where
  "transferred T tok this to amt w w' \<longleftrightarrow>
     (if amt = 0 then w' = w else \<exists>cs. t_transfer T tok this to amt w = TokReturn True w' cs)"

lemma pay_transferred:
  "vault_pay E T x m tok to amt (v, w) = Inr (v', w') \<Longrightarrow> v_entered v = 2 \<Longrightarrow>
     transferred T tok (tx_this x) to amt w w'"
  by (auto simp: pay_Inr transferred_def split: if_splits)

text \<open>C3: a successful cancellation was asked for by the employer and signed by the TEE as a
  settlement; the recipient is paid what the final amount, capped by the funds, exceeds the amount
  already withdrawn by, the employer is refunded the rest, and the two together are exactly what the
  stream still held.  No other existing stream changes.\<close>

theorem cancel_settles:
  assumes "vault_ok v" "tx_sender x \<noteq> 0" "cancelStream E T x i a d sig (v, w) = Inr (v', w')"
  shows "let s = v_streams v i; s' = v_streams v' i in
     tx_sender x = s_employer s \<and> tee_signed E (SETTLE_TAG E) x v i a d sig \<and> tx_time x \<le> d \<and>
     \<not> s_cancelled s \<and> s' = s\<lparr>s_withdrawn := s_withdrawn s', s_cancelled := True\<rparr> \<and>
     (\<exists>paid refund w1.
        unat paid = min (unat a) (unat (s_funded s)) - unat (s_withdrawn s) \<and>
        unat (s_withdrawn s') = unat (s_withdrawn s) + unat paid \<and>
        unat paid + unat refund = unat (s_funded s) - unat (s_withdrawn s) \<and>
        transferred T (s_token s) (tx_this x) (s_recipient s) paid w w1 \<and>
        transferred T (s_token s) (tx_this x) (s_employer s) refund w1 w') \<and>
     (\<forall>j < v_nextStreamId v. j \<noteq> i \<longrightarrow> v_streams v' j = v_streams v j)"
  using assms(3,1)
proof (rule cancelStream_Inr)
  fix s paid refund wd v1 v2 w1
  assume a: "s = v_streams v i" "tx_sender x = s_employer s" "\<not> s_cancelled s" "tx_time x \<le> d"
    "tee_signed E (SETTLE_TAG E) x v i a d sig"
    "unat paid = settle_pay a s" "unat refund = settle_refund a s"
    "vault_pay E T x ''transfer failed'' (s_token s) (s_recipient s) paid
       (settled i wd (v\<lparr>v_entered := 2\<rparr>), w) = Inr (v1, w1)" "v_entered v1 = 2"
    "vault_pay E T x ''refund failed'' (s_token (v_streams v1 i)) (s_employer (v_streams v1 i)) refund
       (v1, w1) = Inr (v2, w')"
  obtain s' where s': "touches v i s' v'" "s' = s\<lparr>s_withdrawn := s_withdrawn s', s_cancelled := True\<rparr>"
    "unat (s_withdrawn s') = max (min (unat a) (unat (s_funded s))) (unat (s_withdrawn s))"
    using cancel_touches [OF assms(3,1,2)] a(1) by blast
  note t = touches_stream [OF s'(1) assms(1)]
  have live: "i < v_nextStreamId v"
    using s'(1) assms(1) vault_ok_alloc by (auto simp: touches_def)
  have same: "s_token (v_streams v1 i) = s_token s" "s_employer (v_streams v1 i) = s_employer s"
    using pay_frame [OF a(8)] live a(1) by (auto simp: frame_def settled_def set_stream_def)
  have "s_withdrawn s \<le> s_funded s" using assms(1) a(1) by (simp add: vault_ok_def)
  note sum = settle_split [OF this, of a]
  have "unat (s_withdrawn s') = unat (s_withdrawn s) + unat paid"
    using s'(3) a(6) by (simp add: settle_pay_def)
  then have "\<exists>paid refund w1.
        unat paid = min (unat a) (unat (s_funded s)) - unat (s_withdrawn s) \<and>
        unat (s_withdrawn s') = unat (s_withdrawn s) + unat paid \<and>
        unat paid + unat refund = unat (s_funded s) - unat (s_withdrawn s) \<and>
        transferred T (s_token s) (tx_this x) (s_recipient s) paid w w1 \<and>
        transferred T (s_token s) (tx_this x) (s_employer s) refund w1 w'"
    using a(6,7) sum pay_transferred [OF a(8)] pay_transferred [OF a(10,9)] same
    by (intro exI [of _ paid] exI [of _ refund] exI [of _ w1]) (auto simp: settle_pay_def)
  with a(1-5) s'(2) t show ?thesis by (simp add: Let_def)
qed

theorem cancel_settles_witness:
  "\<exists>v' w'. cancelStream demo_evm mock_tokens (demo_tx 1 50) 1 400 60 demo_sig (demo_vault, rich_world)
      = Inr (v', w') \<and> s_cancelled (v_streams v' 1)"
proof -
  obtain v' w' where c: "cancelStream demo_evm mock_tokens (demo_tx 1 50) 1 400 60 demo_sig
      (demo_vault, rich_world) = Inr (v', w')"
    using demo_cancel by blast
  have "tx_sender (demo_tx 1 50) \<noteq> 0" by (simp add: demo_tx_def)
  from cancel_settles [OF demo_vault_ok this c] c show ?thesis
    unfolding Let_def by (metis stream.select_convs(8) stream.surjective stream.update_convs(8))
qed

lemma vault_no_panic_parts:
  assumes "vault_ok v"
  shows "withdraw E T x i a d sig (v, w) \<noteq> Inl Panic"
    and "cancelStream E T x i a d sig (v, w) \<noteq> Inl Panic"
    and "fund E T x i n (v, w) = Inl Panic \<longrightarrow> 2 ^ 128 \<le> unat (s_funded (v_streams v i)) + unat n"
proof -
  let ?s = "v_streams v i"
  have no: "after_call R x m r u \<noteq> Inl Panic" for R m r and u :: vault
    by (cases r) (simp_all add: after_call_def)
  have nopay: "vault_pay E T x m tok to amt (u, w1) \<noteq> Inl Panic" for m tok to amt u w1
    by (simp add: pay_def no)
  have nosig: "recoverEthSigned E dg sg \<noteq> Inl Panic" for dg sg
    by (simp add: recoverEthSigned_def Let_def)
  show "withdraw E T x i a d sig (v, w) \<noteq> Inl Panic"
    using no nosig unfolding withdraw_def nonReentrant_def withdraw_body_def
    by (auto simp: Let_def checked_sub_Some split: sum.splits option.splits)
  have "s_withdrawn ?s \<le> s_funded ?s" using assms by (simp add: vault_ok_def)
  then obtain left refund where r:
    "checked_sub (s_funded ?s) (s_withdrawn ?s) = Some left"
    "checked_sub (ucast left) (owed_of a ?s) = Some refund"
    by (rule settle_no_panic)
  show "cancelStream E T x i a d sig (v, w) \<noteq> Inl Panic"
    using nosig nopay r unfolding cancelStream_def nonReentrant_def cancelStream_body_def Let_def
      cap_of_def [symmetric] owed_of_def [symmetric]
    by (auto split: sum.splits)
  show "fund E T x i n (v, w) = Inl Panic \<longrightarrow> 2 ^ 128 \<le> unat (s_funded ?s) + unat n"
    using no unfolding fund_def nonReentrant_def fund_body_def
    by (auto simp: Let_def checked_add_None split: sum.splits option.splits)
qed

text \<open>C4: the checked arithmetic of the vault never panics in a withdrawal or a cancellation, and in
  a funding only when the new total does not fit 128 bits.\<close>

theorem vault_no_panic:
  assumes "vault_ok v"
  shows "(withdraw E T x i a d sig (v, w) \<noteq> Inl Panic) \<and>
    (cancelStream E T x i a d sig (v, w) \<noteq> Inl Panic) \<and>
    (fund E T x i n (v, w) = Inl Panic \<longrightarrow> 2 ^ 128 \<le> unat (s_funded (v_streams v i)) + unat n)"
  by (intro vault_no_panic_parts [OF assms] conjI)

theorem vault_no_panic_witness:
  "withdraw demo_evm mock_tokens (demo_tx 2 50) 1 400 60 demo_sig (demo_vault, rich_world) \<noteq> Inl Panic"
  by (rule conjunct1 [OF vault_no_panic [OF demo_vault_ok]])

section \<open>The life of a stream\<close>

text \<open>C5: over every run of the vault, an existing stream keeps its parties, token, commitment and
  start, its funded and withdrawn amounts never decrease, the second never exceeds the first, and once
  it is cancelled nothing about it changes any more.\<close>

theorem stream_life:
  assumes "vault_inv (v, w)" "vault_run E T this others (v, w) (v', w')" "i < v_nextStreamId v"
  shows "let s = v_streams v i; s' = v_streams v' i in
     s_employer s' = s_employer s \<and> s_recipient s' = s_recipient s \<and> s_token s' = s_token s \<and>
     s_commitment s' = s_commitment s \<and> s_startTime s' = s_startTime s \<and>
     s_funded s \<le> s_funded s' \<and> s_withdrawn s \<le> s_withdrawn s' \<and>
     s_withdrawn s' \<le> s_funded s' \<and> (s_cancelled s \<longrightarrow> s' = s) \<and> vault_inv (v', w')"
  using vault_run_evolves [OF assms(2,1), of i] vault_run_inv [OF assms(2,1)] assms(3)
  by (auto simp: Let_def evolves_def vault_inv_def vault_ok_def)

lemma demo_step:
  assumes "withdraw demo_evm mock_tokens (demo_tx 2 50) 1 400 60 demo_sig (v, w) = Inr (v', w')"
  shows "vault_run demo_evm mock_tokens 9 (mock_other 9) (v, w) (v', w')"
proof -
  have "vault_call demo_evm mock_tokens (demo_tx 2 50) (CWithdraw 1 400 60 demo_sig) (v, w)
      = Inr (v', w')" using assms by simp
  then have "vault_step demo_evm mock_tokens 9 (mock_other 9) (v, w) (v', w')"
    by (rule vault_step.transaction [rotated 3]) (simp_all add: demo_tx_def)
  then show ?thesis by blast
qed

theorem stream_life_witness:
  "\<exists>v' w'. withdraw demo_evm mock_tokens (demo_tx 2 50) 1 400 60 demo_sig (demo_vault, rich_world)
      = Inr (v', w') \<and> s_funded (v_streams v' 1) \<ge> 1000 \<and> s_recipient (v_streams v' 1) = 2"
proof -
  obtain v' w' where c: "withdraw demo_evm mock_tokens (demo_tx 2 50) 1 400 60 demo_sig
      (demo_vault, rich_world) = Inr (v', w')"
    using demo_withdraw by blast
  have "vault_inv (demo_vault, rich_world)"
    using demo_vault_ok by (simp add: vault_inv_def demo_vault_def)
  from stream_life [OF this demo_step [OF c], of 1] c show ?thesis
    by (auto simp: Let_def demo_vault_def demo_stream_def)
qed

text \<open>C6: solvency.  Deployed against tokens that keep the \<open>erc20\<close> contract, the vault owns at every
  moment at least what its live streams have been funded with and have not paid out, for each token.\<close>

theorem vault_solvent:
  assumes "erc20 T this others bal sane" "sane w"
    and "vault_run E T this others (new_vault owner signer, w) (v', w')"
  shows "(\<Sum>n\<leftarrow>[1..<unat (v_nextStreamId v')].
      if s_token (v_streams v' (of_nat n)) = tok \<and> \<not> s_cancelled (v_streams v' (of_nat n))
      then unat (s_funded (v_streams v' (of_nat n))) - unat (s_withdrawn (v_streams v' (of_nat n)))
      else 0) \<le> bal w' tok"
  using erc20.run_covered [OF assms(1,3,2)] by (simp add: liability_def held_def)

lemma demo_fund_run:
  "\<exists>v' w'. vault_run demo_evm mock_tokens 9 (mock_other 9) (new_vault 1 5, demo_world) (v', w') \<and>
     s_funded (v_streams v' 1) = 1000 \<and> s_token (v_streams v' 1) = 7 \<and> v_nextStreamId v' = 2 \<and>
     s_withdrawn (v_streams v' 1) = 0 \<and> \<not> s_cancelled (v_streams v' 1)"
proof -
  have "\<exists>v1. createStream (demo_tx 1 0) 2 7 99 0 [] (new_vault 1 5) = Inr (1, v1) \<and>
    (\<exists>v' w'. fund demo_evm mock_tokens (demo_tx 1 0) 1 1000 (v1, demo_world) = Inr (v', w') \<and>
     s_funded (v_streams v' 1) = 1000 \<and> s_token (v_streams v' 1) = 7 \<and> v_nextStreamId v' = 2 \<and>
     s_withdrawn (v_streams v' 1) = 0 \<and> \<not> s_cancelled (v_streams v' 1))"
    by (simp add: vault_eval new_vault_def demo_defs)
  then obtain v1 v' w' where c: "createStream (demo_tx 1 0) 2 7 99 0 [] (new_vault 1 5) = Inr (1, v1)"
    and f: "fund demo_evm mock_tokens (demo_tx 1 0) 1 1000 (v1, demo_world) = Inr (v', w')"
    and r: "s_funded (v_streams v' 1) = 1000 \<and> s_token (v_streams v' 1) = 7 \<and> v_nextStreamId v' = 2 \<and>
     s_withdrawn (v_streams v' 1) = 0 \<and> \<not> s_cancelled (v_streams v' 1)" by blast
  have tx: "tx_this (demo_tx 1 0) = 9" "tx_sender (demo_tx 1 0) \<noteq> 0" "tx_sender (demo_tx 1 0) \<noteq> 9"
    by (simp_all add: demo_tx_def)
  have "vault_call demo_evm mock_tokens (demo_tx 1 0) (CCreateStream 2 7 99 0 []) (new_vault 1 5, demo_world)
      = Inr (v1, demo_world)" using c by simp
  note s1 = vault_step.transaction [OF tx this, of "mock_other 9"]
  have "vault_call demo_evm mock_tokens (demo_tx 1 0) (CFund 1 1000) (v1, demo_world) = Inr (v', w')"
    using f by simp
  note s2 = vault_step.transaction [OF tx this, of "mock_other 9"]
  from s1 s2 have "vault_run demo_evm mock_tokens 9 (mock_other 9) (new_vault 1 5, demo_world) (v', w')"
    by (meson converse_rtranclp_into_rtranclp rtranclp.rtrancl_refl)
  with r show ?thesis by blast
qed

lemma upt_1_2: "[Suc 0..<2] = [1]"
  by (simp add: numeral_2_eq_2)

theorem vault_solvent_witness:
  "\<exists>v' w'. vault_run demo_evm mock_tokens 9 (mock_other 9) (new_vault 1 5, demo_world) (v', w') \<and>
     1000 \<le> mock_bal 9 w' 7"
proof -
  obtain v' w' where r: "vault_run demo_evm mock_tokens 9 (mock_other 9) (new_vault 1 5, demo_world) (v', w')"
    "s_funded (v_streams v' 1) = 1000" "s_token (v_streams v' 1) = 7" "v_nextStreamId v' = 2"
    "s_withdrawn (v_streams v' 1) = 0" "\<not> s_cancelled (v_streams v' 1)"
    using demo_fund_run by blast
  have "mock_wf 9 demo_world" by (simp add: mock_wf_def demo_world_def)
  from vault_solvent [OF mock.erc20_axioms this r(1), of 7] r(2-) have "1000 \<le> mock_bal 9 w' 7"
    by (simp add: upt_1_2)
  with r(1) show ?thesis by blast
qed

section \<open>Reentrancy\<close>

text \<open>The calls with the \<^verbatim>\<open>nonReentrant\<close> modifier, and the same tokens without the calls to those that
  they make while they are called.\<close>

definition guarded :: "vcall \<Rightarrow> bool" where
  "guarded c = (case c of CFund _ _ \<Rightarrow> True | CWithdraw _ _ _ _ \<Rightarrow> True | CCancelStream _ _ _ _ \<Rightarrow> True
     | _ \<Rightarrow> False)"

definition tame_reply :: "'w tok_reply \<Rightarrow> 'w tok_reply" where
  "tame_reply r = (case r of TokRevert \<Rightarrow> TokRevert
     | TokReturn ok w cs \<Rightarrow> TokReturn ok w (filter (\<lambda>ac. \<not> guarded (snd ac)) cs))"

definition tame :: "'w tokens \<Rightarrow> 'w tokens" where
  "tame T = \<lparr>t_transfer = (\<lambda>tok caller to amt w. tame_reply (t_transfer T tok caller to amt w)),
     t_transferFrom = (\<lambda>tok caller src to amt w. tame_reply (t_transferFrom T tok caller src to amt w))\<rparr>"

lemma tame_sel [simp]:
  "t_transfer (tame T) tok caller to amt w = tame_reply (t_transfer T tok caller to amt w)"
  "t_transferFrom (tame T) tok caller src to amt w = tame_reply (t_transferFrom T tok caller src to amt w)"
  by (simp_all add: tame_def)

lemma open_effects_tame:
  "open_effects E x (filter (\<lambda>ac. \<not> guarded (snd ac)) cs) v = open_effects E x cs v"
proof (induction cs arbitrary: v)
  case (Cons ac cs)
  obtain a c where "ac = (a, c)" by (cases ac)
  with Cons show ?case by (cases c) (simp_all add: guarded_def)
qed simp

lemma after_call_tame:
  "v_entered v \<noteq> 1 \<Longrightarrow> after_call (reentered reentry_depth E (tame T)) x m (tame_reply r) v
     = after_call (reentered reentry_depth E T) x m r v"
  by (cases r) (simp_all add: after_call_closed tame_reply_def open_effects_tame)

lemma pay_tame:
  assumes "v_entered v = 2" "\<And>v' w'. v_entered v' = 2 \<Longrightarrow> f (v', w') = g (v', w')"
  shows "(case vault_pay E (tame T) x m tok to amt (v, w) of Inl e \<Rightarrow> Inl e | Inr p \<Rightarrow> f p)
    = (case vault_pay E T x m tok to amt (v, w) of Inl e \<Rightarrow> Inl e | Inr p \<Rightarrow> g p)"
proof -
  have eq: "vault_pay E (tame T) x m tok to amt (v, w) = vault_pay E T x m tok to amt (v, w)"
    using assms(1) by (simp add: pay_def after_call_tame)
  show ?thesis
  proof (cases "vault_pay E T x m tok to amt (v, w)")
    case (Inr p)
    moreover obtain v' w' where "p = (v', w')" by (cases p)
    moreover from this Inr assms(1) have "v_entered v' = 2" by (auto simp: pay_Inr split: if_splits)
    ultimately show ?thesis using eq assms(2) by simp
  qed (simp add: eq)
qed

lemma nonReentrant_cong:
  "(\<And>v w. v_entered v = 2 \<Longrightarrow> f (v, w) = g (v, w)) \<Longrightarrow> nonReentrant f vw = nonReentrant g vw"
  by (cases vw) (simp add: nonReentrant_def)

lemma fund_tame: "fund E (tame T) x i n vw = fund E T x i n vw"
  unfolding fund_def
  by (rule nonReentrant_cong) (simp add: fund_body_def Let_def after_call_tame split: option.split)

lemma withdraw_tame: "withdraw E (tame T) x i a d sig vw = withdraw E T x i a d sig vw"
  unfolding withdraw_def
  by (rule nonReentrant_cong)
    (simp add: withdraw_body_def Let_def after_call_tame cong: if_cong sum.case_cong option.case_cong)

lemma cancel_tame: "cancelStream E (tame T) x i a d sig vw = cancelStream E T x i a d sig vw"
  unfolding cancelStream_def
proof (rule nonReentrant_cong)
  fix v :: vault and w
  assume "v_entered v = 2"
  then show "cancelStream_body (reentered reentry_depth E (tame T)) E (tame T) x i a d sig (v, w)
    = cancelStream_body (reentered reentry_depth E T) E T x i a d sig (v, w)"
    unfolding cancelStream_body_def Let_def prod.case
    by (intro if_cong refl sum.case_cong option.case_cong pay_tame) (simp_all add: pay_tame)
qed

lemma vault_call_tame: "vault_call E (tame T) x c vw = vault_call E T x c vw"
  by (cases vw; cases c) (simp_all add: fund_tame withdraw_tame cancel_tame)

text \<open>The stream a call names.\<close>

definition call_stream :: "vcall \<Rightarrow> uint256 option" where
  "call_stream c = (case c of CFund i _ \<Rightarrow> Some i | CWithdraw i _ _ _ \<Rightarrow> Some i
     | CCancelStream i _ _ _ \<Rightarrow> Some i | _ \<Rightarrow> None)"

lemma call_touches:
  assumes "vault_call E T x c (v, w) = Inr (v', w')" "vault_ok v" "tx_sender x \<noteq> 0"
  shows "frame v v' \<or> (\<exists>i s'. call_stream c = Some i \<and> touches v i s' v')"
proof (cases c)
  case (CFund i n)
  with assms(1) have "fund E T x i n (v, w) = Inr (v', w')" by simp
  from fund_touches [OF this assms(2)] CFund show ?thesis by (auto simp: call_stream_def)
next
  case (CWithdraw i a d sig)
  with assms(1) have "withdraw E T x i a d sig (v, w) = Inr (v', w')" by simp
  from withdraw_touches [OF this assms(2)] CWithdraw show ?thesis by (auto simp: call_stream_def)
next
  case (CCancelStream i a d sig)
  with assms(1) have "cancelStream E T x i a d sig (v, w) = Inr (v', w')" by simp
  from cancel_touches [OF this assms(2,3)] CCancelStream show ?thesis by (auto simp: call_stream_def)
qed (use assms(1) in \<open>auto split: sum.splits
    intro: frame_setTeeSigner frame_createStream frame_revealTerms\<close>)

lemma call_others:
  assumes "vault_call E T x c (v, w) = Inr (v', w')" "vault_ok v" "tx_sender x \<noteq> 0"
  shows "v_nextStreamId v \<le> v_nextStreamId v'"
    and "j < v_nextStreamId v \<Longrightarrow> call_stream c \<noteq> Some j \<Longrightarrow> v_streams v' j = v_streams v j"
    and "v_nextStreamId v \<le> j \<Longrightarrow> s_funded (v_streams v' j) = 0 \<and> s_withdrawn (v_streams v' j) = 0"
proof -
  have e: "v_streams v j = empty_stream" if "v_nextStreamId v \<le> j" for j
    using assms(2) that by (simp add: vault_ok_def)
  from call_touches [OF assms] show "v_nextStreamId v \<le> v_nextStreamId v'"
    using touches_stream(2) [OF _ assms(2)] by (auto simp: frame_def)
  from call_touches [OF assms] show "j < v_nextStreamId v \<Longrightarrow> call_stream c \<noteq> Some j \<Longrightarrow> v_streams v' j = v_streams v j"
    using touches_stream(3) [OF _ assms(2)] by (auto simp: frame_def)
  from call_touches [OF assms]
  show "s_funded (v_streams v' j) = 0 \<and> s_withdrawn (v_streams v' j) = 0" if "v_nextStreamId v \<le> j"
  proof (elim disjE exE conjE)
    assume "frame v v'"
    with e [OF that] show ?thesis unfolding frame_def by (metis empty_stream_simps(2,3))
  next
    fix i s' assume "touches v i s' v'"
    moreover from this that have "j \<noteq> i"
      using vault_ok_alloc [OF assms(2), of i] by (auto simp: touches_def)
    ultimately show ?thesis
      using e [OF that] unfolding touches_def frame_def
      by (metis empty_stream_simps(2,3) fun_upd_other upd_simps(6))
  qed
qed

text \<open>C7: reentrancy.  A token may call any function of the vault while the vault calls it, each such
  call may be re-entered in turn, and still every call to the vault ends, or reverts, exactly as it
  would if the token made none of its calls to \<^verbatim>\<open>fund\<close>, \<^verbatim>\<open>withdraw\<close> and \<^verbatim>\<open>cancelStream\<close>.  After a
  call the guard is as it was, no existing stream but the one the call names has changed, and
  the streams opened in the meantime hold nothing.\<close>

theorem reentrancy_safe:
  assumes "vault_ok v" "tx_sender x \<noteq> 0"
  shows "vault_call E T x c (v, w) = vault_call E (tame T) x c (v, w) \<and>
    (\<forall>v' w'. vault_call E T x c (v, w) = Inr (v', w') \<longrightarrow>
       v_entered v' = v_entered v \<and> v_nextStreamId v \<le> v_nextStreamId v' \<and>
       (\<forall>j. j < v_nextStreamId v \<longrightarrow> call_stream c \<noteq> Some j \<longrightarrow> v_streams v' j = v_streams v j) \<and>
       (\<forall>j. v_nextStreamId v \<le> j \<longrightarrow> s_funded (v_streams v' j) = 0 \<and> s_withdrawn (v_streams v' j) = 0))"
  using vault_call_tame [of E T x c "(v, w)"] vault_call_entered [of E T x c v w]
    call_others [OF _ assms, of E T c w] by auto

text \<open>A token whose transfer calls back for a larger withdrawal of the same stream, and counts its
  transfers.\<close>

definition greedy_tokens :: "nat tokens" where
  "greedy_tokens = \<lparr>
     t_transfer = (\<lambda>tok caller to amt w. TokReturn True (Suc w) [(2, CWithdraw 1 500 60 demo_sig)]),
     t_transferFrom = (\<lambda>tok caller src to amt w. TokReturn True (Suc w) [])\<rparr>"

theorem reentrancy_safe_witness:
  "\<exists>v'. vault_call demo_evm greedy_tokens (demo_tx 2 50) (CWithdraw 1 400 60 demo_sig) (demo_vault, 0)
      = Inr (v', 1) \<and> v_entered v' = 1 \<and> s_withdrawn (v_streams v' 1) = 400"
proof -
  let ?c = "CWithdraw 1 400 60 demo_sig"
  have tx: "tx_sender (demo_tx 2 50) \<noteq> 0" by (simp add: demo_tx_def)
  note safe = reentrancy_safe [OF demo_vault_ok tx, of demo_evm greedy_tokens ?c "0 :: nat"]
  have "\<exists>v'. vault_call demo_evm (tame greedy_tokens) (demo_tx 2 50) ?c (demo_vault, 0) = Inr (v', 1) \<and>
    s_withdrawn (v_streams v' 1) = 400"
    by (simp add: vault_eval demo_defs tame_def tame_reply_def greedy_tokens_def guarded_def)
  with safe show ?thesis by (auto simp: demo_vault_def)
qed

section \<open>Opening and revealing\<close>

lemma createStream_opens_parts:
  assumes "vault_ok v"
  shows "(\<exists>i v'. createStream x r t c st enc v = Inr (i, v')) \<longleftrightarrow>
      r \<noteq> 0 \<and> t \<noteq> 0 \<and> c \<noteq> 0 \<and> v_nextStreamId v \<noteq> - 1"
    and "createStream x r t c st enc v = Inr (i, v') \<longrightarrow>
      i = v_nextStreamId v \<and> v_streams v i = empty_stream \<and>
      v_streams v' = (v_streams v)(i := \<lparr>s_employer = tx_sender x, s_recipient = r, s_token = t,
        s_commitment = c, s_funded = 0, s_withdrawn = 0, s_startTime = st, s_cancelled = False\<rparr>) \<and>
      v_events v' = v_events v @ [StreamCreated i (tx_sender x) r t c st enc] \<and>
      v_nextStreamId v' = i + 1 \<and> v_teeSigner v' = v_teeSigner v \<and> vault_ok v'"
proof -
  have "unat (v_nextStreamId v) < 2 ^ LENGTH(256)" by (rule unsigned_less)
  moreover have "unat (- 1 :: uint256) = 2 ^ 256 - 1" by (simp add: unsigned_minus_1_eq_mask mask_eq_exp_minus_1)
  ultimately have "checked_add (v_nextStreamId v) 1 = None \<longleftrightarrow> v_nextStreamId v = - 1"
    by (auto simp: checked_add_None word_unat_eq_iff)
  then show "(\<exists>i v'. createStream x r t c st enc v = Inr (i, v')) \<longleftrightarrow>
      r \<noteq> 0 \<and> t \<noteq> 0 \<and> c \<noteq> 0 \<and> v_nextStreamId v \<noteq> - 1"
    by (auto simp: createStream_def Let_def split: option.splits)
  show "createStream x r t c st enc v = Inr (i, v') \<longrightarrow>
      i = v_nextStreamId v \<and> v_streams v i = empty_stream \<and>
      v_streams v' = (v_streams v)(i := \<lparr>s_employer = tx_sender x, s_recipient = r, s_token = t,
        s_commitment = c, s_funded = 0, s_withdrawn = 0, s_startTime = st, s_cancelled = False\<rparr>) \<and>
      v_events v' = v_events v @ [StreamCreated i (tx_sender x) r t c st enc] \<and>
      v_nextStreamId v' = i + 1 \<and> v_teeSigner v' = v_teeSigner v \<and> vault_ok v'"
  proof
    assume cr: "createStream x r t c st enc v = Inr (i, v')"
    then have "vault_ok v'" using vault_ok_frame [OF frame_createStream assms] by blast
    moreover from assms have "v_streams v (v_nextStreamId v) = empty_stream"
      by (simp add: vault_ok_def)
    ultimately show "i = v_nextStreamId v \<and> v_streams v i = empty_stream \<and>
      v_streams v' = (v_streams v)(i := \<lparr>s_employer = tx_sender x, s_recipient = r, s_token = t,
        s_commitment = c, s_funded = 0, s_withdrawn = 0, s_startTime = st, s_cancelled = False\<rparr>) \<and>
      v_events v' = v_events v @ [StreamCreated i (tx_sender x) r t c st enc] \<and>
      v_nextStreamId v' = i + 1 \<and> v_teeSigner v' = v_teeSigner v \<and> vault_ok v'"
      using cr by (auto simp: createStream_def Let_def vault_upd_defs checked_add_def
          split: if_splits option.splits)
  qed
qed

text \<open>Opening a stream succeeds exactly for non-zero recipient, token and commitment while ids
  last; it gets the next id, which no stream had, starts unfunded with the caller as employer, is
  announced in one event with the encrypted terms, and touches nothing else.\<close>

theorem createStream_opens:
  assumes "vault_ok v"
  shows "((\<exists>i v'. createStream x r t c st enc v = Inr (i, v')) \<longleftrightarrow>
      r \<noteq> 0 \<and> t \<noteq> 0 \<and> c \<noteq> 0 \<and> v_nextStreamId v \<noteq> - 1) \<and>
    (createStream x r t c st enc v = Inr (i, v') \<longrightarrow>
      i = v_nextStreamId v \<and> v_streams v i = empty_stream \<and>
      v_streams v' = (v_streams v)(i := \<lparr>s_employer = tx_sender x, s_recipient = r, s_token = t,
        s_commitment = c, s_funded = 0, s_withdrawn = 0, s_startTime = st, s_cancelled = False\<rparr>) \<and>
      v_events v' = v_events v @ [StreamCreated i (tx_sender x) r t c st enc] \<and>
      v_nextStreamId v' = i + 1 \<and> v_teeSigner v' = v_teeSigner v \<and> vault_ok v')"
  by (intro createStream_opens_parts [OF assms] conjI)

theorem createStream_opens_witness:
  "\<exists>i v'. createStream (demo_tx 1 0) 2 7 99 0 [] demo_vault = Inr (i, v')"
proof -
  have "v_nextStreamId demo_vault \<noteq> - 1" by (simp add: demo_vault_def)
  with createStream_opens [OF demo_vault_ok, of "demo_tx 1 0" 2 7 99 0 "[]"] show ?thesis by simp
qed

end
