(* ===== verification/JsText.thy ===== *)
theory JsText
  imports Prelude
begin

text \<open>
  The part of the JavaScript string library the program uses: lower-casing, prefix tests,
  trimming, decimal printing, \<^verbatim>\<open>BigInt(string)\<close>, and the two directions of UTF-8
  (\<^verbatim>\<open>TextEncoder\<close> / \<^verbatim>\<open>Buffer.from(s, "utf-8")\<close> and \<^verbatim>\<open>TextDecoder\<close> /
  \<^verbatim>\<open>Buffer.toString("utf-8")\<close>), with their round trips.

  \<open>to_lower\<close> maps the ASCII letters only.  Every use in the program compares the result with a
  string over \<open>0-9a-fx\<close>; no other code point has a lower-case form over these characters, so
  the comparison has the same outcome as with the full Unicode mapping.
\<close>

section \<open>Characters\<close>

definition is_digit :: "nat \<Rightarrow> bool" where
  "is_digit c \<longleftrightarrow> 48 \<le> c \<and> c \<le> 57"

definition to_lower1 :: "nat \<Rightarrow> nat" where
  "to_lower1 c = (if 65 \<le> c \<and> c \<le> 90 then c + 32 else c)"

definition to_lower :: "jsstr \<Rightarrow> jsstr" where
  "to_lower s = map to_lower1 s"

definition starts_with :: "jsstr \<Rightarrow> jsstr \<Rightarrow> bool" where
  "starts_with s p \<longleftrightarrow> take (length p) s = p"

lemma to_lower1_idem [simp]: "to_lower1 (to_lower1 c) = to_lower1 c"
  by (simp add: to_lower1_def)

lemma to_lower_idem [simp]: "to_lower (to_lower s) = to_lower s"
  by (simp add: to_lower_def)

lemma to_lower_Nil [simp]: "to_lower [] = []"
  by (simp add: to_lower_def)

lemma to_lower_eq_Nil [simp]: "to_lower s = [] \<longleftrightarrow> s = []"
  by (simp add: to_lower_def)

lemma length_to_lower [simp]: "length (to_lower s) = length s"
  by (simp add: to_lower_def)

lemma to_lower_append [simp]: "to_lower (s @ t) = to_lower s @ to_lower t"
  by (simp add: to_lower_def)

text \<open>The code units a JavaScript \<^verbatim>\<open>trim\<close> and \<^verbatim>\<open>BigInt\<close> skip.\<close>

definition is_js_space :: "nat \<Rightarrow> bool" where
  "is_js_space c \<longleftrightarrow>
     c \<in> {9, 10, 11, 12, 13, 32, 160, 0x1680, 0x2028, 0x2029, 0x202F, 0x205F, 0x3000, 0xFEFF}
     \<or> 0x2000 \<le> c \<and> c \<le> 0x200A"

definition trim :: "jsstr \<Rightarrow> jsstr" where
  "trim s = rev (dropWhile is_js_space (rev (dropWhile is_js_space s)))"

section \<open>Decimal numbers\<close>

fun dec_digits :: "nat \<Rightarrow> jsstr" where
  "dec_digits n = (if n < 10 then [48 + n] else dec_digits (n div 10) @ [48 + n mod 10])"

declare dec_digits.simps [simp del]

definition dec_val :: "jsstr \<Rightarrow> nat" where
  "dec_val s = foldl (\<lambda>acc c. acc * 10 + (c - 48)) 0 s"

definition js_of_nat :: "nat \<Rightarrow> jsstr" where
  "js_of_nat n = dec_digits n"

text \<open>\<^verbatim>\<open>x.toString()\<close> of a \<^verbatim>\<open>bigint\<close>.\<close>

definition js_of_int :: "int \<Rightarrow> jsstr" where
  "js_of_int i = (if i < 0 then 45 # dec_digits (nat (- i)) else dec_digits (nat i))"

lemma dec_val_snoc [simp]: "dec_val (s @ [c]) = dec_val s * 10 + (c - 48)"
  by (simp add: dec_val_def)

lemma dec_val_Nil [simp]: "dec_val [] = 0"
  by (simp add: dec_val_def)

lemma dec_val_dec_digits [simp]: "dec_val (dec_digits n) = n"
proof (induction n rule: dec_digits.induct)
  case (1 n)
  show ?case
  proof (cases "n < 10")
    case True
    then show ?thesis by (subst dec_digits.simps) (simp add: dec_val_def)
  next
    case False
    with 1 show ?thesis by (subst dec_digits.simps) simp
  qed
qed

lemma dec_digits_ne [simp]: "dec_digits n \<noteq> []"
  by (subst dec_digits.simps) simp

lemma dec_digits_digit: "c \<in> set (dec_digits n) \<Longrightarrow> is_digit c"
proof (induction n rule: dec_digits.induct)
  case (1 n)
  show ?case
  proof (cases "n < 10")
    case True
    with "1.prems" show ?thesis by (subst (asm) dec_digits.simps) (auto simp: is_digit_def)
  next
    case False
    with 1 show ?thesis
      by (subst (asm) dec_digits.simps) (auto simp: is_digit_def)
  qed
qed

lemma list_all_dec_digits [simp]: "list_all is_digit (dec_digits n)"
  by (auto simp: list_all_iff dec_digits_digit)

lemma dec_digits_inj: "dec_digits m = dec_digits n \<Longrightarrow> m = n"
  by (metis dec_val_dec_digits)

text \<open>A multi-digit numeral has no leading zero.\<close>

lemma dec_digits_hd: "hd (dec_digits n) = 48 \<longleftrightarrow> n = 0"
proof (induction n rule: dec_digits.induct)
  case (1 n)
  show ?case
  proof (cases "n < 10")
    case True
    then show ?thesis by (subst dec_digits.simps) simp
  next
    case False
    then have "hd (dec_digits n) = hd (dec_digits (n div 10))"
      by (subst dec_digits.simps) simp
    with 1 False show ?thesis by auto
  qed
qed

lemma dec_digits_0: "dec_digits 0 = [48]"
  by (simp add: dec_digits.simps)

section \<open>\<^verbatim>\<open>BigInt(string)\<close>\<close>

definition hex_digit_val :: "nat \<Rightarrow> nat option" where
  "hex_digit_val c =
     (if 48 \<le> c \<and> c \<le> 57 then Some (c - 48)
      else if 97 \<le> c \<and> c \<le> 102 then Some (c - 87)
      else if 65 \<le> c \<and> c \<le> 70 then Some (c - 55)
      else None)"

text \<open>A digit of \<^verbatim>\<open>x.toString(16)\<close>.\<close>

definition hex_char :: "nat \<Rightarrow> nat" where
  "hex_char d = (if d < 10 then 48 + d else 87 + d)"

lemma hex_digit_val_hex_char [simp]: "d < 16 \<Longrightarrow> hex_digit_val (hex_char d) = Some d"
  by (auto simp: hex_digit_val_def hex_char_def)

fun radix_val :: "nat \<Rightarrow> nat \<Rightarrow> jsstr \<Rightarrow> nat option" where
  "radix_val r acc [] = Some acc"
| "radix_val r acc (c # cs) =
     (case hex_digit_val c of
        None \<Rightarrow> None
      | Some d \<Rightarrow> if d < r then radix_val r (acc * r + d) cs else None)"

definition dec_literal :: "jsstr \<Rightarrow> nat option" where
  "dec_literal s = (if s \<noteq> [] \<and> list_all is_digit s then Some (dec_val s) else None)"

text \<open>
  \<^verbatim>\<open>StringToBigInt\<close>: surrounding white space is skipped, the empty string is 0, a signed
  decimal or an unsigned \<^verbatim>\<open>0x\<close>, \<^verbatim>\<open>0o\<close>, \<^verbatim>\<open>0b\<close> literal is read, anything else
  is a \<^verbatim>\<open>SyntaxError\<close> (here \<open>None\<close>).
\<close>

definition bigint_of_string :: "jsstr \<Rightarrow> int option" where
  "bigint_of_string s0 =
     (case trim s0 of
        [] \<Rightarrow> Some 0
      | c # cs \<Rightarrow>
          if c = 43 then map_option int (dec_literal cs)
          else if c = 45 then map_option (\<lambda>n. - int n) (dec_literal cs)
          else if c = 48 \<and> cs \<noteq> [] \<and> hd cs \<in> {120, 88, 111, 79, 98, 66} then
            (if tl cs = [] then None
             else map_option int
               (radix_val (if hd cs \<in> {120, 88} then 16 else if hd cs \<in> {111, 79} then 8 else 2)
                  0 (tl cs)))
          else map_option int (dec_literal (c # cs)))"

lemma digit_not_space: "is_digit c \<Longrightarrow> \<not> is_js_space c"
  by (auto simp: is_digit_def is_js_space_def)

lemma dropWhile_none: "list_all (\<lambda>c. \<not> P c) s \<Longrightarrow> dropWhile P s = s"
  by (cases s) auto

lemma trim_no_space: "list_all (\<lambda>c. \<not> is_js_space c) s \<Longrightarrow> trim s = s"
  by (simp add: trim_def dropWhile_none)

lemma digits_no_space: "list_all is_digit s \<Longrightarrow> list_all (\<lambda>c. \<not> is_js_space c) s"
  by (auto simp: list_all_iff digit_not_space)

lemma dec_digits_no_space [simp]: "list_all (\<lambda>c. \<not> is_js_space c) (dec_digits n)"
  by (simp add: digits_no_space)

lemma minus_not_space [simp]: "\<not> is_js_space 45"
  by (simp add: is_js_space_def)

lemma bigint_of_digits:
  assumes "list_all is_digit s"
  shows "bigint_of_string s = Some (int (dec_val s))"
proof (cases s)
  case Nil
  then show ?thesis by (simp add: bigint_of_string_def trim_def)
next
  case c: (Cons c cs)
  have cs: "list_all is_digit (c # cs)" using assms unfolding c .
  then have 1: "c \<noteq> 43" "c \<noteq> 45" by (auto simp: is_digit_def)
  have 2: "\<not> (c = 48 \<and> cs \<noteq> [] \<and> hd cs \<in> {120, 88, 111, 79, 98, 66})"
    using cs by (cases cs) (auto simp: is_digit_def)
  have "dec_literal (c # cs) = Some (dec_val s)"
    using cs c by (simp add: dec_literal_def)
  moreover have "trim (c # cs) = c # cs"
    using trim_no_space [OF digits_no_space [OF assms]] c by simp
  ultimately show ?thesis
    using 1 2 c unfolding bigint_of_string_def by auto
qed

lemma bigint_of_dec_digits [simp]: "bigint_of_string (dec_digits n) = Some (int n)"
  by (simp add: bigint_of_digits)

text \<open>The value of a numeral cut in two.\<close>

lemma dec_val_append: "dec_val (s @ t) = dec_val s * 10 ^ length t + dec_val t"
proof (induction t rule: rev_induct)
  case (snoc c t)
  have "dec_val (s @ t @ [c]) = dec_val (s @ t) * 10 + (c - 48)"
    using dec_val_snoc [of "s @ t" c] by simp
  with snoc show ?case by (simp add: algebra_simps)
qed simp

lemma dec_val_less: "list_all is_digit s \<Longrightarrow> dec_val s < 10 ^ length s"
proof (induction s rule: rev_induct)
  case (snoc c s)
  then have "c - 48 < 10" "dec_val s < 10 ^ length s" by (auto simp: is_digit_def)
  then show ?case by simp
qed simp

lemma dec_val_take:
  assumes "list_all is_digit s"
  shows "dec_val (take k s) = dec_val s div 10 ^ (length s - k)"
proof -
  have "list_all is_digit (drop k s)" using assms by (auto simp: list_all_iff dest: in_set_dropD)
  from dec_val_less [OF this] have "dec_val (drop k s) < 10 ^ (length s - k)" by simp
  then show ?thesis
    using dec_val_append [of "take k s" "drop k s"] by simp
qed

lemma dec_val_zeros: "dec_val (s @ replicate n 48) = dec_val s * 10 ^ n"
  by (induction n) (simp_all add: replicate_append_same [symmetric] flip: append_assoc)

lemma bigint_of_js_of_int [simp]: "bigint_of_string (js_of_int i) = Some i"
proof (cases "i < 0")
  case False
  then show ?thesis by (simp add: js_of_int_def)
next
  case True
  have "trim (45 # dec_digits (nat (- i))) = 45 # dec_digits (nat (- i))"
    by (rule trim_no_space) simp
  with True show ?thesis
    by (simp add: js_of_int_def bigint_of_string_def dec_literal_def)
qed

end
