(* ===== verification/Utf8.thy ===== *)
theory Utf8
  imports JsText
begin

text \<open>
  UTF-16 strings to UTF-8 bytes and back, as \<^verbatim>\<open>TextEncoder\<close> and \<^verbatim>\<open>Buffer.from(s, "utf-8")\<close>
  encode them and \<^verbatim>\<open>Buffer.toString("utf-8")\<close> and \<^verbatim>\<open>TextDecoder\<close> decode them: a lone
  surrogate is encoded as U+FFFD, an ill-formed byte sequence decodes to U+FFFD per maximal
  subpart (the WHATWG decoder), and only \<^verbatim>\<open>TextDecoder\<close> drops a leading byte order mark.
  The main lemma is the round trip for strings without lone surrogates.
\<close>

section \<open>UTF-16\<close>

definition is_high :: "nat \<Rightarrow> bool" where
  "is_high c \<longleftrightarrow> 0xD800 \<le> c \<and> c \<le> 0xDBFF"

definition is_low :: "nat \<Rightarrow> bool" where
  "is_low c \<longleftrightarrow> 0xDC00 \<le> c \<and> c \<le> 0xDFFF"

text \<open>Code units to scalar values; a surrogate outside a pair becomes U+FFFD.\<close>

fun scalars_of :: "jsstr \<Rightarrow> nat list" where
  "scalars_of [] = []"
| "scalars_of [c] = [if is_high c \<or> is_low c then 0xFFFD else c]"
| "scalars_of (c # d # cs) =
     (if is_high c \<and> is_low d
      then (0x10000 + (c - 0xD800) * 0x400 + (d - 0xDC00)) # scalars_of cs
      else (if is_high c \<or> is_low c then 0xFFFD else c) # scalars_of (d # cs))"

definition units_of_scalar :: "nat \<Rightarrow> jsstr" where
  "units_of_scalar n =
     (if n < 0x10000 then [n]
      else [0xD800 + (n - 0x10000) div 0x400, 0xDC00 + (n - 0x10000) mod 0x400])"

definition units_of :: "nat list \<Rightarrow> jsstr" where
  "units_of ns = concat (map units_of_scalar ns)"

text \<open>Strings in which every surrogate is part of a pair.\<close>

fun well_formed :: "jsstr \<Rightarrow> bool" where
  "well_formed [] = True"
| "well_formed [c] = (c < 0x10000 \<and> \<not> is_high c \<and> \<not> is_low c)"
| "well_formed (c # d # cs) =
     (if is_high c then is_low d \<and> well_formed cs
      else c < 0x10000 \<and> \<not> is_low c \<and> well_formed (d # cs))"

definition is_scalar :: "nat \<Rightarrow> bool" where
  "is_scalar n \<longleftrightarrow> n < 0x110000 \<and> \<not> is_high n \<and> \<not> is_low n"

lemma units_of_simps [simp]:
  "units_of [] = []"
  "units_of (n # ns) = units_of_scalar n @ units_of ns"
  "units_of (ms @ ns) = units_of ms @ units_of ns"
  by (simp_all add: units_of_def)

lemma well_formed_Cons_plain:
  "c < 0x10000 \<Longrightarrow> \<not> is_high c \<Longrightarrow> \<not> is_low c \<Longrightarrow> well_formed (c # cs) = well_formed cs"
  by (cases cs) auto

lemma units_of_pair:
  assumes "is_high c" "is_low d"
  shows "units_of_scalar (0x10000 + (c - 0xD800) * 0x400 + (d - 0xDC00)) = [c, d]"
proof -
  obtain x where x: "c = 0xD800 + x" "x < 0x400"
    using assms(1) unfolding is_high_def by (auto dest!: le_Suc_ex)
  obtain y where y: "d = 0xDC00 + y" "y < 0x400"
    using assms(2) unfolding is_low_def by (auto dest!: le_Suc_ex)
  have "(x * 0x400 + y) div 0x400 = x" "(x * 0x400 + y) mod 0x400 = y"
    using y by simp_all
  then show ?thesis by (simp add: units_of_scalar_def x y)
qed

lemma units_of_scalars_of: "well_formed s \<Longrightarrow> units_of (scalars_of s) = s"
proof (induction s rule: scalars_of.induct)
  case (2 c)
  then show ?case by (simp add: units_of_scalar_def)
next
  case (3 c d cs)
  show ?case
  proof (cases "is_high c")
    case True
    with 3 show ?thesis by (simp add: units_of_pair)
  next
    case False
    with 3 show ?thesis by (simp add: units_of_scalar_def)
  qed
qed simp

lemma scalars_of_is_scalar: "well_formed s \<Longrightarrow> list_all is_scalar (scalars_of s)"
proof (induction s rule: scalars_of.induct)
  case (2 c)
  then show ?case by (simp add: is_scalar_def)
next
  case (3 c d cs)
  show ?case
  proof (cases "is_high c")
    case True
    with 3 show ?thesis by (auto simp: is_scalar_def is_high_def is_low_def)
  next
    case False
    with 3 show ?thesis by (simp add: is_scalar_def)
  qed
qed simp

section \<open>Encoding\<close>

definition utf8_scalar :: "nat \<Rightarrow> nat list" where
  "utf8_scalar n =
     (if n < 0x80 then [n]
      else if n < 0x800 then [0xC0 + n div 0x40, 0x80 + n mod 0x40]
      else if n < 0x10000 then
        [0xE0 + n div 0x1000, 0x80 + n div 0x40 mod 0x40, 0x80 + n mod 0x40]
      else
        [0xF0 + n div 0x40000, 0x80 + n div 0x1000 mod 0x40,
         0x80 + n div 0x40 mod 0x40, 0x80 + n mod 0x40])"

definition utf8_encode :: "jsstr \<Rightarrow> bytes" where
  "utf8_encode s = map of_nat (concat (map utf8_scalar (scalars_of s)))"

section \<open>Decoding\<close>

text \<open>
  The state of the decoder between two bytes: none pending, or \<open>k\<close> continuation bytes still
  needed, the bits read so far, and the range the next byte must be in.
\<close>

datatype ustate = UIdle | UNeed nat nat nat nat

fun utf8_lead :: "nat \<Rightarrow> nat list \<times> ustate" where
  "utf8_lead b =
     (if b < 0x80 then ([b], UIdle)
      else if 0xC2 \<le> b \<and> b \<le> 0xDF then ([], UNeed 1 (b - 0xC0) 0x80 0xBF)
      else if 0xE0 \<le> b \<and> b \<le> 0xEF then
        ([], UNeed 2 (b - 0xE0) (if b = 0xE0 then 0xA0 else 0x80) (if b = 0xED then 0x9F else 0xBF))
      else if 0xF0 \<le> b \<and> b \<le> 0xF4 then
        ([], UNeed 3 (b - 0xF0) (if b = 0xF0 then 0x90 else 0x80) (if b = 0xF4 then 0x8F else 0xBF))
      else ([0xFFFD], UIdle))"

fun utf8_run :: "ustate \<Rightarrow> nat list \<Rightarrow> nat list" where
  "utf8_run UIdle [] = []"
| "utf8_run (UNeed k v lo hi) [] = [0xFFFD]"
| "utf8_run UIdle (b # bs) = (case utf8_lead b of (out, st) \<Rightarrow> out @ utf8_run st bs)"
| "utf8_run (UNeed k v lo hi) (b # bs) =
     (if lo \<le> b \<and> b \<le> hi then
        (if k \<le> 1 then (v * 0x40 + (b - 0x80)) # utf8_run UIdle bs
         else utf8_run (UNeed (k - 1) (v * 0x40 + (b - 0x80)) 0x80 0xBF) bs)
      else (case utf8_lead b of (out, st) \<Rightarrow> 0xFFFD # out @ utf8_run st bs))"

declare utf8_lead.simps [simp del]

text \<open>\<^verbatim>\<open>Buffer.from(b).toString("utf-8")\<close> and \<^verbatim>\<open>new TextDecoder("utf-8").decode(b)\<close>.\<close>

definition utf8_decode :: "bytes \<Rightarrow> jsstr" where
  "utf8_decode bs = units_of (utf8_run UIdle (map unat bs))"

definition text_decode :: "bytes \<Rightarrow> jsstr" where
  "text_decode bs =
     utf8_decode (if take 3 bs = [0xEF, 0xBB, 0xBF] then drop 3 bs else bs)"

section \<open>Round trip\<close>

lemma utf8_run_1: "n < 0x80 \<Longrightarrow> utf8_run UIdle (n # bs) = n # utf8_run UIdle bs"
  by (simp add: utf8_lead.simps)

lemma utf8_run_2:
  "2 \<le> a \<Longrightarrow> a < 32 \<Longrightarrow> b < 64 \<Longrightarrow>
   utf8_run UIdle ((0xC0 + a) # (0x80 + b) # bs) = (a * 64 + b) # utf8_run UIdle bs"
  by (simp add: utf8_lead.simps)

lemma utf8_run_3:
  "a < 16 \<Longrightarrow> b < 64 \<Longrightarrow> c < 64 \<Longrightarrow> (a = 0 \<Longrightarrow> 32 \<le> b) \<Longrightarrow> (a = 13 \<Longrightarrow> b < 32) \<Longrightarrow>
   utf8_run UIdle ((0xE0 + a) # (0x80 + b) # (0x80 + c) # bs)
     = ((a * 64 + b) * 64 + c) # utf8_run UIdle bs"
  by (auto simp: utf8_lead.simps)

lemma utf8_run_4:
  "a \<le> 4 \<Longrightarrow> b < 64 \<Longrightarrow> c < 64 \<Longrightarrow> d < 64 \<Longrightarrow> (a = 0 \<Longrightarrow> 16 \<le> b) \<Longrightarrow> (a = 4 \<Longrightarrow> b < 16) \<Longrightarrow>
   utf8_run UIdle ((0xF0 + a) # (0x80 + b) # (0x80 + c) # (0x80 + d) # bs)
     = (((a * 64 + b) * 64 + c) * 64 + d) # utf8_run UIdle bs"
  by (auto simp: utf8_lead.simps)

lemma utf8_run_scalar:
  assumes "is_scalar n"
  shows "utf8_run UIdle (utf8_scalar n @ bs) = n # utf8_run UIdle bs"
proof -
  define d where "d = n mod 64"
  define c where "c = n div 64 mod 64"
  define b where "b = n div 64 div 64 mod 64"
  define a where "a = n div 64 div 64 div 64"
  have lt: "d < 64" "c < 64" "b < 64" by (simp_all add: d_def c_def b_def)
  have n: "n = ((a * 64 + b) * 64 + c) * 64 + d"
    by (simp add: a_def b_def c_def d_def)
  have dv: "n div 0x40 = (a * 64 + b) * 64 + c" "n div 0x1000 = a * 64 + b" "n div 0x40000 = a"
    using lt by (simp_all add: n)
  have mm: "\<And>x y :: nat. y < 64 \<Longrightarrow> (x * 64 + y) mod 64 = y" by simp
  have md: "((a * 64 + b) * 64 + c) mod 0x40 = c" "(a * 64 + b) mod 0x40 = b"
    by (rule mm, rule lt)+
  have sc: "n < 0x110000" "\<not> (0xD800 \<le> n \<and> n \<le> 0xDFFF)"
    using assms by (auto simp: is_scalar_def is_high_def is_low_def)
  consider "n < 0x80" | "0x80 \<le> n" "n < 0x800" | "0x800 \<le> n" "n < 0x10000" | "0x10000 \<le> n"
    by linarith
  then show ?thesis
  proof cases
    case 1
    then show ?thesis by (simp only: utf8_scalar_def if_True append.simps utf8_run_1)
  next
    case 2
    then have ab: "a = 0" "b = 0" using n by auto
    then have r: "2 \<le> c" "c < 32" using 2 n lt by simp_all
    have "utf8_scalar n = [0xC0 + c, 0x80 + d]"
      using 2 ab unfolding utf8_scalar_def dv d_def [symmetric] by simp
    then show ?thesis
      using utf8_run_2 [OF r lt(1), of bs] n ab by simp
  next
    case 3
    then have a: "a = 0" using n by auto
    then have r: "b < 16" "b = 0 \<Longrightarrow> 32 \<le> c" "b = 13 \<Longrightarrow> c < 32"
      using 3 n lt sc by auto
    have "utf8_scalar n = [0xE0 + b, 0x80 + c, 0x80 + d]"
      using 3 a unfolding utf8_scalar_def dv md d_def [symmetric] by simp
    then show ?thesis
      using utf8_run_3 [OF r(1) lt(2,1) r(2,3), of bs] n a by simp
  next
    case 4
    have r: "a \<le> 4" "a = 0 \<Longrightarrow> 16 \<le> b" "a = 4 \<Longrightarrow> b < 16"
      using 4 n lt sc by auto
    have "utf8_scalar n = [0xF0 + a, 0x80 + b, 0x80 + c, 0x80 + d]"
      using 4 unfolding utf8_scalar_def dv md d_def [symmetric] by simp
    then show ?thesis
      using utf8_run_4 [OF r(1) lt(3,2,1) r(2,3), of bs] n by simp
  qed
qed

lemma utf8_run_scalars:
  "list_all is_scalar ns \<Longrightarrow> utf8_run UIdle (concat (map utf8_scalar ns)) = ns"
  by (induction ns) (simp_all add: utf8_run_scalar del: utf8_run.simps(3))

lemma utf8_scalar_byte: "is_scalar n \<Longrightarrow> b \<in> set (utf8_scalar n) \<Longrightarrow> b < 256"
  by (auto simp: utf8_scalar_def is_scalar_def split: if_splits)

lemma utf8_scalars_bytes:
  "list_all is_scalar ns \<Longrightarrow>
   map (\<lambda>n. unat (of_nat n :: byte)) (concat (map utf8_scalar ns)) = concat (map utf8_scalar ns)"
  by (induction ns)
    (auto simp: list_all_iff unat_of_nat_byte utf8_scalar_byte intro!: map_idI)

lemma utf8_decode_encode:
  assumes "well_formed s"
  shows "utf8_decode (utf8_encode s) = s"
proof -
  note sc = scalars_of_is_scalar [OF assms]
  have "map unat (utf8_encode s) = concat (map utf8_scalar (scalars_of s))"
    using utf8_scalars_bytes [OF sc] by (simp add: utf8_encode_def o_def)
  then show ?thesis
    using utf8_run_scalars [OF sc] units_of_scalars_of [OF assms]
    by (simp add: utf8_decode_def)
qed

text \<open>ASCII strings: one byte per code unit.\<close>

definition ascii :: "jsstr \<Rightarrow> bool" where
  "ascii s = list_all (\<lambda>c. c < 0x80) s"

lemma ascii_simps [simp]:
  "ascii []" "ascii (c # s) \<longleftrightarrow> c < 0x80 \<and> ascii s" "ascii (s @ t) \<longleftrightarrow> ascii s \<and> ascii t"
  by (simp_all add: ascii_def)

lemma ascii_not_surrogate: "c < 0x80 \<Longrightarrow> \<not> is_high c \<and> \<not> is_low c"
  by (simp add: is_high_def is_low_def)

lemma ascii_well_formed: "ascii s \<Longrightarrow> well_formed s"
  by (induction s) (auto simp: well_formed_Cons_plain ascii_not_surrogate)

lemma scalars_of_ascii: "ascii s \<Longrightarrow> scalars_of s = s"
  by (induction s rule: scalars_of.induct) (auto simp: ascii_not_surrogate)

lemma utf8_scalar_ascii: "ascii s \<Longrightarrow> concat (map utf8_scalar s) = s"
  by (induction s) (auto simp: utf8_scalar_def)

lemma utf8_encode_ascii: "ascii s \<Longrightarrow> utf8_encode s = map of_nat s"
  by (simp add: utf8_encode_def scalars_of_ascii utf8_scalar_ascii)

lemma well_formed_append:
  "well_formed s \<Longrightarrow> well_formed t \<Longrightarrow> well_formed (s @ t)"
proof (induction s rule: well_formed.induct)
  case (2 c)
  then show ?case by (simp add: well_formed_Cons_plain)
next
  case (3 c d cs)
  then show ?case by (cases "is_high c") auto
qed simp

end
