(* ===== verification/Encoding.thy ===== *)
theory Encoding
  imports Utf8
begin

text \<open>
  \<^verbatim>\<open>typescript/src/base/encoding.ts\<close>: hex strings and bytes32 identifiers.  An argument of
  type \<^verbatim>\<open>string | null | undefined\<close> is a \<open>jsstr option\<close>.  The hex codec of
  this file is an instance of the locale \<open>codec\<close> (interpreted in the theory \<open>Wire\<close>).
\<close>

section \<open>Hex\<close>

text \<open>\<^verbatim>\<open>byte.toString(16).padStart(2, "0")\<close>\<close>

definition byte_hex :: "byte \<Rightarrow> jsstr" where
  "byte_hex b = [hex_char (unat b div 16), hex_char (unat b mod 16)]"

definition bytesToHex :: "bytes \<Rightarrow> jsstr" where
  "bytesToHex b = js ''0x'' @ concat (map byte_hex b)"

text \<open>\<^verbatim>\<open>parseInt\<close> of two characters that passed the hex test.\<close>

definition hex_num :: "nat \<Rightarrow> nat" where
  "hex_num c = (case hex_digit_val c of Some d \<Rightarrow> d | None \<Rightarrow> 0)"

fun hex_pairs :: "jsstr \<Rightarrow> bytes" where
  "hex_pairs (a # b # s) = of_nat (hex_num a * 16 + hex_num b) # hex_pairs s"
| "hex_pairs _ = []"

definition is_hex :: "jsstr \<Rightarrow> bool" where
  "is_hex s = list_all (\<lambda>c. hex_digit_val c \<noteq> None) s"

definition strip_0x :: "jsstr \<Rightarrow> jsstr" where
  "strip_0x h = (if starts_with h (js ''0x'') \<or> starts_with h (js ''0X'') then drop 2 h else h)"

definition hexToBytes :: "jsstr option \<Rightarrow> bytes result" where
  "hexToBytes h =
     (case h of
        None \<Rightarrow> Inr []
      | Some h \<Rightarrow>
          (let s = strip_0x h in
           if length s = 0 then Inr []
           else if length s mod 2 \<noteq> 0 then
             Inl (Error (js ''invalid hex: odd length ('' @ js_of_nat (length s) @ js '')''))
           else if \<not> is_hex s then Inl (Error (js ''invalid hex: non-hex characters''))
           else Inr (hex_pairs s)))"

section \<open>bytes32 identifiers\<close>

definition stringToBytes32Hex :: "jsstr \<Rightarrow> jsstr result" where
  "stringToBytes32Hex s =
     (let encoded = utf8_encode s in
      if length encoded > 32 then
        Inl (Error (js ''string too long for bytes32 ('' @ js_of_nat (length encoded)
                    @ js '' bytes): '' @ s))
      else Inr (bytesToHex (encoded @ replicate (32 - length encoded) 0)))"

definition strip_zeros :: "bytes \<Rightarrow> bytes" where
  "strip_zeros b = rev (dropWhile (\<lambda>x. x = 0) (rev b))"

definition bytes32HexToString :: "jsstr option \<Rightarrow> jsstr" where
  "bytes32HexToString h =
     (case hexToBytes h of
        Inl _ \<Rightarrow> []
      | Inr b \<Rightarrow> text_decode (strip_zeros b))"

section \<open>Lemmas\<close>

lemma hex_num_hex_char [simp]: "d < 16 \<Longrightarrow> hex_num (hex_char d) = d"
  by (simp add: hex_num_def)

lemma hex_char_inj: "d < 16 \<Longrightarrow> e < 16 \<Longrightarrow> hex_char d = hex_char e \<Longrightarrow> d = e"
  by (metis hex_num_hex_char)

lemma unat_byte_div [simp]: "unat (b :: byte) div 16 < 16"
  using unat_byte_less [of b] by (simp add: less_mult_imp_div_less)

lemma hex_pairs_concat [simp]: "hex_pairs (concat (map byte_hex bs) @ s) = bs @ hex_pairs s"
proof (induction bs)
  case (Cons b bs)
  have "unat b div 16 * 16 + unat b mod 16 = unat b" by simp
  with Cons show ?case by (simp add: byte_hex_def del: of_nat_add of_nat_mult)
qed simp

lemma is_hex_concat [simp]: "is_hex (concat (map byte_hex bs))"
  by (induction bs) (simp_all add: is_hex_def byte_hex_def)

lemma length_concat_byte_hex [simp]: "length (concat (map byte_hex bs)) = 2 * length bs"
  by (induction bs) (simp_all add: byte_hex_def)

lemma strip_0x_bytesToHex [simp]: "strip_0x (bytesToHex b) = concat (map byte_hex b)"
  by (simp add: strip_0x_def bytesToHex_def starts_with_def)

lemma hexToBytes_ok:
  "even (length (strip_0x h)) \<Longrightarrow> is_hex (strip_0x h) \<Longrightarrow>
   hexToBytes (Some h) = Inr (hex_pairs (strip_0x h))"
  by (simp add: hexToBytes_def Let_def even_iff_mod_2_eq_zero)

lemma hexToBytes_bytesToHex [simp]: "hexToBytes (Some (bytesToHex b)) = Inr b"
  using hex_pairs_concat [of b "[]"] by (simp add: hexToBytes_ok)

lemma length_bytesToHex [simp]: "length (bytesToHex b) = 2 + 2 * length b"
  by (simp add: bytesToHex_def)

lemma ascii_concat_hex: "ascii (concat (map byte_hex bs))"
proof (induction bs)
  case (Cons b bs)
  have "hex_char d < 128" if "d < 16" for d using that by (simp add: hex_char_def)
  with Cons show ?case by (simp add: byte_hex_def)
qed simp

lemma ascii_bytesToHex: "ascii (bytesToHex bs)"
  by (simp add: bytesToHex_def ascii_concat_hex js_Cons)

end
