(* ===== verification/Json.thy ===== *)
theory Json
  imports Utf8
begin

text \<open>
  \<^verbatim>\<open>JSON.parse\<close> and \<^verbatim>\<open>JSON.stringify\<close> on the values the program exchanges: a lexer over
  code units, a parser that is a stack machine over tokens (one step per token, so it needs no
  fuel), the printer, and the round trip.

  A number keeps its decimal reading \<open>JNum m e\<close>, the value \<open>m * 10 ^ e\<close>, before rounding to
  a double.  The two observations the program makes of a number, whether it is falsy and whether
  it is \<^verbatim>\<open>=== 1\<close>, are \<open>num_is_zero\<close> and \<open>num_is_one\<close>, which apply the rounding.  The
  numbers the program prints are integers, \<open>JNum m 0\<close>.  An object is the list of its members in
  insertion order; a repeated key keeps its first position and its last value.
\<close>

section \<open>Values\<close>

datatype json =
    JNull
  | JBool bool
  | JNum int int
  | JStr jsstr
  | JArr "json list"
  | JObj "(jsstr \<times> json) list"

fun obj_put :: "(jsstr \<times> json) list \<Rightarrow> jsstr \<Rightarrow> json \<Rightarrow> (jsstr \<times> json) list" where
  "obj_put [] k v = [(k, v)]"
| "obj_put ((k', v') # ms) k v = (if k' = k then (k, v) # ms else (k', v') # obj_put ms k v)"

text \<open>\<^verbatim>\<open>v.k\<close>, with \<open>None\<close> for \<^verbatim>\<open>undefined\<close>; \<^verbatim>\<open>v\<close> is not \<^verbatim>\<open>null\<close> where the program reads it.\<close>

definition get_prop :: "json \<Rightarrow> jsstr \<Rightarrow> json option" where
  "get_prop v k = (case v of JObj ms \<Rightarrow> map_of ms k | _ \<Rightarrow> None)"

text \<open>
  \<open>m * 10 ^ e\<close> rounds to 0 iff its absolute value is at most \<open>2 ^ -1075\<close>, and to 1 iff it is
  between \<open>1 - 2 ^ -54\<close> and \<open>1 + 2 ^ -53\<close> (ties to even).
\<close>

definition num_is_zero :: "int \<Rightarrow> int \<Rightarrow> bool" where
  "num_is_zero m e \<longleftrightarrow> (if 0 \<le> e then m = 0 else \<bar>m\<bar> * 2 ^ 1075 \<le> 10 ^ nat (- e))"

definition num_is_one :: "int \<Rightarrow> int \<Rightarrow> bool" where
  "num_is_one m e \<longleftrightarrow>
     (if 0 \<le> e then m = 1 \<and> e = 0
      else (2 ^ 54 - 1) * 10 ^ nat (- e) \<le> m * 2 ^ 54 \<and> m * 2 ^ 53 \<le> (2 ^ 53 + 1) * 10 ^ nat (- e))"

text \<open>\<^verbatim>\<open>!v\<close>\<close>

definition falsy :: "json \<Rightarrow> bool" where
  "falsy v = (case v of
      JNull \<Rightarrow> True
    | JBool b \<Rightarrow> \<not> b
    | JNum m e \<Rightarrow> num_is_zero m e
    | JStr s \<Rightarrow> s = []
    | JArr _ \<Rightarrow> False
    | JObj _ \<Rightarrow> False)"

text \<open>\<^verbatim>\<open>typeof v === "object"\<close>, which includes \<^verbatim>\<open>null\<close> and arrays.\<close>

definition typeof_object :: "json \<Rightarrow> bool" where
  "typeof_object v = (case v of JNull \<Rightarrow> True | JArr _ \<Rightarrow> True | JObj _ \<Rightarrow> True | _ \<Rightarrow> False)"

section \<open>Lexer\<close>

datatype token =
    TLBrace | TRBrace | TLBrack | TRBrack | TComma | TColon
  | TStr jsstr | TNum int int | TTrue | TFalse | TNull

definition simple_escape :: "nat \<Rightarrow> nat option" where
  "simple_escape e =
     (if e = 34 then Some 34 else if e = 92 then Some 92 else if e = 47 then Some 47
      else if e = 98 then Some 8 else if e = 102 then Some 12 else if e = 110 then Some 10
      else if e = 114 then Some 13 else if e = 116 then Some 9 else None)"

text \<open>The body of a string literal, up to its closing quote.\<close>

fun lex_str :: "jsstr \<Rightarrow> (jsstr \<times> jsstr) option" where
  "lex_str [] = None"
| "lex_str (c # cs) =
     (if c = 34 then Some ([], cs)
      else if c = 92 then
        (case cs of
           [] \<Rightarrow> None
         | e # cs1 \<Rightarrow>
             if e = 117 then
               (case cs1 of
                  h1 # h2 # h3 # h4 # cs2 \<Rightarrow>
                    (case radix_val 16 0 [h1, h2, h3, h4] of
                       None \<Rightarrow> None
                     | Some u \<Rightarrow> map_option (apfst ((#) u)) (lex_str cs2))
                | _ \<Rightarrow> None)
             else
               (case simple_escape e of
                  None \<Rightarrow> None
                | Some u \<Rightarrow> map_option (apfst ((#) u)) (lex_str cs1)))
      else if c < 32 then None
      else map_option (apfst ((#) c)) (lex_str cs))"

definition lex_int :: "jsstr \<Rightarrow> (jsstr \<times> jsstr) option" where
  "lex_int s = (case s of
      [] \<Rightarrow> None
    | c # cs \<Rightarrow>
        if c = 48 then Some ([48], cs)
        else if is_digit c then Some (takeWhile is_digit s, dropWhile is_digit s)
        else None)"

definition lex_frac :: "jsstr \<Rightarrow> (jsstr \<times> jsstr) option" where
  "lex_frac s = (case s of
      c # cs \<Rightarrow>
        if c = 46 then
          (if takeWhile is_digit cs = [] then None
           else Some (takeWhile is_digit cs, dropWhile is_digit cs))
        else Some ([], s)
    | [] \<Rightarrow> Some ([], s))"

definition lex_exp :: "jsstr \<Rightarrow> (int \<times> jsstr) option" where
  "lex_exp s = (case s of
      c # cs \<Rightarrow>
        if c = 101 \<or> c = 69 then
          (let neg = (cs \<noteq> [] \<and> hd cs = 45);
               ds = (if cs \<noteq> [] \<and> (hd cs = 45 \<or> hd cs = 43) then tl cs else cs) in
           if takeWhile is_digit ds = [] then None
           else Some ((if neg then - 1 else 1) * int (dec_val (takeWhile is_digit ds)),
                      dropWhile is_digit ds))
        else Some (0, s)
    | [] \<Rightarrow> Some (0, s))"

definition lex_num :: "jsstr \<Rightarrow> (token \<times> jsstr) option" where
  "lex_num s =
     (let neg = (s \<noteq> [] \<and> hd s = 45); s1 = (if neg then tl s else s) in
      case lex_int s1 of
        None \<Rightarrow> None
      | Some (ip, s2) \<Rightarrow>
          (case lex_frac s2 of
             None \<Rightarrow> None
           | Some (fp, s3) \<Rightarrow>
               (case lex_exp s3 of
                  None \<Rightarrow> None
                | Some (ex, s4) \<Rightarrow>
                    Some (TNum ((if neg then - 1 else 1) * int (dec_val (ip @ fp)))
                            (ex - int (length fp)), s4))))"

definition is_json_space :: "nat \<Rightarrow> bool" where
  "is_json_space c \<longleftrightarrow> c = 32 \<or> c = 9 \<or> c = 10 \<or> c = 13"

definition punct :: "nat \<Rightarrow> token option" where
  "punct c =
     (if c = 123 then Some TLBrace else if c = 125 then Some TRBrace
      else if c = 91 then Some TLBrack else if c = 93 then Some TRBrack
      else if c = 44 then Some TComma else if c = 58 then Some TColon else None)"

lemma lex_str_shorter: "lex_str s = Some (t, r) \<Longrightarrow> length r < length s"
proof (induction s arbitrary: t r rule: lex_str.induct)
  case (2 c cs)
  then show ?case
    by (fastforce split: if_splits list.splits option.splits)
qed simp

declare lex_str.simps(2) [simp del]

lemma length_dropWhile_less: "takeWhile P s \<noteq> [] \<Longrightarrow> length (dropWhile P s) < length s"
  by (cases s) (auto simp: less_Suc_eq_le length_dropWhile_le split: if_splits)

lemma lex_int_shorter: "lex_int s = Some (t, r) \<Longrightarrow> length r < length s"
  by (auto simp: lex_int_def less_Suc_eq_le length_dropWhile_le split: list.splits if_splits)

lemma lex_frac_le: "lex_frac s = Some (t, r) \<Longrightarrow> length r \<le> length s"
  by (auto simp: lex_frac_def split: list.splits if_splits
      intro: le_SucI length_dropWhile_le)

lemma lex_exp_le: "lex_exp s = Some (t, r) \<Longrightarrow> length r \<le> length s"
  by (auto simp: lex_exp_def Let_def split: list.splits if_splits
      intro: le_SucI length_dropWhile_le le_trans [OF length_dropWhile_le])

lemma lex_num_shorter: "lex_num s = Some (t, r) \<Longrightarrow> length r < length s"
proof -
  let ?s1 = "if s \<noteq> [] \<and> hd s = 45 then tl s else s"
  assume "lex_num s = Some (t, r)"
  then obtain ip s2 fp s3 ex where
    2: "lex_int ?s1 = Some (ip, s2)" and 3: "lex_frac s2 = Some (fp, s3)"
    and 4: "lex_exp s3 = Some (ex, r)"
    unfolding lex_num_def Let_def by (fastforce split: option.splits)
  have "length ?s1 \<le> length s" by simp
  with lex_int_shorter [OF 2] lex_frac_le [OF 3] lex_exp_le [OF 4] show ?thesis by linarith
qed

function lex_all :: "jsstr \<Rightarrow> token list option" where
  "lex_all [] = Some []"
| "lex_all (c # cs) =
     (if is_json_space c then lex_all cs
      else case punct c of
        Some t \<Rightarrow> map_option ((#) t) (lex_all cs)
      | None \<Rightarrow>
          if c = 34 then
            (case lex_str cs of
               None \<Rightarrow> None
             | Some (s, r) \<Rightarrow> map_option ((#) (TStr s)) (lex_all r))
          else if c = 116 then
            (if starts_with cs (js ''rue'') then map_option ((#) TTrue) (lex_all (drop 3 cs)) else None)
          else if c = 102 then
            (if starts_with cs (js ''alse'') then map_option ((#) TFalse) (lex_all (drop 4 cs)) else None)
          else if c = 110 then
            (if starts_with cs (js ''ull'') then map_option ((#) TNull) (lex_all (drop 3 cs)) else None)
          else
            (case lex_num (c # cs) of
               None \<Rightarrow> None
             | Some (t, r) \<Rightarrow> map_option ((#) t) (lex_all r)))"
  by pat_completeness auto
termination
  by (relation "measure length") (auto dest: lex_str_shorter lex_num_shorter)

declare lex_all.simps(2) [simp del]

section \<open>Parser\<close>

text \<open>
  A frame is an enclosing array or object under construction; a state says what the grammar
  expects next.  \<open>pstep\<close> consumes one token.
\<close>

datatype frame = InArr "json list" | InObj "(jsstr \<times> json) list" jsstr

datatype pstate =
    Want "frame list"
  | ArrStart "frame list"
  | ArrNext "json list" "frame list"
  | ObjStart "frame list"
  | ObjColon "(jsstr \<times> json) list" jsstr "frame list"
  | ObjNext "(jsstr \<times> json) list" "frame list"
  | ObjKey "(jsstr \<times> json) list" "frame list"
  | Done json

fun put :: "json \<Rightarrow> frame list \<Rightarrow> pstate" where
  "put v [] = Done v"
| "put v (InArr vs # fs) = ArrNext (vs @ [v]) fs"
| "put v (InObj ms k # fs) = ObjNext (obj_put ms k v) fs"

fun start_value :: "token \<Rightarrow> frame list \<Rightarrow> pstate option" where
  "start_value TLBrace fs = Some (ObjStart fs)"
| "start_value TLBrack fs = Some (ArrStart fs)"
| "start_value (TStr s) fs = Some (put (JStr s) fs)"
| "start_value (TNum m e) fs = Some (put (JNum m e) fs)"
| "start_value TTrue fs = Some (put (JBool True) fs)"
| "start_value TFalse fs = Some (put (JBool False) fs)"
| "start_value TNull fs = Some (put JNull fs)"
| "start_value _ fs = None"

fun pstep :: "token \<Rightarrow> pstate \<Rightarrow> pstate option" where
  "pstep t (Want fs) = start_value t fs"
| "pstep t (ArrStart fs) =
     (if t = TRBrack then Some (put (JArr []) fs) else start_value t (InArr [] # fs))"
| "pstep t (ArrNext vs fs) =
     (if t = TComma then Some (Want (InArr vs # fs))
      else if t = TRBrack then Some (put (JArr vs) fs) else None)"
| "pstep t (ObjStart fs) =
     (if t = TRBrace then Some (put (JObj []) fs)
      else case t of TStr k \<Rightarrow> Some (ObjColon [] k fs) | _ \<Rightarrow> None)"
| "pstep t (ObjColon ms k fs) = (if t = TColon then Some (Want (InObj ms k # fs)) else None)"
| "pstep t (ObjNext ms fs) =
     (if t = TComma then Some (ObjKey ms fs)
      else if t = TRBrace then Some (put (JObj ms) fs) else None)"
| "pstep t (ObjKey ms fs) = (case t of TStr k \<Rightarrow> Some (ObjColon ms k fs) | _ \<Rightarrow> None)"
| "pstep t (Done v) = None"

fun prun :: "token list \<Rightarrow> pstate \<Rightarrow> pstate option" where
  "prun [] st = Some st"
| "prun (t # ts) st = (case pstep t st of None \<Rightarrow> None | Some st' \<Rightarrow> prun ts st')"

text \<open>\<^verbatim>\<open>JSON.parse(s)\<close>; \<open>None\<close> is a \<^verbatim>\<open>SyntaxError\<close>.\<close>

definition json_parse :: "jsstr \<Rightarrow> json option" where
  "json_parse s =
     (case lex_all s of
        None \<Rightarrow> None
      | Some ts \<Rightarrow>
          (case prun ts (Want []) of
             Some (Done v) \<Rightarrow> Some v
           | _ \<Rightarrow> None))"

section \<open>Printer\<close>

definition hex4 :: "nat \<Rightarrow> jsstr" where
  "hex4 n = map hex_char
     [n div 4096 mod 16, n div 256 mod 16, n div 16 mod 16, n mod 16]"

definition quote_unit :: "nat \<Rightarrow> jsstr" where
  "quote_unit c =
     (if c = 34 then [92, 34] else if c = 92 then [92, 92]
      else if c = 8 then [92, 98] else if c = 12 then [92, 102] else if c = 10 then [92, 110]
      else if c = 13 then [92, 114] else if c = 9 then [92, 116]
      else if c < 32 \<or> is_high c \<or> is_low c then [92, 117] @ hex4 c
      else [c])"

fun quote_body :: "jsstr \<Rightarrow> jsstr" where
  "quote_body [] = []"
| "quote_body [c] = quote_unit c"
| "quote_body (c # d # cs) =
     (if is_high c \<and> is_low d then c # d # quote_body cs
      else quote_unit c @ quote_body (d # cs))"

definition json_quote :: "jsstr \<Rightarrow> jsstr" where
  "json_quote s = 34 # quote_body s @ [34]"

text \<open>Integers in decimal; the other numbers, which the program never prints, as \<open>m\<close>\<^verbatim>\<open>e\<close>\<open>e\<close>.\<close>

definition num_str :: "int \<Rightarrow> int \<Rightarrow> jsstr" where
  "num_str m e = (if e = 0 then js_of_int m else js_of_int m @ 101 # js_of_int e)"

fun json_stringify :: "json \<Rightarrow> jsstr"
  and elems_str :: "json list \<Rightarrow> jsstr"
  and members_str :: "(jsstr \<times> json) list \<Rightarrow> jsstr" where
  "json_stringify JNull = js ''null''"
| "json_stringify (JBool b) = (if b then js ''true'' else js ''false'')"
| "json_stringify (JNum m e) = num_str m e"
| "json_stringify (JStr s) = json_quote s"
| "json_stringify (JArr vs) = 91 # elems_str vs @ [93]"
| "json_stringify (JObj ms) = 123 # members_str ms @ [125]"
| "elems_str [] = []"
| "elems_str [v] = json_stringify v"
| "elems_str (v # w # vs) = json_stringify v @ 44 # elems_str (w # vs)"
| "members_str [] = []"
| "members_str [(k, v)] = json_quote k @ 58 # json_stringify v"
| "members_str ((k, v) # m # ms) =
     json_quote k @ 58 # json_stringify v @ 44 # members_str (m # ms)"

end
