(* ===== verification/JsonRound.thy ===== *)
theory JsonRound
  imports Json
begin

text \<open>
  \<^verbatim>\<open>JSON.parse(JSON.stringify(v))\<close> is \<^verbatim>\<open>v\<close> for every value whose numbers are integers,
  whose objects have distinct keys and whose strings hold 16-bit units (as every string of the
  program does): the printed text lexes to the tokens of the value, and the
  parser, started in any context that expects a value, reads these tokens back to it.
\<close>

section \<open>Printable values and their tokens\<close>

definition units_ok :: "jsstr \<Rightarrow> bool" where
  "units_ok s = list_all (\<lambda>c. c < 0x10000) s"

fun json_ok :: "json \<Rightarrow> bool"
  and elems_ok :: "json list \<Rightarrow> bool"
  and members_ok :: "(jsstr \<times> json) list \<Rightarrow> bool" where
  "json_ok JNull = True"
| "json_ok (JBool b) = True"
| "json_ok (JNum m e) = (e = 0)"
| "json_ok (JStr s) = units_ok s"
| "json_ok (JArr vs) = elems_ok vs"
| "json_ok (JObj ms) = (distinct (map fst ms) \<and> members_ok ms)"
| "elems_ok [] = True"
| "elems_ok (v # vs) = (json_ok v \<and> elems_ok vs)"
| "members_ok [] = True"
| "members_ok ((k, v) # ms) = (units_ok k \<and> json_ok v \<and> members_ok ms)"

fun tokens :: "json \<Rightarrow> token list"
  and elem_tokens :: "json list \<Rightarrow> token list"
  and member_tokens :: "(jsstr \<times> json) list \<Rightarrow> token list" where
  "tokens JNull = [TNull]"
| "tokens (JBool b) = [if b then TTrue else TFalse]"
| "tokens (JNum m e) = [TNum m e]"
| "tokens (JStr s) = [TStr s]"
| "tokens (JArr vs) = TLBrack # elem_tokens vs @ [TRBrack]"
| "tokens (JObj ms) = TLBrace # member_tokens ms @ [TRBrace]"
| "elem_tokens [] = []"
| "elem_tokens [v] = tokens v"
| "elem_tokens (v # w # vs) = tokens v @ TComma # elem_tokens (w # vs)"
| "member_tokens [] = []"
| "member_tokens [(k, v)] = TStr k # TColon # tokens v"
| "member_tokens ((k, v) # m # ms) = TStr k # TColon # tokens v @ TComma # member_tokens (m # ms)"

section \<open>Parsing the tokens of a value\<close>

lemma obj_put_fresh: "k \<notin> set (map fst ms) \<Longrightarrow> obj_put ms k v = ms @ [(k, v)]"
  by (induction ms k v rule: obj_put.induct) auto

lemma tokens_start: "\<exists>t ts. tokens v = t # ts \<and> t \<noteq> TRBrack"
  by (cases v) auto

lemma prun_ArrStart: "prun (tokens v @ ts) (ArrStart fs) = prun (tokens v @ ts) (Want (InArr [] # fs))"
proof -
  obtain t us where "tokens v = t # us" "t \<noteq> TRBrack" using tokens_start [of v] by blast
  then show ?thesis by simp
qed

lemma prun_elem_start:
  "vs \<noteq> [] \<Longrightarrow> prun (elem_tokens vs @ ts) (ArrStart fs) = prun (elem_tokens vs @ ts) (Want (InArr [] # fs))"
  by (cases vs rule: remdups_adj.cases) (simp_all add: prun_ArrStart)

lemma prun_member_start:
  "ms \<noteq> [] \<Longrightarrow> prun (member_tokens ms @ ts) (ObjStart fs) = prun (member_tokens ms @ ts) (ObjKey [] fs)"
  by (cases ms rule: member_tokens.cases) simp_all

lemma prun_tokens:
  "json_ok v \<Longrightarrow> prun (tokens v @ ts) (Want fs) = prun ts (put v fs)"
  "elems_ok vs \<Longrightarrow> vs \<noteq> [] \<Longrightarrow>
     prun (elem_tokens vs @ ts) (Want (InArr us # fs)) = prun ts (ArrNext (us @ vs) fs)"
  "members_ok ms \<Longrightarrow> ms \<noteq> [] \<Longrightarrow> distinct (map fst (ns @ ms)) \<Longrightarrow>
     prun (member_tokens ms @ ts) (ObjKey ns fs) = prun ts (ObjNext (ns @ ms) fs)"
proof (induction v and vs and ms arbitrary: ts fs and ts us fs and ts ns fs
    rule: tokens_elem_tokens_member_tokens.induct)
  case (5 vs)
  then show ?case by (cases "vs = []") (simp_all add: prun_elem_start)
next
  case (6 ms)
  then show ?case by (cases "ms = []") (simp_all add: prun_member_start)
next
  case (11 k v)
  then show ?case by (simp add: obj_put_fresh)
next
  case (12 k v m ms)
  have "prun (member_tokens (m # ms) @ ts) (ObjKey (ns @ [(k, v)]) fs)
      = prun ts (ObjNext ((ns @ [(k, v)]) @ m # ms) fs)"
    using "12.prems" by (intro "12.IH"(2)) auto
  with 12 show ?case by (simp add: obj_put_fresh)
qed simp_all

section \<open>Lexing a printed value\<close>

definition delim :: "jsstr \<Rightarrow> bool" where
  "delim r \<longleftrightarrow> r = [] \<or> hd r \<in> {44, 93, 125}"

lemma append_fun:
  "(@) (xs @ ys) = (\<lambda>zs. xs @ ys @ zs)" "(@) (x # xs) = (\<lambda>zs. x # xs @ zs)"
  by (simp_all add: fun_eq_iff)

lemma delim_simps [simp]: "delim []" "delim (44 # r)" "delim (93 # r)" "delim (125 # r)"
  by (simp_all add: delim_def)

lemma radix_val_hex4: 
  assumes "c < 65536"
  shows "radix_val 16 0 (hex4 c) = Some c"
proof -
  have d: "c div 256 = c div 16 div 16" "c div 4096 = c div 16 div 16 div 16"
    by (simp_all add: div_mult2_eq [symmetric])
  have "((c div 4096 * 16 + c div 256 mod 16) * 16 + c div 16 mod 16) * 16 + c mod 16 = c"
    unfolding d by (simp only: div_mult_mod_eq)
  moreover have "c div 4096 < 16" using assms by (simp add: less_mult_imp_div_less)
  ultimately show ?thesis by (simp add: hex4_def algebra_simps)
qed

lemma lex_str_close [simp]: "lex_str (34 # r) = Some ([], r)"
  by (simp add: lex_str.simps)

lemma lex_str_simple:
  "e \<noteq> 117 \<Longrightarrow> simple_escape e = Some u \<Longrightarrow>
   lex_str (92 # e # r) = map_option (apfst ((#) u)) (lex_str r)"
  by (subst lex_str.simps) simp

lemma lex_str_hex4: "c < 65536 \<Longrightarrow> lex_str (92 # 117 # hex4 c @ r) = map_option (apfst ((#) c)) (lex_str r)"
  using radix_val_hex4 [of c] by (subst lex_str.simps) (simp add: hex4_def)

lemma lex_str_plain:
  "c \<noteq> 34 \<Longrightarrow> c \<noteq> 92 \<Longrightarrow> 32 \<le> c \<Longrightarrow> lex_str (c # r) = map_option (apfst ((#) c)) (lex_str r)"
  by (subst lex_str.simps) simp

lemma lex_str_quote_unit:
  "lex_str (quote_unit c @ r) = map_option (apfst ((#) c)) (lex_str r)"
proof (cases "c \<in> {34, 92, 8, 12, 10, 13, 9}")
  case True
  then show ?thesis by (auto simp: quote_unit_def simple_escape_def lex_str_simple)
next
  case False
  show ?thesis
  proof (cases "c < 32 \<or> is_high c \<or> is_low c")
    case True
    then have "c < 65536" by (auto simp: is_high_def is_low_def)
    with lex_str_hex4 [OF this, of r] False True show ?thesis
      by (simp add: quote_unit_def)
  next
    case plain: False
    with False show ?thesis by (simp add: quote_unit_def lex_str_plain)
  qed
qed

lemma lex_str_surrogate:
  "is_high c \<or> is_low c \<Longrightarrow> lex_str (c # r) = map_option (apfst ((#) c)) (lex_str r)"
  by (rule lex_str_plain) (auto simp: is_high_def is_low_def)

lemma lex_str_quote: "lex_str (quote_body s @ 34 # r) = Some (s, r)"
proof (induction s rule: quote_body.induct)
  case (3 c d cs)
  then show ?case
    by (auto simp: lex_str_quote_unit lex_str_surrogate)
qed (simp_all add: lex_str_quote_unit)

lemma lex_quote [simp]: "lex_all (json_quote s @ r) = map_option ((#) (TStr s)) (lex_all r)"
  by (simp add: json_quote_def lex_all.simps(2) is_json_space_def punct_def lex_str_quote)

lemma takeWhile_digits:
  "list_all is_digit ds \<Longrightarrow> delim r \<Longrightarrow> takeWhile is_digit (ds @ r) = ds \<and> dropWhile is_digit (ds @ r) = r"
  by (induction ds; cases r) (auto simp: delim_def is_digit_def)

lemma lex_int_dec: "delim r \<Longrightarrow> lex_int (dec_digits n @ r) = Some (dec_digits n, r)"
proof -
  assume r: "delim r"
  obtain c cs where c: "dec_digits n = c # cs" by (cases "dec_digits n") auto
  have all: "list_all is_digit (c # cs)" using list_all_dec_digits [of n] unfolding c .
  show ?thesis
  proof (cases "c = 48")
    case True
    then have "n = 0" using dec_digits_hd [of n] c by simp
    then show ?thesis by (simp add: lex_int_def dec_digits_0)
  next
    case False
    then show ?thesis
      using all takeWhile_digits [OF all r] by (simp add: lex_int_def c)
  qed
qed

lemma lex_frac_delim: "delim r \<Longrightarrow> lex_frac r = Some ([], r)"
  by (auto simp: delim_def lex_frac_def split: list.splits)

lemma lex_exp_delim: "delim r \<Longrightarrow> lex_exp r = Some (0, r)"
  by (auto simp: delim_def lex_exp_def split: list.splits)

lemma dec_digits_hd_digit: "is_digit (hd (dec_digits n @ r))"
  using dec_digits_digit [of "hd (dec_digits n)" n] by simp

lemma lex_num_int: "delim r \<Longrightarrow> lex_num (js_of_int i @ r) = Some (TNum i 0, r)"
proof (cases "i < 0")
  case True
  moreover assume "delim r"
  ultimately show ?thesis
    by (simp add: lex_num_def js_of_int_def lex_int_dec lex_frac_delim lex_exp_delim)
next
  case False
  moreover assume "delim r"
  moreover have "hd (dec_digits (nat i) @ r) \<noteq> 45"
    using dec_digits_hd_digit [of "nat i" r] by (auto simp: is_digit_def)
  ultimately show ?thesis
    by (simp add: lex_num_def js_of_int_def lex_int_dec lex_frac_delim lex_exp_delim)
qed

lemma js_of_int_start: "\<exists>c cs. js_of_int i = c # cs \<and> (is_digit c \<or> c = 45)"
proof (cases "i < 0")
  case False
  then show ?thesis
    using dec_digits_hd_digit [of "nat i" "[]"]
    by (cases "dec_digits (nat i)") (auto simp: js_of_int_def)
qed (simp add: js_of_int_def)

lemma lex_int_token: "delim r \<Longrightarrow> lex_all (js_of_int i @ r) = map_option ((#) (TNum i 0)) (lex_all r)"
proof -
  assume r: "delim r"
  obtain c cs where c: "js_of_int i = c # cs" "is_digit c \<or> c = 45"
    using js_of_int_start by blast
  have "lex_num (c # cs @ r) = Some (TNum i 0, r)" using lex_num_int [OF r, of i] c by simp
  moreover have "\<not> is_json_space c" "punct c = None" "c \<notin> {34, 116, 102, 110}"
    using c(2) by (auto simp: is_json_space_def punct_def is_digit_def)
  ultimately show ?thesis by (simp add: c lex_all.simps(2))
qed

lemma lex_punct [simp]:
  "lex_all (123 # r) = map_option ((#) TLBrace) (lex_all r)"
  "lex_all (125 # r) = map_option ((#) TRBrace) (lex_all r)"
  "lex_all (91 # r) = map_option ((#) TLBrack) (lex_all r)"
  "lex_all (93 # r) = map_option ((#) TRBrack) (lex_all r)"
  "lex_all (44 # r) = map_option ((#) TComma) (lex_all r)"
  "lex_all (58 # r) = map_option ((#) TColon) (lex_all r)"
  by (simp_all add: lex_all.simps(2) is_json_space_def punct_def)

lemma lex_words [simp]:
  "lex_all (js ''null'' @ r) = map_option ((#) TNull) (lex_all r)"
  "lex_all (js ''true'' @ r) = map_option ((#) TTrue) (lex_all r)"
  "lex_all (js ''false'' @ r) = map_option ((#) TFalse) (lex_all r)"
  by (simp_all add: js_Cons lex_all.simps(2) is_json_space_def punct_def starts_with_def)

lemma lex_stringify:
  "json_ok v \<Longrightarrow> delim r \<Longrightarrow> lex_all (json_stringify v @ r) = map_option ((@) (tokens v)) (lex_all r)"
  "elems_ok vs \<Longrightarrow> vs \<noteq> [] \<Longrightarrow> delim r \<Longrightarrow>
     lex_all (elems_str vs @ r) = map_option ((@) (elem_tokens vs)) (lex_all r)"
  "members_ok ms \<Longrightarrow> ms \<noteq> [] \<Longrightarrow> delim r \<Longrightarrow>
     lex_all (members_str ms @ r) = map_option ((@) (member_tokens ms)) (lex_all r)"
proof (induction v and vs and ms arbitrary: r and r and r
    rule: json_stringify_elems_str_members_str.induct)
  case (3 m e)
  then show ?case by (simp add: num_str_def lex_int_token append_fun)
next
  case (5 vs)
  then show ?case by (cases "vs = []") (simp_all add: option.map_comp o_def append_fun)
next
  case (6 ms)
  then show ?case by (cases "ms = []") (simp_all add: option.map_comp o_def append_fun)
qed (simp_all add: option.map_comp o_def append_fun)

theorem json_parse_stringify:
  assumes "json_ok v"
  shows "json_parse (json_stringify v) = Some v"
proof -
  have "lex_all (json_stringify v) = Some (tokens v)"
    using lex_stringify(1) [OF assms, of "[]"] by simp
  moreover have "prun (tokens v) (Want []) = Some (Done v)"
    using prun_tokens(1) [OF assms, of "[]" "[]"] by simp
  ultimately show ?thesis by (simp add: json_parse_def)
qed

section \<open>The printed text has no lone surrogate\<close>

lemma units_ok_simps [simp]:
  "units_ok []" "units_ok (c # s) \<longleftrightarrow> c < 0x10000 \<and> units_ok s"
  "units_ok (s @ t) \<longleftrightarrow> units_ok s \<and> units_ok t"
  by (simp_all add: units_ok_def)

lemma ascii_units_ok: "ascii s \<Longrightarrow> units_ok s"
  by (induction s) auto

lemma hex_char_ascii [simp]: "d < 16 \<Longrightarrow> hex_char d < 0x80"
  by (simp add: hex_char_def)

lemma ascii_hex4 [simp]: "ascii (hex4 c)"
  by (simp add: hex4_def del: One_nat_def)

lemma well_formed_quote_unit: "c < 0x10000 \<Longrightarrow> well_formed (quote_unit c)"
  unfolding quote_unit_def by (simp add: ascii_well_formed is_high_def is_low_def)

lemma ascii_js: "list_all (\<lambda>c. of_char c < (128 :: nat)) s \<Longrightarrow> ascii (js s)"
  by (simp add: ascii_def js_def list_all_iff)

lemma units_ok_js [simp]: "units_ok (js s)"
  by (auto simp: units_ok_def js_def list_all_iff intro: less_trans [OF nat_of_char_less_256])

lemma well_formed_quote_body: "units_ok s \<Longrightarrow> well_formed (quote_body s)"
  by (induction s rule: quote_body.induct)
    (auto simp: well_formed_quote_unit well_formed_append)

lemma well_formed_ascii_Cons [simp]: "c < 0x80 \<Longrightarrow> well_formed (c # s) = well_formed s"
  by (simp add: well_formed_Cons_plain ascii_not_surrogate)

lemma ascii_js_of_int: "ascii (js_of_int i)"
proof -
  have "ascii (dec_digits n)" for n
    using list_all_dec_digits [of n]
    unfolding ascii_def by (rule list.pred_mono_strong) (simp add: is_digit_def)
  then show ?thesis by (simp add: js_of_int_def)
qed

lemma well_formed_json_quote: "units_ok s \<Longrightarrow> well_formed (json_quote s)"
  by (simp add: json_quote_def well_formed_append well_formed_quote_body is_high_def is_low_def)

lemma well_formed_stringify:
  "json_ok v \<Longrightarrow> well_formed (json_stringify v)"
  "elems_ok vs \<Longrightarrow> well_formed (elems_str vs)"
  "members_ok ms \<Longrightarrow> well_formed (members_str ms)"
  by (induction v and vs and ms rule: json_stringify_elems_str_members_str.induct)
    (auto simp: num_str_def js_Cons is_high_def is_low_def ascii_well_formed ascii_js_of_int
       intro!: well_formed_append well_formed_json_quote)

end
