(* ===== verification/Wire.thy ===== *)
theory Wire
  imports Encoding JsonRound
begin

text \<open>
  The double encoding of the wire format: a JSON value printed, encoded to UTF-8 and then to hex,
  and the way back.  \<open>syntax_msg\<close> is the engine's message for a text that is not JSON, which
  the language leaves open.  The round trip is the composition of three codecs.
\<close>

definition json_exn :: "(jsstr \<Rightarrow> jsstr) \<Rightarrow> jsstr \<Rightarrow> js_exn" where
  "json_exn syntax_msg s = JsExn (js ''SyntaxError'') (syntax_msg s)"

text \<open>\<^verbatim>\<open>JSON.parse(s)\<close> with its exception.\<close>

definition parse_json :: "(jsstr \<Rightarrow> jsstr) \<Rightarrow> jsstr \<Rightarrow> json result" where
  "parse_json syntax_msg s =
     (case json_parse s of None \<Rightarrow> Inl (json_exn syntax_msg s) | Some v \<Rightarrow> Inr v)"

text \<open>\<^verbatim>\<open>bytesToHex(Buffer.from(JSON.stringify(v), "utf-8"))\<close>\<close>

definition json_to_hex :: "json \<Rightarrow> jsstr" where
  "json_to_hex v = bytesToHex (utf8_encode (json_stringify v))"

text \<open>
  What the language leaves to the engine: the message of a JSON syntax error, and of the
  \<^verbatim>\<open>TypeError\<close> for calling a string method on another value.
\<close>

record engine =
  g_syntax :: "jsstr \<Rightarrow> jsstr"
  g_type :: jsstr

text \<open>The messages of one engine, for the concrete runs.\<close>

definition demo_engine :: engine where
  "demo_engine = \<lparr>g_syntax = (\<lambda>_. js ''Unexpected end of JSON input''),
     g_type = js ''s.startsWith is not a function''\<rparr>"

text \<open>\<^verbatim>\<open>hexToBytes(v)\<close> for a value that comes out of JSON and need not be a string.\<close>

definition hexToBytes_val :: "engine \<Rightarrow> json option \<Rightarrow> bytes result" where
  "hexToBytes_val G v =
     (case v of
        None \<Rightarrow> hexToBytes None
      | Some JNull \<Rightarrow> hexToBytes None
      | Some (JStr s) \<Rightarrow> hexToBytes (Some s)
      | Some _ \<Rightarrow> Inl (JsExn (js ''TypeError'') (g_type G)))"

lemma hexToBytes_val_str [simp]: "hexToBytes_val G (Some (JStr s)) = hexToBytes (Some s)"
  by (simp add: hexToBytes_val_def)

interpretation hex: codec "\<lambda>_ :: bytes. True" bytesToHex "\<lambda>h. hexToBytes (Some h)"
  by unfold_locales simp

interpretation utf8: codec well_formed utf8_encode "\<lambda>b. Inr (utf8_decode b) :: jsstr result"
  by unfold_locales (simp add: utf8_decode_encode)

interpretation json: codec json_ok json_stringify "parse_json syntax_msg" for syntax_msg
  by unfold_locales (simp add: parse_json_def json_parse_stringify)

interpretation text_hex: codec_chain well_formed utf8_encode "\<lambda>b. Inr (utf8_decode b) :: jsstr result"
    "\<lambda>_ :: bytes. True" bytesToHex "\<lambda>h. hexToBytes (Some h)"
  by unfold_locales simp

interpretation json_text: codec_chain json_ok json_stringify "parse_json syntax_msg"
    well_formed utf8_encode "\<lambda>b. Inr (utf8_decode b) :: jsstr result" for syntax_msg
  by unfold_locales (simp add: well_formed_stringify)

lemma parse_utf8_stringify [simp]:
  "json_ok v \<Longrightarrow> parse_json m (utf8_decode (utf8_encode (json_stringify v))) = Inr v"
  using json_text.chain_dec_enc [of v m] by (simp only: sum.case)

lemma json_to_hex_inj: "json_ok v \<Longrightarrow> json_ok w \<Longrightarrow> json_to_hex v = json_to_hex w \<Longrightarrow> v = w"
  unfolding json_to_hex_def
  by (metis hex.enc_inj parse_utf8_stringify sum.inject(2))

end
