(* ===== verification/Protocol.thy ===== *)
theory Protocol
  imports Wire Evm "HOL-Library.Signed_Division"
begin

text \<open>
  \<^verbatim>\<open>typescript/src/shared/protocol.ts\<close>: the terms of a stream and their commitment, the fixed-point
  rate, the accrual, and the digests that are signed.

  \<^verbatim>\<open>viem\<close> and \<^verbatim>\<open>eciesjs\<close> are libraries the code only calls: a parameter, the record \<open>viem\<close>.
  A \<^verbatim>\<open>Hex\<close> is a string, a \<^verbatim>\<open>bigint\<close> an \<open>int\<close>.  What the code relies on is the locale
  \<open>viem_abi\<close>: the ABI specification for static types and keccak-256 of the bytes a hex string
  denotes.
\<close>

section \<open>The libraries\<close>

datatype abi_type = AAddress | AUint nat | ABytes32

datatype abi_value = AHex jsstr | ABig int

record viem =
  v_isAddress :: "jsstr \<Rightarrow> bool"
  v_toBytes :: "jsstr \<Rightarrow> bytes"
  v_keccak_bytes :: "bytes \<Rightarrow> jsstr"
  v_keccak_hex :: "jsstr \<Rightarrow> jsstr"
  v_encode :: "abi_type list \<Rightarrow> abi_value list \<Rightarrow> jsstr result"
  v_decode :: "abi_type list \<Rightarrow> jsstr \<Rightarrow> abi_value list result"
  v_recover :: "jsstr \<Rightarrow> jsstr \<Rightarrow> jsstr result"
  v_sign :: "jsstr \<Rightarrow> jsstr \<Rightarrow> jsstr result"
  ecies_decrypt :: "jsstr \<Rightarrow> bytes \<Rightarrow> bytes result"

section \<open>Constants\<close>

definition OP_TYPE_STREAM :: jsstr where
  "OP_TYPE_STREAM = js ''STREAM''"

definition OP_COMMAND_AUTH_WITHDRAW :: jsstr where
  "OP_COMMAND_AUTH_WITHDRAW = js ''AUTH_WITHDRAW''"

definition OP_COMMAND_AUTH_SETTLE :: jsstr where
  "OP_COMMAND_AUTH_SETTLE = js ''AUTH_SETTLE''"

definition withdraw_tag :: "viem \<Rightarrow> jsstr" where
  "withdraw_tag V = v_keccak_bytes V (v_toBytes V (js ''SW_WITHDRAW_V1''))"

definition settle_tag :: "viem \<Rightarrow> jsstr" where
  "settle_tag V = v_keccak_bytes V (v_toBytes V (js ''SW_SETTLE_V1''))"

definition CALLER_AUTH_TAG :: "viem \<Rightarrow> jsstr" where
  "CALLER_AUTH_TAG V = v_keccak_bytes V (v_toBytes V (js ''SW_CALLER_AUTH_V1''))"

definition AUTH_TTL_SECONDS :: int where
  "AUTH_TTL_SECONDS = 600"

definition CALLER_AUTH_WINDOW_SECONDS :: int where
  "CALLER_AUTH_WINDOW_SECONDS = 300"

section \<open>Terms\<close>

definition TERMS_ABI :: "abi_type list" where
  "TERMS_ABI = [AAddress, AAddress, AAddress, AUint 256, AUint 256, AUint 64, ABytes32]"

record stream_terms =
  t_employer :: jsstr
  t_recipient :: jsstr
  t_token :: jsstr
  t_ratePerSecond :: int
  t_total :: int
  t_startTime :: int
  t_salt :: jsstr

definition terms_values :: "stream_terms \<Rightarrow> abi_value list" where
  "terms_values t = [AHex (t_employer t), AHex (t_recipient t), AHex (t_token t),
     ABig (t_ratePerSecond t), ABig (t_total t), ABig (t_startTime t), AHex (t_salt t)]"

definition encodeTerms :: "viem \<Rightarrow> stream_terms \<Rightarrow> jsstr result" where
  "encodeTerms V t = v_encode V TERMS_ABI (terms_values t)"

text \<open>The destructuring of the decoded tuple; a decoder that returned values of other types would
  make the accrual throw.\<close>

fun terms_of_values :: "abi_value list \<Rightarrow> stream_terms result" where
  "terms_of_values [AHex e, AHex r, AHex tok, ABig rate, ABig tot, ABig start, AHex salt] =
     Inr \<lparr>t_employer = e, t_recipient = r, t_token = tok, t_ratePerSecond = rate,
          t_total = tot, t_startTime = start, t_salt = salt\<rparr>"
| "terms_of_values _ = Inl (JsExn (js ''TypeError'') [])"

definition decodeTerms :: "viem \<Rightarrow> jsstr \<Rightarrow> stream_terms result" where
  "decodeTerms V h =
     (case v_decode V TERMS_ABI h of Inl e \<Rightarrow> Inl e | Inr vs \<Rightarrow> terms_of_values vs)"

definition commitTo :: "viem \<Rightarrow> stream_terms \<Rightarrow> jsstr result" where
  "commitTo V t = (case encodeTerms V t of Inl e \<Rightarrow> Inl e | Inr h \<Rightarrow> Inr (v_keccak_hex V h))"

section \<open>Rates and accrual\<close>

definition RATE_SCALE :: int where
  "RATE_SCALE = 10 ^ 12"

fun split_on :: "nat \<Rightarrow> jsstr \<Rightarrow> jsstr list" where
  "split_on c [] = [[]]"
| "split_on c (x # s) =
     (if x = c then [] # split_on c s
      else case split_on c s of [] \<Rightarrow> [[x]] | p # ps \<Rightarrow> (x # p) # ps)"

definition to_bigint :: "jsstr \<Rightarrow> int result" where
  "to_bigint s = (case bigint_of_string s of
     None \<Rightarrow> Inl (JsExn (js ''SyntaxError'') (js ''Cannot convert '' @ s @ js '' to a BigInt''))
   | Some i \<Rightarrow> Inr i)"

definition toScaledRate :: "jsstr \<Rightarrow> int result" where
  "toScaledRate raw =
     (let parts = split_on 46 raw;
          whole = hd parts;
          frac = (case tl parts of [] \<Rightarrow> [] | f # _ \<Rightarrow> f);
          fracPadded = take 12 (frac @ replicate 12 48)
      in case to_bigint whole of Inl e \<Rightarrow> Inl e
         | Inr w \<Rightarrow>
            (case to_bigint (if fracPadded = [] then js ''0'' else fracPadded) of Inl e \<Rightarrow> Inl e
             | Inr f \<Rightarrow> Inr (w * RATE_SCALE + f)))"

definition ratePerDayToScaled :: "int \<Rightarrow> int" where
  "ratePerDayToScaled rawUnitsPerDay = (rawUnitsPerDay * RATE_SCALE) sdiv 86400"

definition accruedAt :: "stream_terms \<Rightarrow> int \<Rightarrow> int" where
  "accruedAt terms nowSeconds =
     (let elapsed = (if nowSeconds > t_startTime terms then nowSeconds - t_startTime terms else 0);
          accrued = (t_ratePerSecond terms * elapsed) sdiv RATE_SCALE
      in if accrued < t_total terms then accrued else t_total terms)"

section \<open>Digests\<close>

record auth_params =
  a_tag :: jsstr
  a_chainId :: int
  a_vault :: jsstr
  a_streamId :: int
  a_commitment :: jsstr
  a_cumulativeAccrued :: int
  a_deadline :: int

definition AUTH_ABI :: "abi_type list" where
  "AUTH_ABI = [ABytes32, AUint 256, AAddress, AUint 256, ABytes32, AUint 256, AUint 256]"

definition buildAuthDigest :: "viem \<Rightarrow> auth_params \<Rightarrow> jsstr result" where
  "buildAuthDigest V p =
     (case v_encode V AUTH_ABI
             [AHex (a_tag p), ABig (a_chainId p), AHex (a_vault p), ABig (a_streamId p),
              AHex (to_lower (a_commitment p)), ABig (a_cumulativeAccrued p), ABig (a_deadline p)] of
        Inl e \<Rightarrow> Inl e | Inr h \<Rightarrow> Inr (v_keccak_hex V h))"

record challenge_params =
  c_chainId :: int
  c_vault :: jsstr
  c_streamId :: int
  c_commitment :: jsstr
  c_purpose :: jsstr
  c_issuedAt :: int

definition CHALLENGE_ABI :: "abi_type list" where
  "CHALLENGE_ABI = [ABytes32, AUint 256, AAddress, AUint 256, ABytes32, ABytes32, AUint 256]"

definition buildCallerChallenge :: "viem \<Rightarrow> challenge_params \<Rightarrow> jsstr result" where
  "buildCallerChallenge V p =
     (case v_encode V CHALLENGE_ABI
             [AHex (CALLER_AUTH_TAG V), ABig (c_chainId p), AHex (c_vault p), ABig (c_streamId p),
              AHex (to_lower (c_commitment p)), AHex (c_purpose p), ABig (c_issuedAt p)] of
        Inl e \<Rightarrow> Inl e | Inr h \<Rightarrow> Inr (v_keccak_hex V h))"

end
