(* ===== verification/Framework.thy ===== *)
theory Framework
  imports Wire
begin

text \<open>
  \<^verbatim>\<open>typescript/src/base/types.ts\<close>: the registry that maps (opType, opCommand) pairs to
  handlers.  A framework is its list of registrations, in the order of the calls of \<^verbatim>\<open>handle\<close>; the
  type of a handler is a parameter.  \<^verbatim>\<open>lookup\<close> is called with values that come out of JSON, so it
  takes JSON values: the call of \<^verbatim>\<open>toLowerCase\<close> on another value than a string throws.

  The specification of the registry is \<open>plain_lookup\<close>, a search over the plain identifiers;
  \<open>lookup_handle_all\<close> is the refinement.
\<close>

section \<open>Wire types\<close>

type_synonym handler_result = "jsstr option \<times> nat \<times> jsstr option"

definition fail :: "jsstr \<Rightarrow> handler_result" where
  "fail m = (None, 0, Some m)"

type_synonym 'h framework = "(jsstr \<times> jsstr \<times> 'h) list"

definition EMPTY_BYTES32 :: jsstr where
  "EMPTY_BYTES32 = bytesToHex (replicate 32 0)"

text \<open>The constant is \<^verbatim>\<open>stringToBytes32Hex("")\<close>.\<close>

lemma EMPTY_BYTES32_eq: "stringToBytes32Hex [] = Inr EMPTY_BYTES32"
  by (simp add: stringToBytes32Hex_def EMPTY_BYTES32_def utf8_encode_ascii)

section \<open>Operations\<close>

text \<open>\<^verbatim>\<open>handle(opType, opCommand, handler)\<close>; an identifier longer than 32 bytes throws.\<close>

definition handle :: "jsstr \<Rightarrow> jsstr \<Rightarrow> 'h \<Rightarrow> 'h framework \<Rightarrow> 'h framework result" where
  "handle opType opCommand handler fw =
     (case stringToBytes32Hex opType of
        Inl e \<Rightarrow> Inl e
      | Inr t \<Rightarrow>
         (case stringToBytes32Hex opCommand of
            Inl e \<Rightarrow> Inl e
          | Inr c \<Rightarrow> Inr (fw @ [(t, c, handler)])))"

text \<open>\<^verbatim>\<open>normalize(h)\<close>\<close>

definition normalize_id :: "engine \<Rightarrow> json \<Rightarrow> jsstr result" where
  "normalize_id G h =
     (if falsy h then Inr EMPTY_BYTES32
      else case h of
        JStr s \<Rightarrow>
          (let lower = to_lower s in
           Inr (if starts_with lower (js ''0x'') then lower else js ''0x'' @ lower))
      | _ \<Rightarrow> Inl (JsExn (js ''TypeError'') (g_type G)))"

text \<open>The two loops of \<^verbatim>\<open>lookup\<close>: the first registration that matches.\<close>

fun first_match :: "jsstr \<Rightarrow> jsstr \<Rightarrow> 'h framework \<Rightarrow> 'h option" where
  "first_match t c [] = None"
| "first_match t c ((regType, regCmd, handler) # fw) =
     (if regType = t \<and> regCmd = c then Some handler else first_match t c fw)"

definition lookup :: "engine \<Rightarrow> json \<Rightarrow> json \<Rightarrow> 'h framework \<Rightarrow> 'h option result" where
  "lookup G opType opCommand fw =
     (case normalize_id G opType of
        Inl e \<Rightarrow> Inl e
      | Inr t \<Rightarrow>
         (case normalize_id G opCommand of
            Inl e \<Rightarrow> Inl e
          | Inr c \<Rightarrow>
              Inr (case first_match t c fw of
                     Some h \<Rightarrow> Some h
                   | None \<Rightarrow> first_match t EMPTY_BYTES32 fw)))"

section \<open>Identifiers\<close>

text \<open>
  The identifiers a bytes32 can carry without loss: no lone surrogate, at most 32 bytes of UTF-8,
  and no trailing NUL, which the padding would swallow.
\<close>

definition ident_ok :: "jsstr \<Rightarrow> bool" where
  "ident_ok s \<longleftrightarrow> well_formed s \<and> length (utf8_encode s) \<le> 32 \<and>
     (utf8_encode s \<noteq> [] \<longrightarrow> last (utf8_encode s) \<noteq> 0)"

definition bytes32_of :: "jsstr \<Rightarrow> jsstr" where
  "bytes32_of s = bytesToHex (utf8_encode s @ replicate (32 - length (utf8_encode s)) 0)"

lemma stringToBytes32Hex_ok: "length (utf8_encode s) \<le> 32 \<Longrightarrow> stringToBytes32Hex s = Inr (bytes32_of s)"
  by (simp add: stringToBytes32Hex_def bytes32_of_def Let_def)

lemma strip_zeros_pad: "b = [] \<or> last b \<noteq> 0 \<Longrightarrow> strip_zeros (b @ replicate n 0) = b"
proof -
  assume b: "b = [] \<or> last b \<noteq> 0"
  have "dropWhile (\<lambda>x. x = 0) (replicate n 0 @ rev b) = rev b"
    using b by (induction n) (auto simp: dropWhile_eq_self_iff hd_rev)
  then show ?thesis by (simp add: strip_zeros_def)
qed

lemma bytes32_of_inj:
  assumes "ident_ok s" "ident_ok t" "bytes32_of s = bytes32_of t"
  shows "s = t"
proof -
  have "utf8_encode u = strip_zeros (utf8_encode u @ replicate (32 - length (utf8_encode u)) 0)"
    if "ident_ok u" for u
    using that by (subst strip_zeros_pad) (auto simp: ident_ok_def)
  with assms have "utf8_encode s = utf8_encode t"
    by (metis bytes32_of_def hexToBytes_bytesToHex sum.inject(2))
  with assms(1,2) show ?thesis by (metis ident_ok_def utf8_decode_encode)
qed

lemma ident_ok_Nil [simp]: "ident_ok []"
  by (simp add: ident_ok_def utf8_encode_ascii ascii_well_formed)

lemma bytes32_of_Nil: "bytes32_of [] = EMPTY_BYTES32"
  by (simp add: bytes32_of_def EMPTY_BYTES32_def utf8_encode_ascii)

lemma ident_ok_js:
  assumes "list_all (\<lambda>c. of_char c < (128 :: nat) \<and> c \<noteq> CHR 0x00) s" "length s \<le> 32"
  shows "ident_ok (js s)"
proof -
  have a: "ascii (js s)" using assms(1) by (intro ascii_js) (simp add: list_all_iff)
  have "(of_nat (last (js s)) :: byte) \<noteq> 0" if "s \<noteq> []"
  proof -
    have "last (js s) = of_char (last s)" using that by (simp add: js_def last_map)
    moreover have "last s \<noteq> CHR 0x00" using assms(1) that by (auto simp: list_all_iff)
    then have "(of_char (last s) :: nat) \<noteq> of_char (CHR 0x00)" by (simp only: of_char_eq_iff simp_thms)
    ultimately have "last (js s) \<noteq> 0" "last (js s) < 256" by simp_all
    then show ?thesis by (metis unat_of_nat_byte unsigned_0)
  qed
  with a assms(2) show ?thesis
    by (auto simp: ident_ok_def ascii_well_formed utf8_encode_ascii last_map)
qed

section \<open>What a lookup finds\<close>

text \<open>A spelling of a hex identifier: any case, with or without the prefix.\<close>

definition spells :: "jsstr \<Rightarrow> jsstr \<Rightarrow> bool" where
  "spells h s \<longleftrightarrow> to_lower h = bytes32_of s \<or> js ''0x'' @ to_lower h = bytes32_of s"

lemma to_lower_concat_hex [simp]: "to_lower (concat (map byte_hex bs)) = concat (map byte_hex bs)"
  by (induction bs) (simp_all add: byte_hex_def to_lower_def to_lower1_def hex_char_def)

lemma to_lower_bytesToHex [simp]: "to_lower (bytesToHex bs) = bytesToHex bs"
  by (simp add: bytesToHex_def) (simp add: to_lower_def to_lower1_def js_Cons)

lemma starts_with_bytesToHex [simp]: "starts_with (bytesToHex bs) (js ''0x'')"
  by (simp add: starts_with_def bytesToHex_def)

lemma spells_self [simp]: "spells (bytes32_of s) s"
  by (simp add: spells_def bytes32_of_def)

lemma spells_drop [simp]: "spells (drop 2 (bytes32_of s)) s"
  by (simp add: spells_def bytes32_of_def bytesToHex_def del: map_append concat_append)

text \<open>Two hex digits are never \<^verbatim>\<open>0x\<close>, so a spelling without prefix is not mistaken for one with it.\<close>

lemma concat_byte_hex_no_0x: "\<not> starts_with (concat (map byte_hex bs)) (js ''0x'')"
proof (cases bs)
  case (Cons b bs')
  have "hex_char d \<noteq> 120" if "d < 16" for d using that by (simp add: hex_char_def)
  with Cons show ?thesis by (simp add: starts_with_def byte_hex_def js_Cons)
qed (simp add: starts_with_def js_Cons)

lemma normalize_spells:
  assumes "spells h s"
  shows "normalize_id G (JStr h) = Inr (bytes32_of s)"
  using assms unfolding spells_def
proof
  assume a: "to_lower h = bytes32_of s"
  then have "h \<noteq> []" by (auto simp: bytes32_of_def bytesToHex_def)
  with a show ?thesis by (simp add: normalize_id_def falsy_def bytes32_of_def)
next
  assume a: "js ''0x'' @ to_lower h = bytes32_of s"
  let ?b = "utf8_encode s @ replicate (32 - length (utf8_encode s)) 0"
  have low: "to_lower h = concat (map byte_hex ?b)"
    using a by (simp add: bytes32_of_def bytesToHex_def)
  have "length h = 2 * length ?b"
    using arg_cong [where f = length, OF low] by (simp only: length_to_lower length_concat_byte_hex)
  then have "h \<noteq> []" by auto
  with a low concat_byte_hex_no_0x [of ?b] show ?thesis
    by (simp add: normalize_id_def falsy_def)
qed

lemma normalize_empty: "normalize_id G (JStr []) = Inr (bytes32_of [])"
  by (simp add: normalize_id_def falsy_def bytes32_of_Nil)

text \<open>The specification: a search over the plain identifiers, exact match first.\<close>

type_synonym 'h registration = "jsstr \<times> jsstr \<times> 'h"

definition plain_lookup :: "jsstr \<Rightarrow> jsstr \<Rightarrow> 'h registration list \<Rightarrow> 'h option" where
  "plain_lookup t c regs =
     (case find (\<lambda>r. fst r = t \<and> fst (snd r) = c) regs of
        Some r \<Rightarrow> Some (snd (snd r))
      | None \<Rightarrow> map_option (snd \<circ> snd) (find (\<lambda>r. fst r = t \<and> fst (snd r) = []) regs))"

text \<open>A run of registrations.\<close>

fun handle_all :: "'h registration list \<Rightarrow> 'h framework \<Rightarrow> 'h framework result" where
  "handle_all [] fw = Inr fw"
| "handle_all ((t, c, h) # regs) fw =
     (case handle t c h fw of Inl e \<Rightarrow> Inl e | Inr fw' \<Rightarrow> handle_all regs fw')"

definition reg_ok :: "'h registration \<Rightarrow> bool" where
  "reg_ok r \<longleftrightarrow> ident_ok (fst r) \<and> ident_ok (fst (snd r))"

definition wire_reg :: "'h registration \<Rightarrow> jsstr \<times> jsstr \<times> 'h" where
  "wire_reg r = (bytes32_of (fst r), bytes32_of (fst (snd r)), snd (snd r))"

lemma handle_ok:
  "ident_ok t \<Longrightarrow> ident_ok c \<Longrightarrow> handle t c h fw = Inr (fw @ [wire_reg (t, c, h)])"
  by (simp add: handle_def wire_reg_def ident_ok_def stringToBytes32Hex_ok)

lemma handle_all_ok:
  "list_all reg_ok regs \<Longrightarrow> handle_all regs fw = Inr (fw @ map wire_reg regs)"
  by (induction regs arbitrary: fw) (auto simp: reg_ok_def handle_ok)

lemma first_match_wire:
  "list_all reg_ok regs \<Longrightarrow> ident_ok t \<Longrightarrow> ident_ok c \<Longrightarrow>
   first_match (bytes32_of t) (bytes32_of c) (map wire_reg regs)
     = map_option (snd \<circ> snd) (find (\<lambda>r. fst r = t \<and> fst (snd r) = c) regs)"
proof (induction regs)
  case (Cons r regs)
  then show ?case
    by (cases r) (auto simp: wire_reg_def reg_ok_def dest: bytes32_of_inj)
qed simp

lemma lookup_wire:
  assumes "list_all reg_ok regs" "ident_ok t" "ident_ok c"
    and "normalize_id G ht = Inr (bytes32_of t)" "normalize_id G hc = Inr (bytes32_of c)"
  shows "lookup G ht hc (map wire_reg regs) = Inr (plain_lookup t c regs)"
  using assms first_match_wire [OF assms(1,2) ident_ok_Nil]
  by (simp add: lookup_def first_match_wire plain_lookup_def bytes32_of_Nil split: option.splits)

lemma lookup_throws:
  "(\<exists>e. lookup G t c fw = Inl e) \<longleftrightarrow>
   \<not> falsy t \<and> (\<forall>s. t \<noteq> JStr s) \<or> \<not> falsy c \<and> (\<forall>s. c \<noteq> JStr s)"
proof -
  have n: "(\<exists>e. normalize_id G h = Inl e) \<longleftrightarrow> \<not> falsy h \<and> (\<forall>s. h \<noteq> JStr s)" for h
    by (cases h) (simp_all add: normalize_id_def Let_def)
  show ?thesis unfolding n [symmetric] lookup_def by (auto split: sum.splits)
qed

section \<open>The registry theorem\<close>

text \<open>C30: dispatch is search over the plain names.  After any registrations, under identifiers that fit
  a bytes32, a lookup with any spelling of the hex identifiers (upper or lower case, with or without
  the \<^verbatim>\<open>0x\<close>, or nothing at all for the empty command) finds exactly the handler that a search over
  the plain strings finds: the first one registered for the pair, else the first one registered for
  the type with the empty command, else none.  Distinct identifiers never collide.\<close>

theorem lookup_handle_all:
  assumes "list_all reg_ok regs" "ident_ok t" "ident_ok c"
    and "spells ht t" "spells hc c \<or> c = [] \<and> hc = []"
  shows "\<exists>fw. handle_all regs [] = Inr fw \<and>
     lookup G (JStr ht) (JStr hc) fw = Inr (plain_lookup t c regs)"
proof -
  have "normalize_id G (JStr hc) = Inr (bytes32_of c)"
    using assms(5) normalize_spells normalize_empty by blast
  with lookup_wire [OF assms(1-3) normalize_spells [OF assms(4)]] handle_all_ok [OF assms(1)]
  show ?thesis by simp
qed

lemma lookup_handle_all_witness:
  "\<exists>fw. handle_all [(js ''STREAM'', [], 1 :: nat), (js ''STREAM'', js ''PING'', 2)] [] = Inr fw \<and>
     lookup demo_engine (JStr (bytes32_of (js ''STREAM''))) (JStr (drop 2 (bytes32_of (js ''PING'')))) fw = Inr (Some 2)"
proof -
  let ?regs = "[(js ''STREAM'', [], 1 :: nat), (js ''STREAM'', js ''PING'', 2)]"
  have i: "ident_ok (js ''STREAM'')" "ident_ok (js ''PING'')" by (simp_all add: ident_ok_js)
  have "\<exists>fw. handle_all ?regs [] = Inr fw \<and>
     lookup demo_engine (JStr (bytes32_of (js ''STREAM''))) (JStr (drop 2 (bytes32_of (js ''PING'')))) fw
       = Inr (plain_lookup (js ''STREAM'') (js ''PING'') ?regs)"
    using i by (intro lookup_handle_all) (simp_all add: reg_ok_def)
  then show ?thesis by (simp add: plain_lookup_def)
qed

end
