(* ===== verification/StreamHandlers.thy ===== *)
theory StreamHandlers
  imports Protocol Framework "HOL-Library.List_Lexorder"
begin

text \<open>
  \<^verbatim>\<open>typescript/src/app/streamHandlers.ts\<close>: the handler that authorizes a withdrawal or a
  settlement.  It is stateless but for a counter, which is passed explicitly.  A handler returns
  \<^verbatim>\<open>[data, status, error]\<close>; a rejected promise is \<open>Inl\<close>.  Each numbered part of
  \<^verbatim>\<open>authorize\<close> is a definition that returns the error text of its early return, or what the next
  part needs.  The environment (keys, clock) is an argument.  The message is a JSON value: the server
  passes \<^verbatim>\<open>originalMessage\<close> on unchecked.
\<close>

record stream_env =
  env_ecies :: "jsstr option"
  env_signer :: "jsstr option"
  env_now_ms :: int

record auth_request =
  r_streamId :: jsstr
  r_vault :: jsstr
  r_chainId :: jsstr
  r_commitment :: jsstr
  r_encryptedTerms :: jsstr
  r_issuedAt :: jsstr
  r_callerSignature :: jsstr

definition REQUIRED_FIELDS :: "jsstr list" where
  "REQUIRED_FIELDS = [js ''streamId'', js ''vault'', js ''chainId'', js ''commitment'',
     js ''encryptedTerms'', js ''issuedAt'', js ''callerSignature'']"

section \<open>1. Decode\<close>

definition str_prop :: "json \<Rightarrow> jsstr \<Rightarrow> jsstr option" where
  "str_prop v k = (case get_prop v k of Some (JStr s) \<Rightarrow> Some s | _ \<Rightarrow> None)"

definition the_str :: "json \<Rightarrow> jsstr \<Rightarrow> jsstr" where
  "the_str v k = (case str_prop v k of Some s \<Rightarrow> s | None \<Rightarrow> [])"

definition decode_request :: "engine \<Rightarrow> json \<Rightarrow> jsstr + auth_request" where
  "decode_request G msg =
     (let parsed = (case hexToBytes_val G (Some msg) of Inl e \<Rightarrow> Inl e
                    | Inr raw \<Rightarrow> parse_json (g_syntax G) (utf8_decode raw))
      in case parsed of
        Inl e \<Rightarrow> Inl (js ''decoding request: '' @ exn_message e)
      | Inr (JObj ms) \<Rightarrow>
          (let unknown = sort (filter (\<lambda>k. k \<notin> set REQUIRED_FIELDS) (map fst ms)) in
           if unknown \<noteq> [] then
             Inl (js ''decoding request: unknown field \"'' @ hd unknown @ js ''\"'')
           else case find (\<lambda>f. str_prop (JObj ms) f = None) REQUIRED_FIELDS of
             Some f \<Rightarrow> Inl (js ''decoding request: missing or non-string field \"'' @ f @ js ''\"'')
           | None \<Rightarrow>
               Inr \<lparr>r_streamId = the_str (JObj ms) (js ''streamId''),
                    r_vault = the_str (JObj ms) (js ''vault''),
                    r_chainId = the_str (JObj ms) (js ''chainId''),
                    r_commitment = the_str (JObj ms) (js ''commitment''),
                    r_encryptedTerms = the_str (JObj ms) (js ''encryptedTerms''),
                    r_issuedAt = the_str (JObj ms) (js ''issuedAt''),
                    r_callerSignature = the_str (JObj ms) (js ''callerSignature'')\<rparr>)
      | Inr _ \<Rightarrow> Inl (js ''decoding request: expected a JSON object''))"

section \<open>2. Decrypt and verify the commitment\<close>

definition present :: "jsstr option \<Rightarrow> jsstr option" where
  "present v = (case v of Some (c # s) \<Rightarrow> Some (c # s) | _ \<Rightarrow> None)"

definition tee_keys :: "stream_env \<Rightarrow> (jsstr \<times> jsstr) option" where
  "tee_keys env =
     (case (present (env_ecies env), present (env_signer env)) of
        (Some k, Some s) \<Rightarrow> Some (k, s) | _ \<Rightarrow> None)"

definition open_terms :: "viem \<Rightarrow> jsstr \<Rightarrow> auth_request \<Rightarrow> jsstr + (jsstr \<times> stream_terms)" where
  "open_terms V eciesKey req =
     (let plain = (case hexToBytes (Some (r_encryptedTerms req)) of Inl e \<Rightarrow> Inl e
                   | Inr c \<Rightarrow> ecies_decrypt V eciesKey c)
      in case plain of
        Inl _ \<Rightarrow> Inl (js ''failed to decrypt terms'')
      | Inr p \<Rightarrow>
          (let termsHex = bytesToHex p in
           if v_keccak_hex V termsHex \<noteq> to_lower (r_commitment req) then
             Inl (js ''terms do not match commitment'')
           else case decodeTerms V termsHex of
             Inl _ \<Rightarrow> Inl (js ''terms blob is malformed'')
           | Inr terms \<Rightarrow> Inr (termsHex, terms)))"

section \<open>2b. Authenticate the caller\<close>

definition now_seconds :: "stream_env \<Rightarrow> int" where
  "now_seconds env = env_now_ms env div 1000"

definition recover_caller :: "viem \<Rightarrow> auth_request \<Rightarrow> jsstr \<Rightarrow> int \<Rightarrow> jsstr result" where
  "recover_caller V req tag issuedAt =
     (case to_bigint (r_chainId req) of Inl e \<Rightarrow> Inl e
      | Inr chainId \<Rightarrow>
       (case to_bigint (r_streamId req) of Inl e \<Rightarrow> Inl e
        | Inr streamId \<Rightarrow>
         (case buildCallerChallenge V \<lparr>c_chainId = chainId, c_vault = r_vault req,
                 c_streamId = streamId, c_commitment = r_commitment req, c_purpose = tag,
                 c_issuedAt = issuedAt\<rparr> of Inl e \<Rightarrow> Inl e
          | Inr challenge \<Rightarrow> v_recover V challenge (r_callerSignature req))))"

definition permitted :: "viem \<Rightarrow> jsstr \<Rightarrow> stream_terms \<Rightarrow> jsstr list" where
  "permitted V tag terms =
     (if tag = settle_tag V then [to_lower (t_employer terms)]
      else [to_lower (t_recipient terms), to_lower (t_employer terms)])"

definition authenticate ::
    "viem \<Rightarrow> int \<Rightarrow> auth_request \<Rightarrow> jsstr \<Rightarrow> stream_terms \<Rightarrow> jsstr + jsstr" where
  "authenticate V nowSec req tag terms =
     (case to_bigint (r_issuedAt req) of
        Inl _ \<Rightarrow> Inl (js ''issuedAt must be a unix-seconds integer'')
      | Inr issuedAt \<Rightarrow>
          (let skew = (if issuedAt > nowSec then issuedAt - nowSec else nowSec - issuedAt) in
           if skew > CALLER_AUTH_WINDOW_SECONDS then Inl (js ''caller authorization expired'')
           else case recover_caller V req tag issuedAt of
             Inl _ \<Rightarrow> Inl (js ''malformed caller signature'')
           | Inr caller \<Rightarrow>
               (let c = to_lower caller in
                if c \<notin> set (permitted V tag terms) then
                  Inl (js ''caller is not a party to this stream'')
                else Inr c)))"

section \<open>3, 4. Accrue, sign and respond\<close>

definition request_digest :: "viem \<Rightarrow> auth_request \<Rightarrow> jsstr \<Rightarrow> int \<Rightarrow> int \<Rightarrow> jsstr result" where
  "request_digest V req tag cumulativeAccrued deadline =
     (case to_bigint (r_chainId req) of Inl e \<Rightarrow> Inl e
      | Inr chainId \<Rightarrow>
       (case to_bigint (r_streamId req) of Inl e \<Rightarrow> Inl e
        | Inr streamId \<Rightarrow>
           buildAuthDigest V \<lparr>a_tag = tag, a_chainId = chainId, a_vault = r_vault req,
                 a_streamId = streamId, a_commitment = r_commitment req,
                 a_cumulativeAccrued = cumulativeAccrued, a_deadline = deadline\<rparr>))"

definition sign_auth ::
    "viem \<Rightarrow> jsstr \<Rightarrow> auth_request \<Rightarrow> jsstr \<Rightarrow> int \<Rightarrow> int \<Rightarrow> jsstr result" where
  "sign_auth V signerKey req tag cumulativeAccrued deadline =
     (case request_digest V req tag cumulativeAccrued deadline of Inl e \<Rightarrow> Inl e
      | Inr digest \<Rightarrow> v_sign V signerKey digest)"

definition auth_response :: "auth_request \<Rightarrow> int \<Rightarrow> int \<Rightarrow> jsstr \<Rightarrow> jsstr \<Rightarrow> json" where
  "auth_response req cumulativeAccrued deadline signature termsHex =
     JObj [(js ''streamId'', JStr (r_streamId req)),
           (js ''cumulativeAccrued'', JStr (js_of_int cumulativeAccrued)),
           (js ''deadline'', JStr (js_of_int deadline)),
           (js ''signature'', JStr signature),
           (js ''terms'', JStr termsHex)]"

definition authorize ::
    "viem \<Rightarrow> engine \<Rightarrow> stream_env \<Rightarrow> json \<Rightarrow> jsstr \<Rightarrow> nat \<Rightarrow> handler_result result \<times> nat" where
  "authorize V G env msg tag authCount =
     (case decode_request G msg of
        Inl m \<Rightarrow> (Inr (fail m), authCount)
      | Inr req \<Rightarrow>
       (case tee_keys env of
          None \<Rightarrow> (Inr (fail (js ''TEE keys not configured (TEE_ECIES_PRIVKEY / TEE_SIGNER_PRIVKEY)'')),
                   authCount)
        | Some (eciesKey, signerKey) \<Rightarrow>
         (case open_terms V eciesKey req of
            Inl m \<Rightarrow> (Inr (fail m), authCount)
          | Inr (termsHex, terms) \<Rightarrow>
            (let nowSec = now_seconds env in
             case authenticate V nowSec req tag terms of
               Inl m \<Rightarrow> (Inr (fail m), authCount)
             | Inr _ \<Rightarrow>
               (let cumulativeAccrued = accruedAt terms nowSec;
                    deadline = nowSec + AUTH_TTL_SECONDS
                in case sign_auth V signerKey req tag cumulativeAccrued deadline of
                     Inl e \<Rightarrow> (Inl e, authCount)
                   | Inr signature \<Rightarrow>
                       (Inr (Some (json_to_hex (auth_response req cumulativeAccrued deadline
                                                 signature termsHex)), 1, None),
                        authCount + 1))))))"

definition reportStreamState :: "nat \<Rightarrow> (jsstr \<times> json) list" where
  "reportStreamState authCount = [(js ''authCount'', JNum (int authCount) 0)]"

end
