(* ===== verification/Accrual.thy ===== *)
theory Accrual
  imports Protocol
begin

text \<open>
  The fixed-point arithmetic of \<^verbatim>\<open>protocol.ts\<close>: what a decimal rate string denotes, what the
  truncations of a daily rate and of an accrual can lose, and how the accrual behaves over time.
\<close>

section \<open>Decimal strings\<close>

lemma split_on_none: "c \<notin> set s \<Longrightarrow> split_on c s = [s]"
  by (induction s) auto

lemma split_on_sep: "c \<notin> set s \<Longrightarrow> split_on c (s @ c # t) = s # split_on c t"
  by (induction s) auto

lemma digits_no_dot: "list_all is_digit s \<Longrightarrow> 46 \<notin> set s"
  by (auto simp: list_all_iff is_digit_def)

lemma to_bigint_digits: "list_all is_digit s \<Longrightarrow> to_bigint s = Inr (int (dec_val s))"
  by (simp add: to_bigint_def bigint_of_digits)

lemma padded_value:
  assumes "list_all is_digit f"
  shows "dec_val (take 12 (f @ replicate 12 48)) = dec_val f * 10 ^ 12 div 10 ^ length f"
proof -
  have "list_all is_digit (f @ replicate 12 48)"
    using assms by (simp add: is_digit_def list_all_iff)
  from dec_val_take [OF this, of 12] show ?thesis by (simp add: dec_val_zeros)
qed

lemma padded_digits: "list_all is_digit f \<Longrightarrow> list_all is_digit (take 12 (f @ replicate 12 48))"
  by (auto simp: list_all_iff is_digit_def dest!: in_set_takeD)

lemma toScaledRate_decimal_parts:
  assumes "list_all is_digit w" "list_all is_digit f"
  shows "toScaledRate w = Inr (int (dec_val w) * RATE_SCALE)"
    and "toScaledRate (w @ 46 # f) = Inr (int (dec_val (w @ f)) * RATE_SCALE div 10 ^ length f)"
    and "length f \<le> 12 \<longrightarrow> toScaledRate (w @ 46 # f) = Inr (int (dec_val (w @ f)) * 10 ^ (12 - length f))"
    and "bigint_of_string x = None \<and> 46 \<notin> set x \<longrightarrow> (\<exists>e. toScaledRate (x @ 46 # f) = Inl e)"
proof -
  have ne: "take 12 (f @ replicate 12 48) \<noteq> []" by simp
  have split: "split_on 46 (w @ 46 # f) = [w, f]"
    using assms by (simp add: split_on_sep split_on_none digits_no_dot)
  have "dec_val (take 12 (replicate 12 48)) = 0"
    using padded_value [of "[]"] by simp
  then show "toScaledRate w = Inr (int (dec_val w) * RATE_SCALE)"
    using assms padded_digits [of "[]"]
    by (simp add: toScaledRate_def split_on_none digits_no_dot to_bigint_digits Let_def)
  have sum: "dec_val w * 10 ^ 12 + dec_val f * 10 ^ 12 div 10 ^ length f
      = dec_val (w @ f) * 10 ^ 12 div 10 ^ length f"
  proof -
    have "(dec_val f * 10 ^ 12 + (dec_val w * 10 ^ 12) * 10 ^ length f) div 10 ^ length f
        = dec_val w * 10 ^ 12 + dec_val f * 10 ^ 12 div 10 ^ length f"
      by (rule div_mult_self1) simp
    moreover have "dec_val (w @ f) * 10 ^ 12
        = dec_val f * 10 ^ 12 + (dec_val w * 10 ^ 12) * 10 ^ length f"
      by (simp add: dec_val_append algebra_simps)
    ultimately show ?thesis by simp
  qed
  show eq: "toScaledRate (w @ 46 # f) = Inr (int (dec_val (w @ f)) * RATE_SCALE div 10 ^ length f)"
  proof -
    have "toScaledRate (w @ 46 # f)
        = Inr (int (dec_val w) * RATE_SCALE + int (dec_val f * 10 ^ 12 div 10 ^ length f))"
      using assms ne unfolding toScaledRate_def split Let_def
      by (simp add: to_bigint_digits padded_digits padded_value del: take_append take_eq_Nil take_eq_Nil2)
    also have "int (dec_val w) * RATE_SCALE + int (dec_val f * 10 ^ 12 div 10 ^ length f)
        = int (dec_val w * 10 ^ 12 + dec_val f * 10 ^ 12 div 10 ^ length f)"
      by (simp add: RATE_SCALE_def)
    also have "\<dots> = int (dec_val (w @ f)) * RATE_SCALE div 10 ^ length f"
      unfolding sum by (simp add: RATE_SCALE_def zdiv_int)
    finally show ?thesis .
  qed
  show "length f \<le> 12 \<longrightarrow> toScaledRate (w @ 46 # f) = Inr (int (dec_val (w @ f)) * 10 ^ (12 - length f))"
  proof
    assume "length f \<le> 12"
    then have "(10 :: int) ^ 12 = 10 ^ (12 - length f) * 10 ^ length f"
      by (simp flip: power_add)
    then have "int (dec_val (w @ f)) * RATE_SCALE div 10 ^ length f
        = int (dec_val (w @ f)) * 10 ^ (12 - length f) * 10 ^ length f div 10 ^ length f"
      unfolding RATE_SCALE_def by (simp only: mult.assoc)
    then show "toScaledRate (w @ 46 # f) = Inr (int (dec_val (w @ f)) * 10 ^ (12 - length f))"
      unfolding eq by simp
  qed
  show "bigint_of_string x = None \<and> 46 \<notin> set x \<longrightarrow> (\<exists>e. toScaledRate (x @ 46 # f) = Inl e)"
    by (auto simp: toScaledRate_def split_on_sep to_bigint_def Let_def)
qed

text \<open>C8: \<^verbatim>\<open>toScaledRate\<close> reads a decimal \<^verbatim>\<open>whole.frac\<close> exactly: the result is the number
  the numeral denotes, times the scale, rounded down; up to twelve decimals nothing is lost.  A string
  whose whole part is no numeral is an error.\<close>

theorem toScaledRate_decimal:
  assumes "list_all is_digit w" "list_all is_digit f"
  shows "(toScaledRate w = Inr (int (dec_val w) * RATE_SCALE)) \<and>
    (toScaledRate (w @ 46 # f) = Inr (int (dec_val (w @ f)) * RATE_SCALE div 10 ^ length f)) \<and>
    (length f \<le> 12 \<longrightarrow> toScaledRate (w @ 46 # f) = Inr (int (dec_val (w @ f)) * 10 ^ (12 - length f))) \<and>
    (bigint_of_string x = None \<and> 46 \<notin> set x \<longrightarrow> (\<exists>e. toScaledRate (x @ 46 # f) = Inl e))"
  by (intro toScaledRate_decimal_parts [OF assms] conjI)

theorem toScaledRate_decimal_witness:
  "toScaledRate (js ''115'' @ 46 # js ''7407'') = Inr 115740700000000"
  using toScaledRate_decimal [of "js ''115''" "js ''7407''"]
  by (simp add: js_Cons is_digit_def dec_val_def RATE_SCALE_def)

section \<open>Accrual\<close>

lemma sdiv_nonneg: "0 \<le> a \<Longrightarrow> 0 < b \<Longrightarrow> a sdiv b = a div (b :: int)"
  by (cases "a = 0") (simp_all add: signed_divide_int_def)

lemma scale_pos [simp]: "0 < RATE_SCALE" "RATE_SCALE \<noteq> 0" "0 \<le> RATE_SCALE"
  by (simp_all add: RATE_SCALE_def)

definition elapsed_since :: "stream_terms \<Rightarrow> int \<Rightarrow> int" where
  "elapsed_since t now = max 0 (now - t_startTime t)"

lemma accruedAt_eq:
  "0 \<le> t_ratePerSecond t \<Longrightarrow>
     accruedAt t now = min (t_ratePerSecond t * elapsed_since t now div RATE_SCALE) (t_total t)"
  by (simp add: accruedAt_def elapsed_since_def Let_def min_def max_def sdiv_nonneg)

lemma elapsed_nonneg [simp]: "0 \<le> elapsed_since t now"
  by (simp add: elapsed_since_def)

lemma elapsed_mono: "now \<le> now' \<Longrightarrow> elapsed_since t now \<le> elapsed_since t now'"
  by (simp add: elapsed_since_def)

lemma floor_bounds:
  assumes "0 < c"
  shows "a div c * c \<le> a \<and> a < (a div c + 1) * (c :: int)"
proof -
  have "a = a div c * c + a mod c" by simp
  with pos_mod_bound [OF assms, of a] pos_mod_sign [OF assms, of a] show ?thesis
    unfolding distrib_right mult_1 by linarith
qed

lemma floor_add_le:
  assumes "0 < c"
  shows "(a + b) div c \<le> a div c + b div c + (1 :: int)"
proof -
  have "a mod c + b mod c < 2 * c"
    using assms pos_mod_bound [of c a] pos_mod_bound [of c b] by linarith
  moreover have "(a mod c + b mod c) div c * c \<le> a mod c + b mod c"
    using floor_bounds [OF assms] by blast
  ultimately have "(a mod c + b mod c) div c * c < 2 * c" by linarith
  then have "(a mod c + b mod c) div c < 2"
    using assms by (simp add: mult_less_cancel_right_pos)
  then show ?thesis by (simp add: div_add1_eq [of a b c])
qed

lemma accruedAt_meter_parts:
  assumes "0 \<le> t_ratePerSecond t" "0 \<le> t_total t"
  shows "0 \<le> accruedAt t now" "accruedAt t now \<le> t_total t"
    and "now \<le> t_startTime t \<longrightarrow> accruedAt t now = 0"
    and "now \<le> now' \<longrightarrow> accruedAt t now \<le> accruedAt t now'"
    and "accruedAt t now = t_total t \<and> now \<le> now' \<longrightarrow> accruedAt t now' = t_total t"
    and "t_startTime t \<le> now \<and> accruedAt t now < t_total t \<longrightarrow>
       accruedAt t now * RATE_SCALE \<le> t_ratePerSecond t * (now - t_startTime t) \<and>
       t_ratePerSecond t * (now - t_startTime t) < (accruedAt t now + 1) * RATE_SCALE"
    and "0 \<le> d \<longrightarrow>
       accruedAt t (now + d) \<le> accruedAt t now + t_ratePerSecond t * d div RATE_SCALE + 1"
proof -
  let ?r = "t_ratePerSecond t" let ?f = "\<lambda>n. ?r * elapsed_since t n div RATE_SCALE"
  note eq = accruedAt_eq [OF assms(1)]
  have f0: "0 \<le> ?f n" for n using assms(1) by (simp add: pos_imp_zdiv_nonneg_iff)
  have mono: "?f n \<le> ?f n'" if "n \<le> n'" for n n'
    using assms(1) elapsed_mono [OF that] by (intro zdiv_mono1 mult_left_mono) auto
  show "0 \<le> accruedAt t now" "accruedAt t now \<le> t_total t"
    using f0 [of now] assms(2) by (auto simp: eq)
  show "now \<le> t_startTime t \<longrightarrow> accruedAt t now = 0"
    using assms(2) by (simp add: eq elapsed_since_def)
  show "now \<le> now' \<longrightarrow> accruedAt t now \<le> accruedAt t now'"
    using mono unfolding eq by (blast intro: min.mono order_refl)
  show "accruedAt t now = t_total t \<and> now \<le> now' \<longrightarrow> accruedAt t now' = t_total t"
  proof
    assume a: "accruedAt t now = t_total t \<and> now \<le> now'"
    then have "?f now \<le> ?f now'" using mono by blast
    with a show "accruedAt t now' = t_total t" by (auto simp: eq min_def split: if_splits)
  qed
  show "t_startTime t \<le> now \<and> accruedAt t now < t_total t \<longrightarrow>
       accruedAt t now * RATE_SCALE \<le> ?r * (now - t_startTime t) \<and>
       ?r * (now - t_startTime t) < (accruedAt t now + 1) * RATE_SCALE"
  proof
    assume a: "t_startTime t \<le> now \<and> accruedAt t now < t_total t"
    let ?p = "?r * (now - t_startTime t)"
    have "accruedAt t now = ?p div RATE_SCALE"
      using a by (auto simp: eq min_def elapsed_since_def split: if_splits)
    then show "accruedAt t now * RATE_SCALE \<le> ?p \<and> ?p < (accruedAt t now + 1) * RATE_SCALE"
      using floor_bounds [OF scale_pos(1), of ?p] by simp
  qed
  show "0 \<le> d \<longrightarrow>
       accruedAt t (now + d) \<le> accruedAt t now + ?r * d div RATE_SCALE + 1"
  proof
    assume d: "0 \<le> d"
    then have "elapsed_since t (now + d) \<le> elapsed_since t now + d" by (simp add: elapsed_since_def)
    with assms(1) have "?f (now + d) \<le> (?r * elapsed_since t now + ?r * d) div RATE_SCALE"
      by (intro zdiv_mono1) (simp_all flip: distrib_left add: mult_left_mono)
    also have "\<dots> \<le> ?f now + ?r * d div RATE_SCALE + 1" by (rule floor_add_le) simp
    finally have "?f (now + d) \<le> ?f now + ?r * d div RATE_SCALE + 1" .
    moreover have "0 \<le> ?r * d div RATE_SCALE"
      using assms(1) d by (simp add: pos_imp_zdiv_nonneg_iff)
    ultimately show "accruedAt t (now + d) \<le> accruedAt t now + ?r * d div RATE_SCALE + 1"
      by (auto simp: eq min_def)
  qed
qed

definition demo_terms :: stream_terms where
  "demo_terms = \<lparr>t_employer = js ''0x01'', t_recipient = js ''0x02'', t_token = js ''0x03'',
     t_ratePerSecond = ratePerDayToScaled 10000000, t_total = 30000000, t_startTime = 1000,
     t_salt = []\<rparr>"

text \<open>C9: the accrual is a well-behaved meter.  For non-negative rate and total it is zero up to the
  start, never decreases, never exceeds the total and stays there once reached; while below the total
  it is the exact product of rate and elapsed time rounded down, and over any span it grows by at most
  the rate's share of that span, rounded up.\<close>

theorem accruedAt_meter:
  assumes "0 \<le> t_ratePerSecond t" "0 \<le> t_total t"
  shows "(0 \<le> accruedAt t now) \<and>
    (accruedAt t now \<le> t_total t) \<and>
    (now \<le> t_startTime t \<longrightarrow> accruedAt t now = 0) \<and>
    (now \<le> now' \<longrightarrow> accruedAt t now \<le> accruedAt t now') \<and>
    (accruedAt t now = t_total t \<and> now \<le> now' \<longrightarrow> accruedAt t now' = t_total t) \<and>
    (t_startTime t \<le> now \<and> accruedAt t now < t_total t \<longrightarrow>
       accruedAt t now * RATE_SCALE \<le> t_ratePerSecond t * (now - t_startTime t) \<and>
       t_ratePerSecond t * (now - t_startTime t) < (accruedAt t now + 1) * RATE_SCALE) \<and>
    (0 \<le> d \<longrightarrow>
       accruedAt t (now + d) \<le> accruedAt t now + t_ratePerSecond t * d div RATE_SCALE + 1)"
  by (intro accruedAt_meter_parts [OF assms] conjI)

theorem accruedAt_meter_witness:
  "accruedAt demo_terms 87400 \<le> accruedAt demo_terms 87400 + 0 \<and> accruedAt demo_terms 900 = 0"
  using accruedAt_meter [of demo_terms 900] accruedAt_meter [of demo_terms 87400 87400]
  by (simp add: demo_terms_def ratePerDayToScaled_def signed_divide_int_def RATE_SCALE_def)

lemma mult_floor_le:
  assumes "0 < c" "0 \<le> k"
  shows "a div c * k \<le> a * k div (c :: int)"
proof -
  have "a div c * c \<le> a" using floor_bounds [OF assms(1)] by blast
  then have "a div c * k * c \<le> a * k" using mult_right_mono [OF _ assms(2), of "a div c * c" a] by (simp add: mult_ac)
  then show ?thesis using zdiv_mono1 [of "a div c * k * c" "a * k" c] assms by simp
qed

lemma daily_rate_loss_parts:
  assumes "0 \<le> x" "0 \<le> s" "s \<le> 10 ^ 12"
    and "t_ratePerSecond t = ratePerDayToScaled x" "x * s div 86400 \<le> t_total t"
  shows "x * s div 86400 - 1 \<le> accruedAt t (t_startTime t + s)"
    and "accruedAt t (t_startTime t + s) \<le> x * s div 86400"
proof -
  let ?r = "x * RATE_SCALE div 86400"
  have "0 \<le> x * RATE_SCALE" using assms(1) by (simp add: RATE_SCALE_def)
  then have r: "t_ratePerSecond t = ?r" "0 \<le> ?r"
    using assms(4) by (simp_all add: ratePerDayToScaled_def sdiv_nonneg pos_imp_zdiv_nonneg_iff)
  have acc: "accruedAt t (t_startTime t + s) = min (?r * s div RATE_SCALE) (t_total t)"
    using assms(2) r by (simp add: accruedAt_eq elapsed_since_def)
  have up: "?r * 86400 \<le> x * RATE_SCALE" by (simp add: mult.commute)
  have lo: "x * RATE_SCALE < (?r + 1) * 86400" by (simp add: algebra_simps)
  have "?r * s * 86400 \<le> x * s * RATE_SCALE"
    using mult_right_mono [OF up assms(2)] by (simp add: algebra_simps)
  then have "?r * s * 86400 div RATE_SCALE \<le> x * s"
    using zdiv_mono1 [of "?r * s * 86400" "x * s * RATE_SCALE" RATE_SCALE] by simp
  moreover have "?r * s div RATE_SCALE * 86400 \<le> ?r * s * 86400 div RATE_SCALE"
    by (rule mult_floor_le) simp_all
  ultimately have "?r * s div RATE_SCALE * 86400 \<le> x * s" by linarith
  then have hi: "?r * s div RATE_SCALE \<le> x * s div 86400"
    using zdiv_mono1 [of "?r * s div RATE_SCALE * 86400" "x * s" 86400] by simp
  let ?q = "x * s div 86400 - 1"
  have "x * s * RATE_SCALE \<le> (?r + 1) * 86400 * s"
    using mult_right_mono [OF less_imp_le [OF lo] assms(2)] by (simp only: mult_ac)
  also have "\<dots> \<le> ?r * s * 86400 + RATE_SCALE * 86400"
    using assms(3) by (simp add: RATE_SCALE_def algebra_simps)
  finally have "(x * s - 86400) * RATE_SCALE \<le> ?r * s * 86400"
    by (simp only: left_diff_distrib mult.commute [of 86400 RATE_SCALE])
  moreover have "?q * 86400 * RATE_SCALE \<le> (x * s - 86400) * RATE_SCALE"
    by (rule mult_right_mono) simp_all
  ultimately have "?q * 86400 * RATE_SCALE \<le> ?r * s * 86400" by (rule order_trans [rotated])
  then have "(?q * RATE_SCALE) * 86400 \<le> (?r * s) * 86400" by (simp only: mult_ac)
  then have "?q * RATE_SCALE \<le> ?r * s" by (simp only: mult_le_cancel_right_pos zero_less_numeral)
  then have "?q \<le> ?r * s div RATE_SCALE"
    using zdiv_mono1 [of "?q * RATE_SCALE" "?r * s" RATE_SCALE] by simp
  then show "x * s div 86400 - 1 \<le> accruedAt t (t_startTime t + s)"
    "accruedAt t (t_startTime t + s) \<le> x * s div 86400"
    using hi assms(5) by (simp_all add: acc)
qed

text \<open>A daily rate loses less than one raw unit.  A stream sealed with
  \<^verbatim>\<open>ratePerDayToScaled(x)\<close> accrues, at every moment of its first \<open>10 ^ 12\<close> seconds and below
  its total, the exact share of \<open>x\<close> per 86400 seconds rounded down, or one raw unit less.\<close>

theorem daily_rate_loss:
  assumes "0 \<le> x" "0 \<le> s" "s \<le> 10 ^ 12"
    and "t_ratePerSecond t = ratePerDayToScaled x" "x * s div 86400 \<le> t_total t"
  shows "(x * s div 86400 - 1 \<le> accruedAt t (t_startTime t + s)) \<and>
    (accruedAt t (t_startTime t + s) \<le> x * s div 86400)"
  by (intro daily_rate_loss_parts [OF assms] conjI)

theorem daily_rate_loss_witness:
  "10000000 * 3600 div 86400 - 1 \<le> accruedAt demo_terms (1000 + 3600)"
  using daily_rate_loss [of 10000000 3600 demo_terms] by (simp add: demo_terms_def)

end
