(* ===== verification/StreamLemmas.thy ===== *)
theory StreamLemmas
  imports StreamHandlers Accrual Vault
begin

text \<open>
  What the parts of \<^verbatim>\<open>authorize\<close> establish, and the contract of the libraries: the locale
  \<open>viem_abi\<close> says that \<^verbatim>\<open>encodeAbiParameters\<close> is the ABI specification for static types, that
  \<^verbatim>\<open>keccak256\<close> hashes the bytes a hex string denotes, and what \<^verbatim>\<open>decodeAbiParameters\<close> returns.
\<close>

section \<open>The ABI specification\<close>

definition hex32 :: "bytes32 \<Rightarrow> jsstr" where
  "hex32 w = bytesToHex (word_be w)"

lemma ascii_utf8: "list_all (\<lambda>c. of_char c < (128 :: nat)) s \<Longrightarrow> utf8_encode (js s) = ascii_bytes s"
  by (simp add: utf8_encode_ascii ascii_def js_def ascii_bytes_def list_all_iff comp_def of_nat_of_char)

lemma starts_with_js: "starts_with (js s) (js t) \<longleftrightarrow> take (length t) s = t"
  by (simp add: starts_with_def) (metis js_def js_eq_iff take_map)

lemma hex32_inj: "hex32 v = hex32 w \<Longrightarrow> v = w"
  by (metis hex32_def be_word_word_be hexToBytes_bytesToHex sum.inject(2))

text \<open>The bytes of a \<^verbatim>\<open>0x\<close> string of known length, as a word.\<close>

definition hex_word :: "nat \<Rightarrow> jsstr \<Rightarrow> uint256 option" where
  "hex_word n h =
     (if starts_with h (js ''0x'') then
        (case hexToBytes (Some h) of
           Inl _ \<Rightarrow> None
         | Inr bs \<Rightarrow> if length bs = n then Some (be_word bs) else None)
      else None)"

lemma hex_word_hex32 [simp]: "hex_word 32 (hex32 w) = Some w"
  by (simp add: hex_word_def hex32_def)

lemma hex_word_bytesToHex [simp]: "length bs = n \<Longrightarrow> hex_word n (bytesToHex bs) = Some (be_word bs)"
  by (simp add: hex_word_def)

definition hex_address :: "jsstr \<Rightarrow> address option" where
  "hex_address h = map_option ucast (hex_word 20 h)"

fun abi_word :: "(jsstr \<Rightarrow> bool) \<Rightarrow> abi_type \<Rightarrow> abi_value \<Rightarrow> uint256 option" where
  "abi_word ia AAddress (AHex h) = (if ia h then map_option ucast (hex_address h) else None)"
| "abi_word ia ABytes32 (AHex h) = hex_word 32 h"
| "abi_word ia (AUint n) (ABig i) =
     (if n \<le> 256 \<and> 0 \<le> i \<and> i < 2 ^ n then Some (word_of_int i) else None)"
| "abi_word ia _ _ = None"

fun abi_value_words :: "(jsstr \<Rightarrow> bool) \<Rightarrow> abi_type list \<Rightarrow> abi_value list \<Rightarrow> uint256 list option" where
  "abi_value_words ia [] [] = Some []"
| "abi_value_words ia (t # ts) (v # vs) =
     (case abi_word ia t v of None \<Rightarrow> None
      | Some w \<Rightarrow> map_option ((#) w) (abi_value_words ia ts vs))"
| "abi_value_words ia _ _ = None"

text \<open>What a hex string denotes, whatever the case of its digits.\<close>

definition hex_denotes :: "jsstr \<Rightarrow> bytes \<Rightarrow> bool" where
  "hex_denotes h bs \<longleftrightarrow> starts_with h (js ''0x'') \<and> hexToBytes (Some h) = Inr bs"

lemma hex_denotes_bytesToHex [simp]: "hex_denotes (bytesToHex bs) cs \<longleftrightarrow> bs = cs"
  by (simp add: hex_denotes_def)

text \<open>The digits of a \<^verbatim>\<open>bytes32\<close> enter the encoding as they are written; those of an address and of a
  number are written in lower case.\<close>

fun lower_arg :: "abi_type \<Rightarrow> abi_value \<Rightarrow> bool" where
  "lower_arg ABytes32 (AHex h) \<longleftrightarrow> to_lower h = h"
| "lower_arg _ _ \<longleftrightarrow> True"

fun same_value :: "abi_value \<Rightarrow> abi_value \<Rightarrow> bool" where
  "same_value (AHex a) (AHex b) \<longleftrightarrow> to_lower a = to_lower b"
| "same_value (ABig i) (ABig j) \<longleftrightarrow> i = j"
| "same_value _ _ \<longleftrightarrow> False"

text \<open>What a successful encoding has checked of an argument; the hex digits of a \<^verbatim>\<open>bytes32\<close> it
  does not check.\<close>

fun encodable :: "(jsstr \<Rightarrow> bool) \<Rightarrow> abi_type \<Rightarrow> abi_value \<Rightarrow> bool" where
  "encodable ia AAddress (AHex h) \<longleftrightarrow> ia h"
| "encodable ia (AUint n) (ABig i) \<longleftrightarrow> 0 \<le> i \<and> i < 2 ^ n"
| "encodable ia _ _ \<longleftrightarrow> True"

text \<open>What a decoded value is; the range of an integer shorter than a word is not checked.\<close>

fun decoded :: "(jsstr \<Rightarrow> bool) \<Rightarrow> abi_type \<Rightarrow> abi_value \<Rightarrow> bool" where
  "decoded ia AAddress (AHex h) \<longleftrightarrow> ia h"
| "decoded ia ABytes32 (AHex h) \<longleftrightarrow> hex_word 32 h \<noteq> None"
| "decoded ia (AUint n) (ABig i) \<longleftrightarrow> 0 \<le> i \<and> i < 2 ^ 256"
| "decoded ia _ _ \<longleftrightarrow> False"

section \<open>The request, read back\<close>

definition request_json :: "auth_request \<Rightarrow> json" where
  "request_json r =
     JObj [(js ''streamId'', JStr (r_streamId r)), (js ''vault'', JStr (r_vault r)),
           (js ''chainId'', JStr (r_chainId r)), (js ''commitment'', JStr (r_commitment r)),
           (js ''encryptedTerms'', JStr (r_encryptedTerms r)),
           (js ''issuedAt'', JStr (r_issuedAt r)),
           (js ''callerSignature'', JStr (r_callerSignature r))]"

definition request_ok :: "auth_request \<Rightarrow> bool" where
  "request_ok r \<longleftrightarrow> units_ok (r_streamId r) \<and> units_ok (r_vault r) \<and> units_ok (r_chainId r) \<and>
     units_ok (r_commitment r) \<and> units_ok (r_encryptedTerms r) \<and> units_ok (r_issuedAt r) \<and>
     units_ok (r_callerSignature r)"

lemma request_json_ok: "request_ok r \<Longrightarrow> json_ok (request_json r)"
  by (simp add: request_json_def request_ok_def ascii_units_ok ascii_js)

text \<open>Every client that sends the fields of a request is understood exactly.\<close>

lemma decode_request_json:
  assumes "request_ok r"
  shows "decode_request G (JStr (json_to_hex (request_json r))) = Inr r"
proof -
  have "parse_json (g_syntax G) (utf8_decode (utf8_encode (json_stringify (request_json r))))
      = Inr (request_json r)"
    using request_json_ok [OF assms] by simp
  then show ?thesis
    by (simp add: decode_request_def json_to_hex_def Let_def request_json_def REQUIRED_FIELDS_def
        str_prop_def the_str_def get_prop_def)
qed

section \<open>The libraries' contract\<close>

lemma accruedAt_range:
  assumes "0 \<le> t_ratePerSecond t" "0 \<le> t_total t"
  shows "0 \<le> accruedAt t now \<and> accruedAt t now \<le> t_total t"
  using assms by (simp add: accruedAt_eq pos_imp_zdiv_nonneg_iff)

locale viem_abi =
  fixes V :: viem and E :: evm
  assumes toBytes_text: "\<not> starts_with s (js ''0x'') \<Longrightarrow> v_toBytes V s = utf8_encode s"
  and isAddress_hex: "v_isAddress V h \<Longrightarrow> hex_word 20 h \<noteq> None"
  and keccak_bytes: "v_keccak_bytes V bs = hex32 (keccak E bs)"
  and keccak_denotes: "hex_denotes h bs \<Longrightarrow> v_keccak_hex V h = hex32 (keccak E bs)"
  and encode_fits: "abi_value_words (v_isAddress V) ts vs = Some ws \<Longrightarrow>
       \<exists>h. v_encode V ts vs = Inr h \<and> hex_denotes h (abi_encode ws) \<and>
         (list_all2 lower_arg ts vs \<longrightarrow> h = bytesToHex (abi_encode ws))"
  and encode_checks: "v_encode V ts vs = Inr h \<Longrightarrow> list_all2 (encodable (v_isAddress V)) ts vs"
  and decode_typed: "v_decode V ts h = Inr vs \<Longrightarrow> list_all2 (decoded (v_isAddress V)) ts vs"
  and decode_encode: "abi_value_words (v_isAddress V) ts vs = Some ws \<Longrightarrow> hex_denotes h (abi_encode ws) \<Longrightarrow>
       \<exists>us. v_decode V ts h = Inr us \<and> list_all2 same_value vs us"
begin

lemma keccak_hex: "v_keccak_hex V (bytesToHex bs) = hex32 (keccak E bs)"
  by (rule keccak_denotes) simp

lemma encode_hash:
  assumes "abi_value_words (v_isAddress V) ts vs = Some ws"
  obtains h where "v_encode V ts vs = Inr h" "v_keccak_hex V h = hex32 (keccak E (abi_encode ws))"
  using encode_fits [OF assms] keccak_denotes by blast

lemma tag_words:
  "withdraw_tag V = hex32 (WITHDRAW_TAG E)" "settle_tag V = hex32 (SETTLE_TAG E)"
  "CALLER_AUTH_TAG V = hex32 (keccak E (ascii_bytes ''SW_CALLER_AUTH_V1''))"
  by (simp_all add: withdraw_tag_def settle_tag_def CALLER_AUTH_TAG_def WITHDRAW_TAG_def
      SETTLE_TAG_def keccak_bytes toBytes_text starts_with_js ascii_utf8)

lemma isAddress_address: "v_isAddress V h \<Longrightarrow> \<exists>a. hex_address h = Some a"
  using isAddress_hex [of h] by (auto simp: hex_address_def)

lemma auth_digest_agrees:
  assumes "hex_word 32 (a_tag p) = Some tag" "v_isAddress V (a_vault p)"
    and "hex_address (a_vault p) = Some this" "hex_word 32 (to_lower (a_commitment p)) = Some c"
    and "0 \<le> a_chainId p" "a_chainId p < 2 ^ 256" "0 \<le> a_streamId p" "a_streamId p < 2 ^ 256"
    and "0 \<le> a_cumulativeAccrued p" "a_cumulativeAccrued p < 2 ^ 256"
    and "0 \<le> a_deadline p" "a_deadline p < 2 ^ 256"
  shows "buildAuthDigest V p = Inr (hex32 (auth_digest E tag (word_of_int (a_chainId p)) this
     (word_of_int (a_streamId p)) c (word_of_int (a_cumulativeAccrued p)) (word_of_int (a_deadline p))))"
proof -
  let ?vs = "[AHex (a_tag p), ABig (a_chainId p), AHex (a_vault p), ABig (a_streamId p),
    AHex (to_lower (a_commitment p)), ABig (a_cumulativeAccrued p), ABig (a_deadline p)]"
  have "abi_value_words (v_isAddress V) AUTH_ABI ?vs = Some (auth_words tag (word_of_int (a_chainId p)) this
     (word_of_int (a_streamId p)) c (word_of_int (a_cumulativeAccrued p)) (word_of_int (a_deadline p)))"
    using assms by (simp add: AUTH_ABI_def auth_words_def)
  then obtain h where "v_encode V AUTH_ABI ?vs = Inr h" "v_keccak_hex V h = hex32 (keccak E (abi_encode
     (auth_words tag (word_of_int (a_chainId p)) this (word_of_int (a_streamId p)) c
        (word_of_int (a_cumulativeAccrued p)) (word_of_int (a_deadline p)))))"
    by (rule encode_hash)
  then show ?thesis by (simp add: buildAuthDigest_def auth_digest_def)
qed

lemma challenge_agrees:
  assumes "hex_word 32 (c_purpose p) = Some tag" "v_isAddress V (c_vault p)"
    and "hex_address (c_vault p) = Some this" "hex_word 32 (to_lower (c_commitment p)) = Some c"
    and "0 \<le> c_chainId p" "c_chainId p < 2 ^ 256" "0 \<le> c_streamId p" "c_streamId p < 2 ^ 256"
    and "0 \<le> c_issuedAt p" "c_issuedAt p < 2 ^ 256"
  shows "buildCallerChallenge V p = Inr (hex32 (keccak E (abi_encode
     [keccak E (ascii_bytes ''SW_CALLER_AUTH_V1''), word_of_int (c_chainId p), ucast this,
      word_of_int (c_streamId p), c, tag, word_of_int (c_issuedAt p)])))"
proof -
  let ?ws = "[keccak E (ascii_bytes ''SW_CALLER_AUTH_V1''), word_of_int (c_chainId p), ucast this,
      word_of_int (c_streamId p), c, tag, word_of_int (c_issuedAt p)]"
  let ?vs = "[AHex (CALLER_AUTH_TAG V), ABig (c_chainId p), AHex (c_vault p), ABig (c_streamId p),
    AHex (to_lower (c_commitment p)), AHex (c_purpose p), ABig (c_issuedAt p)]"
  have "abi_value_words (v_isAddress V) CHALLENGE_ABI ?vs = Some ?ws"
    using assms by (simp add: CHALLENGE_ABI_def tag_words)
  then obtain h where "v_encode V CHALLENGE_ABI ?vs = Inr h" "v_keccak_hex V h = hex32 (keccak E (abi_encode ?ws))"
    by (rule encode_hash)
  then show ?thesis by (simp add: buildCallerChallenge_def)
qed

lemma challenge_checks:
  assumes "buildCallerChallenge V p = Inr d"
  shows "0 \<le> c_chainId p" "c_chainId p < 2 ^ 256" "0 \<le> c_streamId p" "c_streamId p < 2 ^ 256"
    "v_isAddress V (c_vault p)"
  using assms by (auto simp: buildCallerChallenge_def CHALLENGE_ABI_def split: sum.splits
      dest!: encode_checks)

lemma decoded_terms:
  assumes "decodeTerms V h = Inr t"
  shows "0 \<le> t_total t" "t_total t < 2 ^ 256" "0 \<le> t_ratePerSecond t"
    "v_isAddress V (t_employer t)" "v_isAddress V (t_recipient t)" "0 \<le> t_startTime t" "t_startTime t < 2 ^ 256"
proof -
  obtain vs where vs: "v_decode V TERMS_ABI h = Inr vs" "terms_of_values vs = Inr t"
    using assms by (auto simp: decodeTerms_def split: sum.splits)
  from vs(2) obtain e r tok rate tot start salt where
    "vs = [AHex e, AHex r, AHex tok, ABig rate, ABig tot, ABig start, AHex salt]"
    "t = \<lparr>t_employer = e, t_recipient = r, t_token = tok, t_ratePerSecond = rate, t_total = tot,
          t_startTime = start, t_salt = salt\<rparr>"
    by (cases vs rule: terms_of_values.cases) auto
  with decode_typed [OF vs(1)] show "0 \<le> t_total t" "t_total t < 2 ^ 256" "0 \<le> t_ratePerSecond t"
    "v_isAddress V (t_employer t)" "v_isAddress V (t_recipient t)" "0 \<le> t_startTime t" "t_startTime t < 2 ^ 256"
    by (auto simp: TERMS_ABI_def)
qed

end

end
