(* ===== verification/RefViem.thy ===== *)
theory RefViem
  imports StreamLemmas
begin

text \<open>
  An instance of the libraries the protocol calls, written from the ABI specification: an address is
  \<^verbatim>\<open>0x\<close> and 40 hex digits, a static value is one 32-byte big-endian word, decoding gives lower-case
  hex.  Signing, recovery and decryption are arguments.  It satisfies the locale \<open>viem_abi\<close>, and
  the witnesses are evaluated on it.
\<close>

definition ref_isAddress :: "jsstr \<Rightarrow> bool" where
  "ref_isAddress h \<longleftrightarrow> length h = 42 \<and> starts_with h (js ''0x'') \<and> is_hex (drop 2 h)"

fun ref_value :: "abi_type \<Rightarrow> uint256 \<Rightarrow> abi_value" where
  "ref_value AAddress w = AHex (bytesToHex (drop 12 (word_be w)))"
| "ref_value ABytes32 w = AHex (bytesToHex (word_be w))"
| "ref_value (AUint n) w = ABig (uint w)"

definition lib_error :: js_exn where
  "lib_error = Error (js ''viem'')"

definition ref_encode :: "abi_type list \<Rightarrow> abi_value list \<Rightarrow> jsstr result" where
  "ref_encode ts vs = (case abi_value_words ref_isAddress ts vs of
     None \<Rightarrow> Inl lib_error | Some ws \<Rightarrow> Inr (bytesToHex (abi_encode ws)))"

definition ref_decode :: "abi_type list \<Rightarrow> jsstr \<Rightarrow> abi_value list result" where
  "ref_decode ts h = (case hexToBytes (Some h) of
     Inl e \<Rightarrow> Inl e
   | Inr bs \<Rightarrow> (case abi_words (length ts) bs of
       None \<Rightarrow> Inl lib_error | Some ws \<Rightarrow> Inr (map2 ref_value ts ws)))"

definition ref_viem ::
    "evm \<Rightarrow> (jsstr \<Rightarrow> jsstr \<Rightarrow> jsstr result) \<Rightarrow> (jsstr \<Rightarrow> jsstr \<Rightarrow> jsstr result) \<Rightarrow>
     (jsstr \<Rightarrow> bytes \<Rightarrow> bytes result) \<Rightarrow> viem" where
  "ref_viem E recover sign decrypt =
     \<lparr>v_isAddress = ref_isAddress, v_toBytes = utf8_encode,
      v_keccak_bytes = (\<lambda>bs. hex32 (keccak E bs)),
      v_keccak_hex = (\<lambda>h. case hexToBytes (Some h) of Inl _ \<Rightarrow> [] | Inr bs \<Rightarrow> hex32 (keccak E bs)),
      v_encode = ref_encode, v_decode = ref_decode,
      v_recover = recover, v_sign = sign, ecies_decrypt = decrypt\<rparr>"

lemma hex_char_digit: "hex_digit_val c = Some d \<Longrightarrow> d < 16 \<and> hex_char d = to_lower1 c"
  by (auto simp: hex_digit_val_def hex_char_def to_lower1_def split: if_splits)

lemma byte_hex_pair:
  assumes "hex_digit_val a = Some d" "hex_digit_val b = Some e"
  shows "byte_hex (of_nat (hex_num a * 16 + hex_num b)) = [to_lower1 a, to_lower1 b]"
proof -
  have "d < 16" "e < 16" using assms hex_char_digit by blast+
  then have "unat (of_nat (d * 16 + e) :: byte) = d * 16 + e" by (intro unat_of_nat_byte) simp
  then show ?thesis
    using assms hex_char_digit by (simp add: byte_hex_def hex_num_def del: of_nat_add of_nat_mult)
qed

lemma hex_pairs_lower:
  "even (length s) \<Longrightarrow> is_hex s \<Longrightarrow> concat (map byte_hex (hex_pairs s)) = to_lower s"
proof (induction s rule: hex_pairs.induct)
  case (1 a b s)
  then obtain d e where "hex_digit_val a = Some d" "hex_digit_val b = Some e"
    by (auto simp: is_hex_def)
  with 1 byte_hex_pair [OF this] show ?case
    by (simp add: is_hex_def to_lower_def del: of_nat_add of_nat_mult)
qed (auto simp: is_hex_def)

lemma hexToBytes_lower:
  assumes "hexToBytes (Some h) = Inr bs" "starts_with h (js ''0x'')"
  shows "bytesToHex bs = to_lower h"
proof -
  have h: "h = js ''0x'' @ drop 2 h"
    using assms(2) by (metis append_take_drop_id length_js starts_with_def list.size(3,4) One_nat_def
        Suc_1 add_0 plus_1_eq_Suc)
  have s: "strip_0x h = drop 2 h" using assms(2) by (simp add: strip_0x_def)
  show ?thesis
  proof (cases "drop 2 h = []")
    case True
    with assms(1) s h show ?thesis
      by (simp add: hexToBytes_def bytesToHex_def)
        (metis append_Nil2 to_lower_bytesToHex bytesToHex_def concat.simps(1) list.map(1))
  next
    case False
    with assms(1) s have "even (length (drop 2 h))" "is_hex (drop 2 h)" "bs = hex_pairs (drop 2 h)"
      by (auto simp: hexToBytes_def Let_def even_iff_mod_2_eq_zero split: if_splits)
    then have "bytesToHex bs = js ''0x'' @ to_lower (drop 2 h)"
      using hex_pairs_lower by (simp add: bytesToHex_def)
    also have "\<dots> = to_lower (js ''0x'' @ drop 2 h)"
      by (simp add: to_lower_def js_Cons to_lower1_def)
    finally show ?thesis using h by simp
  qed
qed

lemma ref_isAddress_bytes:
  assumes "ref_isAddress h"
  obtains bs where "hexToBytes (Some h) = Inr bs" "length bs = 20"
proof -
  have s: "strip_0x h = drop 2 h" "length (drop 2 h) = 40" "is_hex (drop 2 h)"
    using assms by (simp_all add: ref_isAddress_def strip_0x_def)
  then have ok: "hexToBytes (Some h) = Inr (hex_pairs (drop 2 h))"
    using hexToBytes_ok [of h] by simp
  have "bytesToHex (hex_pairs (drop 2 h)) = to_lower h"
    using hexToBytes_lower [OF ok] assms by (simp add: ref_isAddress_def)
  then have "length (bytesToHex (hex_pairs (drop 2 h))) = 42"
    using assms by (simp add: ref_isAddress_def)
  with ok that show thesis by simp
qed

lemma ref_isAddress_lower: "length bs = 20 \<Longrightarrow> ref_isAddress (bytesToHex bs)"
  by (simp add: ref_isAddress_def) (simp add: bytesToHex_def)

lemma be_word_zeros: "be_word (replicate n 0) = 0"
  by (induction n) (simp_all add: be_word_snoc flip: replicate_append_same, simp add: be_word_def)

lemma address_roundtrip:
  assumes "length bs = 20"
  shows "word_be (ucast (ucast (be_word bs) :: address)) = replicate 12 0 @ bs"
proof -
  let ?x = "be_word bs"
  have wb: "word_be ?x = replicate 12 0 @ bs" using assms by (simp add: word_be_be_word)
  then have "drop_bit 160 ?x = 0"
    using be_word_take [of 12 ?x] by (simp add: be_word_zeros)
  then have "take_bit 160 ?x = ?x" using bits_ident [of 160 ?x] by simp
  moreover have "ucast (ucast ?x :: address) = take_bit 160 ?x"
    by (intro bit_word_eqI) (auto simp: bit_ucast_iff bit_take_bit_iff)
  ultimately show ?thesis using wb by simp
qed

lemma ref_address_same:
  assumes "ref_isAddress h" "hex_address h = Some a"
  shows "same_value (AHex h) (ref_value AAddress (ucast a))"
proof -
  obtain bs where bs: "hexToBytes (Some h) = Inr bs" "length bs = 20"
    using ref_isAddress_bytes [OF assms(1)] by blast
  have st: "starts_with h (js ''0x'')" using assms(1) by (simp add: ref_isAddress_def)
  have "a = ucast (be_word bs)"
    using assms(2) bs st by (simp add: hex_address_def hex_word_def)
  then have "word_be (ucast a) = replicate 12 0 @ bs" using address_roundtrip [OF bs(2)] by simp
  then show ?thesis using hexToBytes_lower [OF bs(1) st] by simp
qed

lemma ref_bytes32_same:
  assumes "hex_word 32 h = Some w"
  shows "same_value (AHex h) (ref_value ABytes32 w)"
proof -
  obtain bs where bs: "starts_with h (js ''0x'')" "hexToBytes (Some h) = Inr bs" "length bs = 32"
    "w = be_word bs"
    using assms by (auto simp: hex_word_def split: if_splits sum.splits)
  then show ?thesis using hexToBytes_lower [OF bs(2,1)] by (simp add: word_be_be_word)
qed

lemma uint_word_of_int_256:
  assumes "0 \<le> i" "i < 2 ^ n" "n \<le> 256"
  shows "uint (word_of_int i :: uint256) = i"
proof -
  have "(2 :: int) ^ n \<le> 2 ^ 256" using assms(3) by (rule power_increasing) simp
  with assms have "i < 2 ^ 256" by linarith
  with assms(1) show ?thesis by (simp add: unsigned_of_int take_bit_int_eq_self)
qed

lemma ref_value_same:
  "abi_word ref_isAddress t v = Some w \<Longrightarrow> same_value v (ref_value t w) \<and> encodable ref_isAddress t v"
  by (cases t; cases v)
    (auto simp: ref_address_same ref_bytes32_same uint_word_of_int_256 simp del: ref_value.simps(1,2)
      split: if_splits)

lemma ref_values_same:
  "abi_value_words ref_isAddress ts vs = Some ws \<Longrightarrow>
     length ws = length ts \<and> list_all2 same_value vs (map2 ref_value ts ws) \<and>
     list_all2 (encodable ref_isAddress) ts vs"
proof (induction ref_isAddress ts vs arbitrary: ws rule: abi_value_words.induct)
  case (2 t ts v vs)
  then obtain w us where "abi_word ref_isAddress t v = Some w"
    "abi_value_words ref_isAddress ts vs = Some us" "ws = w # us"
    by (auto split: option.splits)
  with 2(1) ref_value_same show ?case by auto
qed auto

lemma ref_decoded: "decoded ref_isAddress t (ref_value t w)"
proof (cases t)
  case AAddress
  then show ?thesis by (simp add: ref_isAddress_lower)
next
  case (AUint n)
  have "uint w < 2 ^ LENGTH(256)" by (rule unsigned_less)
  with AUint show ?thesis by simp
next
  case ABytes32
  then show ?thesis by (simp add: hex_word_def)
qed

lemma abi_words_length: "abi_words n bs = Some ws \<Longrightarrow> length ws = n"
  by (induction n arbitrary: bs ws) (auto split: if_splits)

lemma ref_decoded_all:
  "length ws = length ts \<Longrightarrow> list_all2 (decoded ref_isAddress) ts (map2 ref_value ts ws)"
  by (induction ts arbitrary: ws) (auto simp: length_Suc_conv ref_decoded)

interpretation ref: viem_abi "ref_viem E recover sign decrypt" E for E recover sign decrypt
proof
  fix h assume "v_isAddress (ref_viem E recover sign decrypt) h"
  then have ia: "ref_isAddress h" by (simp add: ref_viem_def)
  then obtain bs where "hexToBytes (Some h) = Inr bs" "length bs = 20"
    using ref_isAddress_bytes by blast
  with ia show "hex_word 20 h \<noteq> None" by (simp add: hex_word_def ref_isAddress_def)
next
  fix ts vs ws
  assume ok: "abi_value_words (v_isAddress (ref_viem E recover sign decrypt)) ts vs = Some ws"
  then have some: "abi_value_words ref_isAddress ts vs = Some ws" by (simp add: ref_viem_def)
  then show "\<exists>h. v_encode (ref_viem E recover sign decrypt) ts vs = Inr h \<and> hex_denotes h (abi_encode ws) \<and>
      (list_all2 lower_arg ts vs \<longrightarrow> h = bytesToHex (abi_encode ws))"
    by (simp add: ref_viem_def ref_encode_def)
  have same: "length ws = length ts \<and> list_all2 same_value vs (map2 ref_value ts ws)"
    using ref_values_same [OF some] by blast
  fix h assume "hex_denotes h (abi_encode ws)"
  with same have "ref_decode ts h = Inr (map2 ref_value ts ws)"
    using abi_words_encode [of ws "[]"] by (simp add: ref_decode_def hex_denotes_def)
  with same show "\<exists>us. v_decode (ref_viem E recover sign decrypt) ts h = Inr us \<and> list_all2 same_value vs us"
    by (simp add: ref_viem_def)
next
  fix ts vs h assume "v_encode (ref_viem E recover sign decrypt) ts vs = Inr h"
  then show "list_all2 (encodable (v_isAddress (ref_viem E recover sign decrypt))) ts vs"
    using ref_values_same by (auto simp: ref_viem_def ref_encode_def split: option.splits)
next
  fix ts h vs assume "v_decode (ref_viem E recover sign decrypt) ts h = Inr vs"
  then show "list_all2 (decoded (v_isAddress (ref_viem E recover sign decrypt))) ts vs"
    using ref_decoded_all abi_words_length
    by (fastforce simp: ref_viem_def ref_decode_def split: sum.splits option.splits)
qed (simp_all add: ref_viem_def hex_denotes_def)

end
