(* ===== verification/StreamTheorems.thy ===== *)
theory StreamTheorems
  imports RefViem
begin

text \<open>
  The confidential handler: who gets an authorization, what it says, what a refusal reveals, and that
  its digest is the one the contract checks.
\<close>

section \<open>The stages of a success\<close>

text \<open>What the handler has established when it answers with data.\<close>

definition granted ::
    "viem \<Rightarrow> engine \<Rightarrow> stream_env \<Rightarrow> json \<Rightarrow> jsstr \<Rightarrow> auth_request \<Rightarrow> bytes \<Rightarrow> stream_terms \<Rightarrow>
     jsstr \<Rightarrow> jsstr \<Rightarrow> bool" where
  "granted V G env msg tag req plain terms caller signature \<longleftrightarrow>
     decode_request G msg = Inr req \<and>
     (\<exists>eciesKey signerKey c issuedAt.
        tee_keys env = Some (eciesKey, signerKey) \<and>
        hexToBytes (Some (r_encryptedTerms req)) = Inr c \<and> ecies_decrypt V eciesKey c = Inr plain \<and>
        v_keccak_hex V (bytesToHex plain) = to_lower (r_commitment req) \<and>
        decodeTerms V (bytesToHex plain) = Inr terms \<and>
        to_bigint (r_issuedAt req) = Inr issuedAt \<and> \<bar>issuedAt - now_seconds env\<bar> \<le> 300 \<and>
        recover_caller V req tag issuedAt = Inr caller \<and>
        sign_auth V signerKey req tag (accruedAt terms (now_seconds env)) (now_seconds env + 600)
          = Inr signature)"

definition party :: "viem \<Rightarrow> jsstr \<Rightarrow> stream_terms \<Rightarrow> jsstr \<Rightarrow> bool" where
  "party V tag terms caller \<longleftrightarrow>
     to_lower caller = to_lower (t_employer terms) \<or>
     tag \<noteq> settle_tag V \<and> to_lower caller = to_lower (t_recipient terms)"

lemma authorize_data:
  assumes "authorize V G env msg tag n = (Inr (Some d, st, er), n')"
  obtains req plain terms caller signature where
    "granted V G env msg tag req plain terms caller signature" "party V tag terms caller"
    "d = json_to_hex (auth_response req (accruedAt terms (now_seconds env)) (now_seconds env + 600)
           signature (bytesToHex plain))"
    "st = 1" "er = None" "n' = n + 1"
  using assms
  unfolding authorize_def granted_def party_def open_terms_def authenticate_def permitted_def fail_def
  by (auto simp: Let_def AUTH_TTL_SECONDS_def CALLER_AUTH_WINDOW_SECONDS_def
      split: sum.splits option.splits prod.splits if_splits)

section \<open>Who gets an authorization\<close>

text \<open>C10: data is only ever returned to a party.  When the handler answers with data, the request was
  well formed, its ciphertext decrypts to terms with the claimed commitment, the challenge is at most
  300 seconds old or ahead and was signed by the employer named in those terms, or, for a withdrawal
  only, by the recipient; the answer carries the accrual at the enclave's clock, a deadline 600 seconds
  later, the signature over exactly these, and the terms; and the counter goes up by one.\<close>

theorem authorize_only_party:
  assumes "authorize V G env msg tag n = (Inr (Some d, st, er), n')"
  shows "\<exists>req plain terms caller signature.
     granted V G env msg tag req plain terms caller signature \<and> party V tag terms caller \<and>
     d = json_to_hex (auth_response req (accruedAt terms (now_seconds env)) (now_seconds env + 600)
           signature (bytesToHex plain)) \<and>
     st = 1 \<and> er = None \<and> n' = n + 1"
  by (rule authorize_data [OF assms]) blast

definition refusal_texts :: "jsstr set" where
  "refusal_texts = {js ''TEE keys not configured (TEE_ECIES_PRIVKEY / TEE_SIGNER_PRIVKEY)'',
     js ''failed to decrypt terms'', js ''terms do not match commitment'',
     js ''terms blob is malformed'', js ''issuedAt must be a unix-seconds integer'',
     js ''caller authorization expired'', js ''malformed caller signature'',
     js ''caller is not a party to this stream''}"

lemma refusal_parts:
  assumes "authorize V G env msg tag n = (Inr (None, st, er), n')"
  shows "n' = n" "st = 0" "\<exists>m. er = Some m \<and> (decode_request G msg = Inl m \<or> m \<in> refusal_texts)"
proof -
  show "n' = n" "st = 0"
    using assms unfolding authorize_def fail_def
    by (auto simp: Let_def split: sum.splits option.splits prod.splits)
  show "\<exists>m. er = Some m \<and> (decode_request G msg = Inl m \<or> m \<in> refusal_texts)"
    using assms unfolding authorize_def fail_def open_terms_def authenticate_def refusal_texts_def
    by (auto simp: Let_def split: sum.splits option.splits prod.splits if_splits)
qed

text \<open>C11: a refusal says nothing.  Every answer without data is a status 0 with one of eight fixed
  texts, or with a complaint about the request's form that depends on the request alone; neither the
  keys nor the decrypted terms enter it, and the counter stays.  And no answer depends on the counter.\<close>

theorem authorize_refusal:
  "(\<forall>st er n'. authorize V G env msg tag n = (Inr (None, st, er), n') \<longrightarrow>
     n' = n \<and> st = 0 \<and>
     (\<exists>m. er = Some m \<and> (decode_request G msg = Inl m \<or> m \<in> refusal_texts))) \<and>
   fst (authorize V G env msg tag n) = fst (authorize V G env msg tag m)"
proof (intro conjI allI impI)
  show "fst (authorize V G env msg tag n) = fst (authorize V G env msg tag m)"
    unfolding authorize_def by (auto simp: Let_def split: sum.splits option.splits prod.splits)
qed (blast dest: refusal_parts)+

section \<open>The digest\<close>

text \<open>C12: the digest the enclave signs is byte for byte the one the contract rebuilds: for every
  argument in range, \<^verbatim>\<open>buildAuthDigest\<close> is the hex of the contract's
  \<^verbatim>\<open>keccak256(abi.encode(...))\<close> over the same tag, chain, vault, stream, commitment, amount and
  deadline, and the two tags are the contract's constants.\<close>

theorem digest_matches_contract:
  assumes "viem_abi V E"
    and "a_tag p = withdraw_tag V \<and> tag = WITHDRAW_TAG E \<or> a_tag p = settle_tag V \<and> tag = SETTLE_TAG E"
    and "v_isAddress V (a_vault p)" "hex_address (a_vault p) = Some this"
    and "to_lower (a_commitment p) = hex32 c"
    and "a_chainId p = uint chain" "a_streamId p = uint i"
    and "a_cumulativeAccrued p = uint accrued" "a_deadline p = uint deadline"
  shows "buildAuthDigest V p = Inr (hex32 (auth_digest E tag chain this i c accrued deadline))"
proof -
  have b: "uint w < 2 ^ 256" for w :: uint256 using unsigned_less [of w] by simp
  have "hex_word 32 (a_tag p) = Some tag"
    using assms(2) viem_abi.tag_words [OF assms(1)] by auto
  from viem_abi.auth_digest_agrees [OF assms(1) this assms(3,4), of c] assms(5-) b
  show ?thesis by (simp add: word_of_int_uint)
qed

section \<open>Completeness\<close>

context viem_abi begin

text \<open>After the challenge has been verified, nothing that follows can throw before the signature.\<close>

lemma sign_auth_digest:
  assumes "recover_caller V req tag issuedAt = Inr caller"
    and "to_lower (r_commitment req) = hex32 c" "hex_word 32 tag = Some tw"
    and "0 \<le> accrued" "accrued < 2 ^ 256" "0 \<le> deadline" "deadline < 2 ^ 256"
  obtains chain i this where
    "to_bigint (r_chainId req) = Inr chain" "to_bigint (r_streamId req) = Inr i"
    "hex_address (r_vault req) = Some this" "0 \<le> chain" "chain < 2 ^ 256" "0 \<le> i" "i < 2 ^ 256"
    "request_digest V req tag accrued deadline
       = Inr (hex32 (auth_digest E tw (word_of_int chain) this (word_of_int i) c
           (word_of_int accrued) (word_of_int deadline)))"
proof -
  from assms(1) obtain chain i d where
    ci: "to_bigint (r_chainId req) = Inr chain" "to_bigint (r_streamId req) = Inr i"
    and d: "buildCallerChallenge V \<lparr>c_chainId = chain, c_vault = r_vault req, c_streamId = i,
      c_commitment = r_commitment req, c_purpose = tag, c_issuedAt = issuedAt\<rparr> = Inr d"
    by (auto simp: recover_caller_def split: sum.splits)
  note ck = challenge_checks [OF d, simplified]
  from isAddress_address [OF ck(5)] obtain this' where this': "hex_address (r_vault req) = Some this'"
    by blast
  have "request_digest V req tag accrued deadline
       = Inr (hex32 (auth_digest E tw (word_of_int chain) this' (word_of_int i) c
           (word_of_int accrued) (word_of_int deadline)))"
    using assms ck this' ci by (simp add: request_digest_def auth_digest_agrees [where this = this'])
  then show thesis using ck by (intro that [OF ci this']) simp_all
qed

lemma accrued_in_range:
  assumes "decodeTerms V h = Inr t"
  shows "0 \<le> accruedAt t now" "accruedAt t now < 2 ^ 256"
  using decoded_terms [OF assms] accruedAt_range [of t now] by auto

end

lemma authorize_signs:
  assumes "viem_abi V E" "request_ok req" "tee_keys env = Some (k, s)"
    and "hexToBytes (Some (r_encryptedTerms req)) = Inr cipher" "ecies_decrypt V k cipher = Inr plain"
    and "v_keccak_hex V (bytesToHex plain) = to_lower (r_commitment req)"
    and "decodeTerms V (bytesToHex plain) = Inr terms"
    and "r_issuedAt req = js_of_int t" "\<bar>t - now_seconds env\<bar> \<le> 300"
    and "tag = withdraw_tag V \<or> tag = settle_tag V"
    and "recover_caller V req tag t = Inr caller" "party V tag terms caller"
    and "0 \<le> now_seconds env" "now_seconds env < 2 ^ 255" "\<And>h. \<exists>sig. v_sign V s (hex32 h) = Inr sig"
  shows "\<exists>sig. granted V G env (JStr (json_to_hex (request_json req))) tag req plain terms caller sig \<and>
     authorize V G env (JStr (json_to_hex (request_json req))) tag n =
     (Inr (Some (json_to_hex (auth_response req (accruedAt terms (now_seconds env))
        (now_seconds env + 600) sig (bytesToHex plain))), 1, None), n + 1)"
proof -
  have tw: "\<exists>tw. hex_word 32 tag = Some tw"
    using assms(10) viem_abi.tag_words [OF assms(1)] by auto
  have c: "to_lower (r_commitment req) = hex32 (keccak E plain)"
    using assms(6) viem_abi.keccak_hex [OF assms(1)] by simp
  let ?now = "now_seconds env"
  have "\<exists>sig. sign_auth V s req tag (accruedAt terms ?now) (?now + 600) = Inr sig"
  proof -
    obtain tw where "hex_word 32 tag = Some tw" using tw by blast
    moreover have "0 \<le> ?now + 600" "?now + 600 < 2 ^ 256" using assms(13,14) by simp_all
    ultimately obtain d where "request_digest V req tag (accruedAt terms ?now) (?now + 600) = Inr (hex32 d)"
      using viem_abi.sign_auth_digest [OF assms(1,11) c _ viem_abi.accrued_in_range [OF assms(1,7)]]
      by metis
    with assms(15) show ?thesis by (simp add: sign_auth_def)
  qed
  then obtain sig where sig: "sign_auth V s req tag (accruedAt terms ?now) (?now + 600) = Inr sig"
    by blast
  have open': "open_terms V k req = Inr (bytesToHex plain, terms)"
    using assms(4-7) by (simp add: open_terms_def)
  have issued: "to_bigint (r_issuedAt req) = Inr t" using assms(8) by (simp add: to_bigint_def)
  have "(if t > ?now then t - ?now else ?now - t) \<le> 300" using assms(9) by auto
  moreover have "to_lower caller \<in> set (permitted V tag terms)"
    using assms(12) by (auto simp: party_def permitted_def)
  ultimately have auth: "authenticate V ?now req tag terms = Inr (to_lower caller)"
    using assms(11) issued by (simp add: authenticate_def CALLER_AUTH_WINDOW_SECONDS_def Let_def)
  have "granted V G env (JStr (json_to_hex (request_json req))) tag req plain terms caller sig"
    using assms(3-7,9,11) sig issued
    by (simp add: granted_def decode_request_json [OF assms(2)])
  then show ?thesis
    by - (rule exI [of _ sig], rule conjI,
      assumption, simp add: authorize_def decode_request_json [OF assms(2)] assms(3) open' auth sig
        AUTH_TTL_SECONDS_def Let_def)
qed

lemma authorize_answers:
  assumes "viem_abi V E" "request_ok req" "tee_keys env = Some (k, s)"
    and "hexToBytes (Some (r_encryptedTerms req)) = Inr cipher" "ecies_decrypt V k cipher = Inr plain"
    and "v_keccak_hex V (bytesToHex plain) = to_lower (r_commitment req)"
    and "decodeTerms V (bytesToHex plain) = Inr terms"
    and "r_issuedAt req = js_of_int t" "\<bar>t - now_seconds env\<bar> \<le> 300"
    and "tag = withdraw_tag V \<or> tag = settle_tag V"
    and "recover_caller V req tag t = Inr caller" "party V tag terms caller"
    and "0 \<le> now_seconds env" "now_seconds env < 2 ^ 255" "\<And>h. \<exists>sig. v_sign V s (hex32 h) = Inr sig"
  shows "\<exists>sig. authorize V G env (JStr (json_to_hex (request_json req))) tag n =
     (Inr (Some (json_to_hex (auth_response req (accruedAt terms (now_seconds env))
        (now_seconds env + 600) sig (bytesToHex plain))), 1, None), n + 1)"
  using authorize_signs [OF assms, of G n] by blast

section \<open>A concrete run\<close>

text \<open>The employer of a stream that accrues one unit a second asks at time 2000, a thousand seconds in.\<close>

definition demo_plain :: bytes where
  "demo_plain = abi_encode [1, 2, 7, 1000000000000, 1000000, 1000, 99]"

definition demo_employer :: jsstr where
  "demo_employer = bytesToHex (drop 12 (word_be 1))"

definition demo_viem :: viem where
  "demo_viem = ref_viem demo_evm (\<lambda>_ _. Inr demo_employer)
     (\<lambda>_ _. Inr (bytesToHex (replicate 64 0 @ [27]))) (\<lambda>_ c. Inr c)"

definition demo_env :: stream_env where
  "demo_env = \<lparr>env_ecies = Some (js ''k1''), env_signer = Some (js ''k2''), env_now_ms = 2000000\<rparr>"

definition demo_req :: auth_request where
  "demo_req = \<lparr>r_streamId = js_of_int 1, r_vault = bytesToHex (replicate 19 0 @ [9]),
     r_chainId = js_of_int 114, r_commitment = hex32 (keccak demo_evm demo_plain),
     r_encryptedTerms = bytesToHex demo_plain, r_issuedAt = js_of_int 1990,
     r_callerSignature = js ''0x''\<rparr>"

definition demo_stream_terms :: stream_terms where
  "demo_stream_terms = \<lparr>t_employer = demo_employer, t_recipient = bytesToHex (drop 12 (word_be 2)),
     t_token = bytesToHex (drop 12 (word_be 7)), t_ratePerSecond = 1000000000000,
     t_total = 1000000, t_startTime = 1000, t_salt = bytesToHex (word_be 99)\<rparr>"

interpretation demo: viem_abi demo_viem demo_evm
  unfolding demo_viem_def by (rule ref.viem_abi_axioms)

lemma demo_viem_simps [simp]:
  "v_isAddress demo_viem = ref_isAddress" "v_decode demo_viem = ref_decode"
  "v_recover demo_viem ch sg = Inr demo_employer" "ecies_decrypt demo_viem k c = Inr c"
  "v_sign demo_viem k d = Inr (bytesToHex (replicate 64 0 @ [27]))"
  by (simp_all add: demo_viem_def ref_viem_def)

lemma demo_decode: "decodeTerms demo_viem (bytesToHex demo_plain) = Inr demo_stream_terms"
  using abi_words_encode [of "[1, 2, 7, 1000000000000, 1000000, 1000, 99]" "[]"]
  by (simp add: decodeTerms_def ref_decode_def demo_plain_def TERMS_ABI_def demo_stream_terms_def
      demo_employer_def del: abi_words.simps)

lemma demo_recover:
  assumes "tag = withdraw_tag demo_viem \<or> tag = settle_tag demo_viem"
  shows "recover_caller demo_viem demo_req tag 1990 = Inr demo_employer"
proof -
  obtain tw where tw: "hex_word 32 tag = Some tw" using assms demo.tag_words by auto
  have "buildCallerChallenge demo_viem \<lparr>c_chainId = 114, c_vault = bytesToHex (replicate 19 0 @ [9]),
      c_streamId = 1, c_commitment = r_commitment demo_req, c_purpose = tag, c_issuedAt = 1990\<rparr>
    = Inr (hex32 (keccak demo_evm (abi_encode
     [keccak demo_evm (ascii_bytes ''SW_CALLER_AUTH_V1''), word_of_int 114,
      ucast (ucast (be_word (replicate 19 0 @ [9])) :: address),
      word_of_int 1, keccak demo_evm demo_plain, tw, word_of_int 1990])))"
    by (subst demo.challenge_agrees [where tag = tw])
      (simp_all add: tw hex_address_def ref_isAddress_lower demo_req_def hex32_def)
  then show ?thesis
    by (simp add: recover_caller_def demo_req_def to_bigint_def)
qed

lemma demo_now: "now_seconds demo_env = 2000"
  by (simp add: now_seconds_def demo_env_def)

lemma demo_req_ok: "request_ok demo_req"
  by (simp add: request_ok_def demo_req_def ascii_units_ok ascii_bytesToHex ascii_js_of_int hex32_def)

lemma demo_keys: "tee_keys demo_env = Some (js ''k1'', js ''k2'')"
  by (simp add: demo_env_def tee_keys_def present_def js_Cons)

lemma demo_party: "party demo_viem (settle_tag demo_viem) demo_stream_terms demo_employer"
  by (simp add: party_def demo_stream_terms_def)

lemma demo_empty: "utf8_decode [] = []" "json_parse [] = None"
  by (simp_all add: utf8_decode_def json_parse_def)

lemma demo_granted_withdraw:
  "\<exists>sig. authorize demo_viem G demo_env (JStr (json_to_hex (request_json demo_req)))
       (withdraw_tag demo_viem) n =
     (Inr (Some (json_to_hex (auth_response demo_req (accruedAt demo_stream_terms 2000) 2600 sig
        (bytesToHex demo_plain))), 1, None), n + 1)"
  using authorize_answers [OF demo.viem_abi_axioms demo_req_ok demo_keys, of demo_plain demo_plain
      demo_stream_terms 1990 "withdraw_tag demo_viem" demo_employer G n]
    demo_decode demo_recover demo.keccak_hex [of demo_plain] demo_now
  by (auto simp: demo_req_def hex32_def party_def demo_stream_terms_def)

lemma demo_granted:
  "\<exists>sig. authorize demo_viem G demo_env (JStr (json_to_hex (request_json demo_req)))
       (settle_tag demo_viem) n =
     (Inr (Some (json_to_hex (auth_response demo_req (accruedAt demo_stream_terms 2000) 2600 sig
        (bytesToHex demo_plain))), 1, None), n + 1)"
  using authorize_answers [OF demo.viem_abi_axioms demo_req_ok demo_keys, of demo_plain demo_plain
      demo_stream_terms 1990 "settle_tag demo_viem" demo_employer G n]
    demo_decode demo_recover demo_party demo.keccak_hex [of demo_plain] demo_now
  by (auto simp: demo_req_def hex32_def)

text \<open>C13: no party is turned away, and the handler never rejects.  A request with all its fields,
  whose ciphertext opens to the committed terms, with a challenge within the window that recovers to a
  party, is answered with an authorization, whatever the chain, vault and stream it names, as long as
  the enclave's key signs and its clock is in range.\<close>

theorem authorize_grants:
  assumes "viem_abi V E" "request_ok req" "tee_keys env = Some (k, s)"
    and "hexToBytes (Some (r_encryptedTerms req)) = Inr cipher" "ecies_decrypt V k cipher = Inr plain"
    and "v_keccak_hex V (bytesToHex plain) = to_lower (r_commitment req)"
    and "decodeTerms V (bytesToHex plain) = Inr terms"
    and "r_issuedAt req = js_of_int t" "\<bar>t - now_seconds env\<bar> \<le> 300"
    and "tag = withdraw_tag V \<or> tag = settle_tag V"
    and "recover_caller V req tag t = Inr caller" "party V tag terms caller"
    and "0 \<le> now_seconds env" "now_seconds env < 2 ^ 255" "\<And>d. \<exists>sig. v_sign V s (hex32 d) = Inr sig"
  shows "\<exists>sig. authorize V G env (JStr (json_to_hex (request_json req))) tag n =
     (Inr (Some (json_to_hex (auth_response req (accruedAt terms (now_seconds env))
        (now_seconds env + 600) sig (bytesToHex plain))), 1, None), n + 1)"
  by (rule authorize_answers [OF assms])

theorem authorize_grants_witness:
  "\<exists>sig. authorize demo_viem demo_engine demo_env (JStr (json_to_hex (request_json demo_req)))
       (settle_tag demo_viem) 0 =
     (Inr (Some (json_to_hex (auth_response demo_req (accruedAt demo_stream_terms 2000) 2600 sig
        (bytesToHex demo_plain))), 1, None), 1)"
  using authorize_grants [OF demo.viem_abi_axioms demo_req_ok demo_keys, of demo_plain demo_plain
      demo_stream_terms 1990 "settle_tag demo_viem" demo_employer demo_engine 0]
    demo_decode demo_recover demo_party demo.keccak_hex [of demo_plain] demo_now
  by (auto simp: demo_req_def hex32_def)

theorem authorize_only_party_witness:
  "\<exists>req plain terms caller signature.
     granted demo_viem demo_engine demo_env (JStr (json_to_hex (request_json demo_req)))
       (settle_tag demo_viem) req plain terms caller signature \<and>
     party demo_viem (settle_tag demo_viem) terms caller"
proof -
  obtain d where "authorize demo_viem demo_engine demo_env
      (JStr (json_to_hex (request_json demo_req))) (settle_tag demo_viem) 0 = (Inr (Some d, 1, None), 1)"
    using demo_granted [of demo_engine 0] by auto
  from authorize_only_party [OF this] show ?thesis by blast
qed

theorem authorize_refusal_witness:
  "\<exists>m. authorize demo_viem demo_engine demo_env JNull (settle_tag demo_viem) 5 = (Inr (None, 0, Some m), 5)"
proof -
  have "decode_request demo_engine JNull = Inl (js ''decoding request: '' @ exn_message (json_exn (g_syntax demo_engine) []))"
    by (simp add: decode_request_def hexToBytes_val_def hexToBytes_def parse_json_def Let_def demo_empty)
  then obtain er where "authorize demo_viem demo_engine demo_env JNull (settle_tag demo_viem) 5
      = (Inr (None, 0, er), 5)"
    by (auto simp: authorize_def fail_def)
  with authorize_refusal [of demo_viem demo_engine demo_env JNull "settle_tag demo_viem" 5]
  show ?thesis by auto
qed

theorem digest_matches_contract_witness:
  "buildAuthDigest demo_viem \<lparr>a_tag = settle_tag demo_viem, a_chainId = 114,
      a_vault = bytesToHex (replicate 19 0 @ [9]), a_streamId = 1,
      a_commitment = hex32 (keccak demo_evm demo_plain), a_cumulativeAccrued = 1000,
      a_deadline = 2600\<rparr>
    = Inr (hex32 (auth_digest demo_evm (SETTLE_TAG demo_evm) 114
        (ucast (be_word (replicate 19 0 @ [9]))) 1 (keccak demo_evm demo_plain) 1000 2600))"
  by (rule digest_matches_contract [OF demo.viem_abi_axioms])
    (simp_all add: ref_isAddress_lower hex_address_def hex32_def)

end
