(* ===== verification/TermsTheorems.thy ===== *)
theory TermsTheorems
  imports StreamTheorems VaultProps
begin

text \<open>
  Terms and digests: what a commitment and a signature bind.  A collision of the hash is always named
  by its two preimages, as the hash cannot be injective.
\<close>

definition collision :: "evm \<Rightarrow> bytes \<Rightarrow> bytes \<Rightarrow> bool" where
  "collision E a b \<longleftrightarrow> a \<noteq> b \<and> keccak E a = keccak E b"

section \<open>Terms\<close>

text \<open>Terms the ABI can carry.\<close>

definition terms_fit :: "viem \<Rightarrow> stream_terms \<Rightarrow> bool" where
  "terms_fit V t \<longleftrightarrow> v_isAddress V (t_employer t) \<and> v_isAddress V (t_recipient t) \<and>
     v_isAddress V (t_token t) \<and> 0 \<le> t_ratePerSecond t \<and> t_ratePerSecond t < 2 ^ 256 \<and>
     0 \<le> t_total t \<and> t_total t < 2 ^ 256 \<and> 0 \<le> t_startTime t \<and> t_startTime t < 2 ^ 64 \<and>
     hex_word 32 (t_salt t) \<noteq> None"

text \<open>The same terms, but for the case of hex digits.\<close>

definition same_terms :: "stream_terms \<Rightarrow> stream_terms \<Rightarrow> bool" where
  "same_terms t u \<longleftrightarrow> to_lower (t_employer t) = to_lower (t_employer u) \<and>
     to_lower (t_recipient t) = to_lower (t_recipient u) \<and>
     to_lower (t_token t) = to_lower (t_token u) \<and> t_ratePerSecond t = t_ratePerSecond u \<and>
     t_total t = t_total u \<and> t_startTime t = t_startTime u \<and> to_lower (t_salt t) = to_lower (t_salt u)"

text \<open>Terms with a salt in lower case, as every salt of the repository is; then the encoding is.\<close>

definition plain_terms :: "viem \<Rightarrow> stream_terms \<Rightarrow> bool" where
  "plain_terms V t \<longleftrightarrow> terms_fit V t \<and> to_lower (t_salt t) = t_salt t"

lemma plain_terms_fit: "plain_terms V t \<Longrightarrow> terms_fit V t"
  by (simp add: plain_terms_def)

text \<open>Terms are read back from the values of others up to case only if they are the same up to case.\<close>

lemma same_terms_decoded:
  assumes "list_all2 same_value (terms_values t) vs" "list_all2 same_value (terms_values u) vs"
  shows "same_terms t u"
  using assms by (auto simp: terms_values_def same_terms_def list_all2_Cons1 elim!: same_value.elims)

context viem_abi begin

lemma terms_words:
  assumes "terms_fit V t"
  obtains ws h where "abi_value_words (v_isAddress V) TERMS_ABI (terms_values t) = Some ws"
    "length ws = 7" "encodeTerms V t = Inr h" "hex_denotes h (abi_encode ws)"
    "to_lower (t_salt t) = t_salt t \<Longrightarrow> h = bytesToHex (abi_encode ws)"
    "commitTo V t = Inr (hex32 (keccak E (abi_encode ws)))"
proof -
  obtain e r k where a: "hex_address (t_employer t) = Some e" "hex_address (t_recipient t) = Some r"
    "hex_address (t_token t) = Some k"
    using assms isAddress_address unfolding terms_fit_def by meson
  obtain s where s: "hex_word 32 (t_salt t) = Some s" using assms unfolding terms_fit_def by blast
  have "(2 :: int) ^ 64 < 2 ^ 256" by simp
  with assms have w: "abi_value_words (v_isAddress V) TERMS_ABI (terms_values t)
      = Some [ucast e, ucast r, ucast k, word_of_int (t_ratePerSecond t), word_of_int (t_total t),
              word_of_int (t_startTime t), s]"
    using a s by (simp add: terms_values_def TERMS_ABI_def terms_fit_def)
  obtain h where h: "v_encode V TERMS_ABI (terms_values t) = Inr h" "hex_denotes h (abi_encode
      [ucast e, ucast r, ucast k, word_of_int (t_ratePerSecond t), word_of_int (t_total t), word_of_int (t_startTime t), s])"
    "list_all2 lower_arg TERMS_ABI (terms_values t) \<longrightarrow> h = bytesToHex (abi_encode
      [ucast e, ucast r, ucast k, word_of_int (t_ratePerSecond t), word_of_int (t_total t), word_of_int (t_startTime t), s])"
    using encode_fits [OF w] by blast
  show thesis
    using h keccak_denotes [OF h(2)]
    by (intro that [OF w, of h]) (simp_all add: encodeTerms_def commitTo_def terms_values_def TERMS_ABI_def)
qed

lemma plain_words:
  assumes "plain_terms V t"
  obtains ws where "length ws = 7" "encodeTerms V t = Inr (bytesToHex (abi_encode ws))"
    "commitTo V t = Inr (hex32 (keccak E (abi_encode ws)))"
  using assms terms_words [of t] unfolding plain_terms_def by metis

lemma terms_decode:
  assumes "terms_fit V t" "encodeTerms V t = Inr h"
  shows "\<exists>u. decodeTerms V h = Inr u \<and> same_terms t u"
proof -
  obtain ws where ws: "abi_value_words (v_isAddress V) TERMS_ABI (terms_values t) = Some ws" "hex_denotes h (abi_encode ws)"
    using terms_words [OF assms(1)] assms(2) by (metis sum.inject(2))
  obtain us where us: "v_decode V TERMS_ABI h = Inr us" "list_all2 same_value (terms_values t) us"
    using decode_encode [OF ws] by blast
  from us(2) obtain e r k s where
    "us = [AHex e, AHex r, AHex k, ABig (t_ratePerSecond t), ABig (t_total t), ABig (t_startTime t),
           AHex s]"
    "to_lower (t_employer t) = to_lower e" "to_lower (t_recipient t) = to_lower r"
    "to_lower (t_token t) = to_lower k" "to_lower (t_salt t) = to_lower s"
    by (auto simp: terms_values_def list_all2_Cons1 elim!: same_value.elims)
  with us(1) show ?thesis by (simp add: decodeTerms_def same_terms_def)
qed

end

text \<open>C14: terms survive the trip.  Terms whose fields fit their ABI types are encoded without error, to a
  hex string of 224 bytes (in lower case, if the salt is); it decodes to the same terms up to the case of
  hex digits, and the commitment of the terms is the contract's hash of exactly those bytes.\<close>

theorem terms_roundtrip:
  assumes "viem_abi V E" "terms_fit V t"
  shows "\<exists>h blob u. encodeTerms V t = Inr h \<and> hex_denotes h blob \<and>
     (to_lower (t_salt t) = t_salt t \<longrightarrow> h = bytesToHex blob) \<and>
     decodeTerms V h = Inr u \<and> same_terms t u \<and>
     commitTo V t = Inr (hex32 (keccak E blob)) \<and> length blob = 224"
proof -
  obtain ws h where ws: "length ws = 7" "encodeTerms V t = Inr h" "hex_denotes h (abi_encode ws)"
    "to_lower (t_salt t) = t_salt t \<Longrightarrow> h = bytesToHex (abi_encode ws)"
    "commitTo V t = Inr (hex32 (keccak E (abi_encode ws)))"
    using viem_abi.terms_words [OF assms] by metis
  moreover obtain u where "decodeTerms V h = Inr u" "same_terms t u"
    using viem_abi.terms_decode [OF assms ws(2)] by blast
  ultimately show ?thesis by (intro exI [of _ h] exI [of _ "abi_encode ws"]) simp
qed

text \<open>A commitment binds the terms.  Two terms with the same commitment are the same up to the case
  of hex digits, unless their two encodings are a collision of the hash.\<close>

theorem commitment_binds:
  assumes "viem_abi V E" "terms_fit V t" "terms_fit V u" "commitTo V t = commitTo V u"
  shows "same_terms t u \<or>
     (\<exists>h k a b. encodeTerms V t = Inr h \<and> hex_denotes h a \<and> encodeTerms V u = Inr k \<and> hex_denotes k b \<and> collision E a b)"
proof -
  obtain ws h where ws: "abi_value_words (v_isAddress V) TERMS_ABI (terms_values t) = Some ws"
    "encodeTerms V t = Inr h" "hex_denotes h (abi_encode ws)" "commitTo V t = Inr (hex32 (keccak E (abi_encode ws)))"
    using viem_abi.terms_words [OF assms(1,2)] by metis
  obtain us k where us: "abi_value_words (v_isAddress V) TERMS_ABI (terms_values u) = Some us"
    "encodeTerms V u = Inr k" "hex_denotes k (abi_encode us)" "commitTo V u = Inr (hex32 (keccak E (abi_encode us)))"
    using viem_abi.terms_words [OF assms(1,3)] by metis
  have eq: "keccak E (abi_encode ws) = keccak E (abi_encode us)"
    using assms(4) ws(4) us(4) hex32_inj by simp
  show ?thesis
  proof (cases "abi_encode ws = abi_encode us")
    case True
    have "length ws = length us"
      using viem_abi.terms_words [OF assms(1,2)] viem_abi.terms_words [OF assms(1,3)] ws(1) us(1) by (metis option.inject)
    with True have "ws = us" using abi_encode_inj by blast
    with us(1) have us': "abi_value_words (v_isAddress V) TERMS_ABI (terms_values u) = Some ws" by simp
    show ?thesis
      using viem_abi.decode_encode [OF assms(1) ws(1,3)] viem_abi.decode_encode [OF assms(1) us' ws(3)]
        same_terms_decoded by (metis sum.inject(2))
  next
    case False
    with eq ws us show ?thesis by (auto simp: collision_def)
  qed
qed

section \<open>Audit mode\<close>

text \<open>C15: audit mode proves the real terms.  When a stream was opened with the commitment of its terms,
  revealing the bytes of their encoding succeeds and announces them, and any other blob is accepted only if
  it collides with that encoding; revealing changes nothing else.\<close>

theorem reveal_proves_terms:
  assumes "viem_abi V E" "terms_fit V t" "encodeTerms V t = Inr h" "hexToBytes (Some h) = Inr blob"
    and "commitTo V t = Inr (hex32 (s_commitment (v_streams v i)))"
    and "s_employer (v_streams v i) \<noteq> 0"
  shows "revealTerms E i blob v = Inr (v\<lparr>v_events := v_events v @ [TermsRevealed i blob]\<rparr>) \<and>
     (\<forall>b v'. revealTerms E i b v = Inr v' \<longrightarrow> b = blob \<or> collision E b blob)"
proof -
  obtain ws where "hex_denotes h (abi_encode ws)" "commitTo V t = Inr (hex32 (keccak E (abi_encode ws)))"
    using viem_abi.terms_words [OF assms(1,2)] assms(3) by (metis sum.inject(2))
  then have "keccak E blob = s_commitment (v_streams v i)"
    using assms(4,5) hex32_inj by (auto simp: hex_denotes_def)
  with assms(6) show ?thesis
    by (auto simp: revealTerms_def emit_def collision_def Let_def split: if_splits)
qed

section \<open>Signatures\<close>

lemma abi_encode_eq: "length vs = length ws \<Longrightarrow> abi_encode vs = abi_encode ws \<longleftrightarrow> vs = ws"
  using abi_encode_inj by blast

text \<open>An authorization cannot be moved.  If the digests of two authorizations are equal, they are for
  the same purpose tag, chain, vault, stream, commitment, amount and deadline, unless their two
  encodings are a collision of the hash.\<close>

theorem auth_digest_binds:
  assumes "auth_digest E tag chain vault i c a d = auth_digest E tag' chain' vault' i' c' a' d'"
  shows "(tag = tag' \<and> chain = chain' \<and> vault = vault' \<and>
       i = i' \<and> c = c' \<and> a = a' \<and> d = d') \<or>
     collision E (abi_encode (auth_words tag chain vault i c a d))
       (abi_encode (auth_words tag' chain' vault' i' c' a' d'))"
proof (cases "auth_words tag chain vault i c a d = auth_words tag' chain' vault' i' c' a' d'")
  case True
  then show ?thesis by (auto simp: auth_words_def dest: ucast_address_inj)
next
  case False
  then have "abi_encode (auth_words tag chain vault i c a d)
      \<noteq> abi_encode (auth_words tag' chain' vault' i' c' a' d')"
    by (simp add: abi_encode_eq auth_words_def)
  with assms(1) show ?thesis by (simp add: collision_def auth_digest_def)
qed

theorem auth_digest_binds_witness:
  "(114 :: uint256) = 114 \<and> (1 :: uint256) = 1 \<or>
     collision demo_evm (abi_encode (auth_words 3 114 9 1 99 400 60))
       (abi_encode (auth_words 3 114 9 1 99 400 60))"
proof -
  have "auth_digest demo_evm 3 114 9 1 99 400 60 = auth_digest demo_evm 3 114 9 1 99 400 60" ..
  from auth_digest_binds [OF this] show ?thesis by blast
qed

lemma demo_terms_fit: "terms_fit demo_viem demo_stream_terms"
  by (simp add: terms_fit_def demo_stream_terms_def demo_employer_def ref_isAddress_lower)

lemma demo_salt_lower: "to_lower (t_salt demo_stream_terms) = t_salt demo_stream_terms"
  by (simp add: demo_stream_terms_def)

theorem terms_roundtrip_witness:
  "\<exists>blob u. encodeTerms demo_viem demo_stream_terms = Inr (bytesToHex blob) \<and>
     decodeTerms demo_viem (bytesToHex blob) = Inr u \<and> t_total u = 1000000"
  using terms_roundtrip [OF demo.viem_abi_axioms demo_terms_fit] demo_salt_lower
  by (auto simp: same_terms_def demo_stream_terms_def)

theorem commitment_binds_witness:
  "same_terms demo_stream_terms demo_stream_terms \<or>
     (\<exists>h k a b. encodeTerms demo_viem demo_stream_terms = Inr h \<and> hex_denotes h a \<and>
        encodeTerms demo_viem demo_stream_terms = Inr k \<and> hex_denotes k b \<and> collision demo_evm a b)"
  by (rule commitment_binds [OF demo.viem_abi_axioms demo_terms_fit demo_terms_fit refl])

theorem reveal_proves_terms_witness:
  "\<exists>blob v v'. revealTerms demo_evm 1 blob v = Inr v' \<and> v_events v' = [TermsRevealed 1 blob]"
proof -
  have "plain_terms demo_viem demo_stream_terms"
    using demo_terms_fit demo_salt_lower by (simp add: plain_terms_def)
  then obtain blob where blob: "encodeTerms demo_viem demo_stream_terms = Inr (bytesToHex blob)"
    "commitTo demo_viem demo_stream_terms = Inr (hex32 (keccak demo_evm blob))"
    using viem_abi.plain_words [OF demo.viem_abi_axioms] by metis
  let ?v = "set_stream 1 (empty_stream\<lparr>s_employer := 1, s_commitment := keccak demo_evm blob\<rparr>) (new_vault 1 5)"
  have "revealTerms demo_evm 1 blob ?v = Inr (?v\<lparr>v_events := v_events ?v @ [TermsRevealed 1 blob]\<rparr>)"
    using reveal_proves_terms [OF demo.viem_abi_axioms demo_terms_fit blob(1), of blob ?v 1] blob(2) by simp
  then show ?thesis by (intro exI conjI) (assumption, simp add: new_vault_def)
qed

end
