(* ===== verification/EndToEnd.thy ===== *)
theory EndToEnd
  imports TermsTheorems VaultContract
begin

text \<open>
  The enclave and the vault together.  First, an authorization the enclave returns is one the vault
  accepts.  Then the whole system as a state machine: the vault, the tokens, a clock and the
  authorizations issued so far; its safety is that no stream ever pays out more than the sealed terms
  have accrued.
\<close>

section \<open>From the enclave to the vault\<close>

text \<open>The signing key belongs to an account: what \<^verbatim>\<open>signMessage\<close> returns for a digest is a 65-byte
  signature from which the vault recovers that account (EIP-191 on both sides).\<close>

definition signs_for :: "viem \<Rightarrow> evm \<Rightarrow> jsstr \<Rightarrow> address \<Rightarrow> bool" where
  "signs_for V E key signer \<longleftrightarrow>
     (\<forall>h. \<exists>sig. v_sign V key (hex32 h) = Inr (bytesToHex sig) \<and> recoverEthSigned E h sig = Inr signer)"

lemma word_of_uint [simp]: "word_of_int (uint (w :: 'a::len word)) = w"
  by simp

lemma unat_word_of_int:
  assumes "0 \<le> a" "a < 2 ^ 256"
  shows "unat (word_of_int a :: uint256) = nat a" "int (unat (word_of_int a :: uint256)) = a"
proof -
  have "uint (word_of_int a :: uint256) = a"
    using assms uint_word_of_int_256 [of a 256] by simp
  then show "unat (word_of_int a :: uint256) = nat a" by (metis nat_uint_eq)
  then show "int (unat (word_of_int a :: uint256)) = a" using assms by simp
qed

context viem_abi begin

text \<open>What a granted request makes the enclave sign, in the contract's terms.\<close>

lemma granted_digest:
  assumes "granted V G env msg tag req plain terms caller signature"
    and "tag = withdraw_tag V \<and> tw = WITHDRAW_TAG E \<or> tag = settle_tag V \<and> tw = SETTLE_TAG E"
    and "0 \<le> now_seconds env" "now_seconds env < 2 ^ 255"
  obtains chain i this where
    "to_bigint (r_chainId req) = Inr chain" "to_bigint (r_streamId req) = Inr i"
    "hex_address (r_vault req) = Some this" "0 \<le> chain" "chain < 2 ^ 256" "0 \<le> i" "i < 2 ^ 256"
    "to_lower (r_commitment req) = hex32 (keccak E plain)"
    "decodeTerms V (bytesToHex plain) = Inr terms"
    "request_digest V req tag (accruedAt terms (now_seconds env)) (now_seconds env + 600)
       = Inr (hex32 (auth_digest E tw (word_of_int chain) this (word_of_int i) (keccak E plain)
           (word_of_int (accruedAt terms (now_seconds env))) (word_of_int (now_seconds env + 600))))"
proof -
  from assms(1) obtain issuedAt where g: "decodeTerms V (bytesToHex plain) = Inr terms"
    "to_lower (r_commitment req) = hex32 (keccak E plain)"
    "recover_caller V req tag issuedAt = Inr caller"
    by (auto simp: granted_def keccak_hex)
  have tw: "hex_word 32 tag = Some tw" using assms(2) tag_words by auto
  have "0 \<le> now_seconds env + 600" "now_seconds env + 600 < 2 ^ 256" using assms(3,4) by simp_all
  from sign_auth_digest [OF g(3,2) tw accrued_in_range [OF g(1)] this] g that show thesis by metis
qed

end

text \<open>The signature in an answer is one the vault accepts, for either purpose.\<close>

lemma granted_signed:
  assumes "viem_abi V E" "granted V G env msg tag req plain terms caller signature"
    and "tag = withdraw_tag V \<and> tw = WITHDRAW_TAG E \<or> tag = settle_tag V \<and> tw = SETTLE_TAG E"
    and "signs_for V E sk signer" "tee_keys env = Some (k, sk)"
    and "to_bigint (r_chainId req) = Inr (uint chain)" "hex_address (r_vault req) = Some this"
    and "to_bigint (r_streamId req) = Inr (uint i)" "to_lower (r_commitment req) = hex32 c"
    and "0 \<le> now_seconds env" "now_seconds env < 2 ^ 255"
  obtains sig where "signature = bytesToHex sig" "decodeTerms V (bytesToHex plain) = Inr terms" "keccak E plain = c"
    "recoverEthSigned E (auth_digest E tw chain this i c (word_of_int (accruedAt terms (now_seconds env)))
       (word_of_int (now_seconds env + 600))) sig = Inr signer"
proof -
  let ?a = "accruedAt terms (now_seconds env)" let ?dl = "now_seconds env + 600"
  obtain chain' j this' where q: "to_bigint (r_chainId req) = Inr chain'"
    "to_bigint (r_streamId req) = Inr j" "hex_address (r_vault req) = Some this'"
    "to_lower (r_commitment req) = hex32 (keccak E plain)" "decodeTerms V (bytesToHex plain) = Inr terms"
    "request_digest V req tag ?a ?dl
       = Inr (hex32 (auth_digest E tw (word_of_int chain') this' (word_of_int j)
           (keccak E plain) (word_of_int ?a) (word_of_int ?dl)))"
    using viem_abi.granted_digest [OF assms(1-3,10,11)] by metis
  have c: "keccak E plain = c" using q(4) assms(9) hex32_inj by simp
  have "word_of_int chain' = chain" "word_of_int j = i" "this' = this" using q(1-3) assms(6-8) by auto
  with q(6) c have dig: "request_digest V req tag ?a ?dl
      = Inr (hex32 (auth_digest E tw chain this i c (word_of_int ?a) (word_of_int ?dl)))" by simp
  obtain sig where sig: "v_sign V sk (hex32 (auth_digest E tw chain this i c (word_of_int ?a) (word_of_int ?dl)))
      = Inr (bytesToHex sig)"
    "recoverEthSigned E (auth_digest E tw chain this i c (word_of_int ?a) (word_of_int ?dl)) sig = Inr signer"
    using assms(4) unfolding signs_for_def by blast
  have "signature = bytesToHex sig"
    using assms(2,5) dig sig(1) by (auto simp: granted_def sign_auth_def)
  then show thesis using q(5) c sig(2) by (rule that)
qed

text \<open>C16: an authorization is worth its amount.  When the enclave, whose key belongs to the registered
  signer, answers a withdrawal request that names this chain, this vault and a stream with its
  commitment, the returned amount, deadline and signature pass the vault's check until the deadline,
  and the withdrawal succeeds and pays whenever the stream is live, something new has accrued, and the
  token transfers.\<close>

theorem authorization_honoured:
  assumes "viem_abi V E" "signs_for V E sk (v_teeSigner v)" "tee_keys env = Some (k, sk)"
    and "authorize V G env msg (withdraw_tag V) n = (Inr (Some d, st, er), n')"
    and "decode_request G msg = Inr req" "to_bigint (r_chainId req) = Inr (uint (tx_chain x))"
    and "hex_address (r_vault req) = Some (tx_this x)" "to_bigint (r_streamId req) = Inr (uint i)"
    and "to_lower (r_commitment req) = hex32 (s_commitment (v_streams v i))"
    and "0 \<le> now_seconds env" "now_seconds env < 2 ^ 255"
    and "int (unat (tx_time x)) \<le> now_seconds env + 600"
  shows "\<exists>plain terms sig. decodeTerms V (bytesToHex plain) = Inr terms \<and>
     keccak E plain = s_commitment (v_streams v i) \<and>
     (let amount = accruedAt terms (now_seconds env); deadline = now_seconds env + 600;
          s = v_streams v i; cap = min (nat amount) (unat (s_funded s)) in
      d = json_to_hex (auth_response req amount deadline (bytesToHex sig) (bytesToHex plain)) \<and>
      tee_signed E (WITHDRAW_TAG E) x v i (word_of_int amount) (word_of_int deadline) sig \<and>
      (v_entered v = 1 \<and> s_employer s \<noteq> 0 \<and> \<not> s_cancelled s \<and> unat (s_withdrawn s) < cap \<and>
       t_transfer T (s_token s) (tx_this x) (s_recipient s) (of_nat (cap - unat (s_withdrawn s))) w
         = TokReturn True w' cs \<longrightarrow>
       (\<exists>v'. withdraw E T x i (word_of_int amount) (word_of_int deadline) sig (v, w) = Inr (v', w'))))"
proof -
  from assms(4) obtain req' plain terms caller signature where
    g: "granted V G env msg (withdraw_tag V) req' plain terms caller signature" and
    d: "d = json_to_hex (auth_response req' (accruedAt terms (now_seconds env))
      (now_seconds env + 600) signature (bytesToHex plain))"
    by (rule authorize_data) blast
  have [simp]: "req' = req" using g assms(5) by (simp add: granted_def)
  let ?a = "accruedAt terms (now_seconds env)" let ?dl = "now_seconds env + 600"
  have wt: "withdraw_tag V = withdraw_tag V \<and> WITHDRAW_TAG E = WITHDRAW_TAG E \<or>
      withdraw_tag V = settle_tag V \<and> WITHDRAW_TAG E = SETTLE_TAG E" by simp
  obtain sig where q: "signature = bytesToHex sig" "decodeTerms V (bytesToHex plain) = Inr terms"
    and c: "keccak E plain = s_commitment (v_streams v i)"
    and sg: "recoverEthSigned E (auth_digest E (WITHDRAW_TAG E) (tx_chain x) (tx_this x) i (s_commitment (v_streams v i))
       (word_of_int ?a) (word_of_int ?dl)) sig = Inr (v_teeSigner v)"
    using granted_signed [OF assms(1) g [simplified] wt assms(2,3,6-11)] .
  have signed: "tee_signed E (WITHDRAW_TAG E) x v i (word_of_int ?a) (word_of_int ?dl) sig"
    using sg by (simp add: tee_signed_def)
  moreover note ar = unat_word_of_int [OF viem_abi.accrued_in_range [OF assms(1) q(2)], of "now_seconds env"]
  moreover have time: "tx_time x \<le> word_of_int ?dl"
  proof -
    have "int (unat (word_of_int ?dl :: uint256)) = ?dl"
      using assms(10,11) by (intro unat_word_of_int(2)) simp_all
    with assms(12) show ?thesis by (simp add: word_le_def)
  qed
  moreover have pay: "unat (of_nat (min m (unat (f :: uint128)) - b) :: uint256) = min m (unat f) - b" for m f b
  proof -
    have "unat f < 2 ^ LENGTH(128)" by (rule unsigned_less)
    then show ?thesis by (simp add: unat_of_nat take_bit_nat_eq_self)
  qed
  let ?s = "v_streams v i" let ?cap = "min (nat ?a) (unat (s_funded ?s))"
  have "v_entered v = 1 \<and> s_employer ?s \<noteq> 0 \<and> \<not> s_cancelled ?s \<and> unat (s_withdrawn ?s) < ?cap \<and>
       t_transfer T (s_token ?s) (tx_this x) (s_recipient ?s) (of_nat (?cap - unat (s_withdrawn ?s))) w
         = TokReturn True w' cs \<longrightarrow>
       (\<exists>v'. withdraw E T x i (word_of_int ?a) (word_of_int ?dl) sig (v, w) = Inr (v', w'))"
    using withdraw_succeeds [where T = T, OF _ _ _ time signed, unfolded ar(1), OF _ _ _ _ pay]
    by blast
  ultimately show ?thesis
    using q c d signed
    by - (rule exI [of _ plain], rule exI [of _ terms], rule exI [of _ sig], simp add: Let_def)
qed

lemma demo_signs: "signs_for demo_viem demo_evm k 5"
proof -
  have "recoverEthSigned demo_evm h (replicate 64 0 @ [27]) = Inr 5" for h
    by (simp add: recoverEthSigned_def demo_evm_def Let_def)
  then show ?thesis by (auto simp: signs_for_def)
qed

theorem authorization_honoured_witness:
  "\<exists>v x plain terms sig. decodeTerms demo_viem (bytesToHex plain) = Inr terms \<and>
      keccak demo_evm plain = s_commitment (v_streams v 1) \<and>
      tee_signed demo_evm (WITHDRAW_TAG demo_evm) x v 1 (word_of_int (accruedAt terms 2000))
        (word_of_int 2600) sig"
proof -
  let ?v = "set_stream 1 (empty_stream\<lparr>s_commitment := keccak demo_evm demo_plain\<rparr>) (new_vault 1 5)"
  let ?x = "\<lparr>tx_sender = 2, tx_time = 2500, tx_chain = 114, tx_this = ucast (be_word (replicate 19 0 @ [9]))\<rparr>"
  obtain d where "authorize demo_viem demo_engine demo_env
      (JStr (json_to_hex (request_json demo_req))) (withdraw_tag demo_viem) 0 = (Inr (Some d, 1, None), 1)"
    using demo_granted_withdraw [of demo_engine 0] by auto
  note h = authorization_honoured [OF demo.viem_abi_axioms _ demo_keys this
      decode_request_json [OF demo_req_ok], of ?v ?x 1]
  have "\<exists>plain terms sig. decodeTerms demo_viem (bytesToHex plain) = Inr terms \<and>
      keccak demo_evm plain = s_commitment (v_streams ?v 1) \<and>
      tee_signed demo_evm (WITHDRAW_TAG demo_evm) ?x ?v 1 (word_of_int (accruedAt terms 2000))
        (word_of_int 2600) sig"
    using h demo_signs demo_now
    by (simp add: demo_req_def hex32_def to_bigint_def hex_address_def new_vault_def Let_def) blast
  then show ?thesis by blast
qed

end
