(* ===== verification/SystemSafety.thy ===== *)
theory SystemSafety
  imports EndToEnd Solvency
begin

text \<open>
  The system as a state machine, and its main safety property: whatever is called in whatever order, by
  whomever, a stream never pays its recipient more than its sealed terms have accrued.
\<close>

section \<open>The machine\<close>

text \<open>What the enclave has granted, and when.\<close>

record grant =
  g_tag :: jsstr
  g_req :: auth_request
  g_plain :: bytes
  g_terms :: stream_terms
  g_time :: int

record 'w system =
  y_vault :: vault
  y_world :: 'w
  y_clock :: int
  y_grants :: "grant list"

definition grant_digest :: "viem \<Rightarrow> grant \<Rightarrow> jsstr result" where
  "grant_digest V g = request_digest V (g_req g) (g_tag g) (accruedAt (g_terms g) (g_time g)) (g_time g + 600)"

text \<open>The authorization a vault call carries.\<close>

fun call_auth :: "vcall \<Rightarrow> (uint256 \<times> uint256 \<times> uint256 \<times> bytes) option" where
  "call_auth (CWithdraw i a d sig) = Some (i, a, d, sig)"
| "call_auth (CCancelStream i a d sig) = Some (i, a, d, sig)"
| "call_auth _ = None"

text \<open>
  The assumptions on the cryptography are premises of the steps.  \<open>S\<close> holds every byte string that is
  hashed as terms or as an authorization, and has no collision.  A signature the vault accepts for the
  registered signer is one the enclave made, on a digest it granted (the key stays in the enclave, and
  the owner does not rotate the signer in the run).  The enclave's clock and the block time agree.
\<close>

definition no_forgery :: "viem \<Rightarrow> evm \<Rightarrow> vault \<Rightarrow> grant list \<Rightarrow> vcall \<Rightarrow> bool" where
  "no_forgery V E v gs c \<longleftrightarrow>
     (\<forall>i a d sig h. call_auth c = Some (i, a, d, sig) \<and>
        recoverEthSigned E h sig = Inr (v_teeSigner v) \<longrightarrow>
        (\<exists>g\<in>set gs. grant_digest V g = Inr (hex32 h)))"

definition hashed_in :: "evm \<Rightarrow> bytes set \<Rightarrow> txenv \<Rightarrow> vault \<Rightarrow> vcall \<Rightarrow> bool" where
  "hashed_in E S x v c \<longleftrightarrow>
     (\<forall>i a d sig tag. call_auth c = Some (i, a, d, sig) \<and> tag \<in> {WITHDRAW_TAG E, SETTLE_TAG E} \<longrightarrow>
        abi_encode (auth_words tag (tx_chain x) (tx_this x) i (s_commitment (v_streams v i)) a d) \<in> S)"

inductive sys_step ::
    "viem \<Rightarrow> evm \<Rightarrow> 'w tokens \<Rightarrow> bytes set \<Rightarrow> 'w system \<Rightarrow> 'w system \<Rightarrow> bool"
  for V :: viem and E :: evm and T :: "'w tokens" and S :: "bytes set"
where
  clock: "y_clock y \<le> t \<Longrightarrow> t < 2 ^ 255 \<Longrightarrow> sys_step V E T S y (y\<lparr>y_clock := t\<rparr>)"
| elsewhere: "sys_step V E T S y (y\<lparr>y_world := w\<rparr>)"
| grant: "authorize V G env msg tag n = (Inr (Some d, st, er), n') \<Longrightarrow>
     granted V G env msg tag req plain terms caller signature \<Longrightarrow>
     tag \<in> {withdraw_tag V, settle_tag V} \<Longrightarrow> now_seconds env = y_clock y \<Longrightarrow> plain \<in> S \<Longrightarrow>
     g = \<lparr>g_tag = tag, g_req = req, g_plain = plain, g_terms = terms, g_time = y_clock y\<rparr> \<Longrightarrow>
     (\<forall>tw chain this i c a d. grant_digest V g = Inr (hex32 (auth_digest E tw chain this i c a d)) \<longrightarrow>
        abi_encode (auth_words tw chain this i c a d) \<in> S) \<Longrightarrow>
     sys_step V E T S y (y\<lparr>y_grants := y_grants y @ [g]\<rparr>)"
| call: "vault_call E T x c (y_vault y, y_world y) = Inr (v', w') \<Longrightarrow>
     int (unat (tx_time x)) = y_clock y \<Longrightarrow> tx_sender x \<noteq> 0 \<Longrightarrow>
     no_forgery V E (y_vault y) (y_grants y) c \<Longrightarrow> hashed_in E S x (y_vault y) c \<Longrightarrow>
     sys_step V E T S y (y\<lparr>y_vault := v', y_world := w'\<rparr>)"

section \<open>The invariant\<close>

definition grant_ok :: "viem \<Rightarrow> evm \<Rightarrow> bytes set \<Rightarrow> int \<Rightarrow> grant \<Rightarrow> bool" where
  "grant_ok V E S now g \<longleftrightarrow>
     g_plain g \<in> S \<and> g_time g \<le> now \<and> decodeTerms V (bytesToHex (g_plain g)) = Inr (g_terms g) \<and>
     (\<exists>tw chain this i. tw \<in> {WITHDRAW_TAG E, SETTLE_TAG E} \<and>
        (let ws = auth_words tw chain this i (keccak E (g_plain g))
            (word_of_int (accruedAt (g_terms g) (g_time g))) (word_of_int (g_time g + 600))
         in grant_digest V g = Inr (hex32 (keccak E (abi_encode ws))) \<and> abi_encode ws \<in> S))"

text \<open>No stream with the commitment of terms in \<open>S\<close> has paid out more than they have accrued.\<close>

definition not_overpaid :: "viem \<Rightarrow> evm \<Rightarrow> bytes set \<Rightarrow> vault \<Rightarrow> int \<Rightarrow> bool" where
  "not_overpaid V E S v now \<longleftrightarrow>
     (\<forall>i blob terms. blob \<in> S \<and> keccak E blob = s_commitment (v_streams v i) \<and>
        decodeTerms V (bytesToHex blob) = Inr terms \<longrightarrow>
        int (unat (s_withdrawn (v_streams v i))) \<le> accruedAt terms now)"

definition sys_inv :: "viem \<Rightarrow> evm \<Rightarrow> bytes set \<Rightarrow> 'w system \<Rightarrow> bool" where
  "sys_inv V E S y \<longleftrightarrow> vault_ok (y_vault y) \<and> 0 \<le> y_clock y \<and> y_clock y < 2 ^ 255 \<and>
     (\<forall>g\<in>set (y_grants y). grant_ok V E S (y_clock y) g) \<and>
     not_overpaid V E S (y_vault y) (y_clock y)"

text \<open>How a call can raise what a stream has paid out.\<close>

lemma call_withdrawn:
  assumes "vault_call E T x c (v, w) = Inr (v', w')" "vault_ok v" "tx_sender x \<noteq> 0"
  shows "s_withdrawn (v_streams v' j) = 0 \<or>
    s_commitment (v_streams v' j) = s_commitment (v_streams v j) \<and>
    (unat (s_withdrawn (v_streams v' j)) \<le> unat (s_withdrawn (v_streams v j)) \<or>
     (\<exists>tag a d sig. call_auth c = Some (j, a, d, sig) \<and> tag \<in> {WITHDRAW_TAG E, SETTLE_TAG E} \<and>
        tee_signed E tag x v j a d sig \<and> unat (s_withdrawn (v_streams v' j)) \<le> unat a))"
proof -
  have framed: "s_withdrawn (v_streams v' j) = 0 \<or> v_streams v' j = v_streams v j" if "frame v v'"
    using that unfolding frame_def by blast
  have other: "s_withdrawn (v_streams v' j) = 0 \<or> v_streams v' j = v_streams v j"
    if "touches v i s' v'" "j \<noteq> i" for i s'
    using that unfolding touches_def frame_def by (auto simp: set_stream_def)
  have same: "s_commitment s' = s_commitment (v_streams v i)" "v_streams v' i = s'"
    if "touches v i s' v'" for i s'
    using that touches_stream(1) [OF that assms(2)] by (auto simp: touches_def evolves_def)
  show ?thesis
  proof (cases c)
    case (CSetTeeSigner a)
    with assms(1) framed frame_setTeeSigner show ?thesis by (auto split: sum.splits)
  next
    case (CCreateStream r t co st enc)
    with assms(1) framed frame_createStream show ?thesis by (auto split: sum.splits)
  next
    case (CRevealTerms i terms)
    with assms(1) framed frame_revealTerms show ?thesis by (auto split: sum.splits)
  next
    case (CFund i n)
    then obtain s' where "touches v i s' v'" "s_withdrawn s' = s_withdrawn (v_streams v i)"
      using fund_touches [of E T x i n v w v' w'] assms by auto
    with other [of i s'] same [of i s'] show ?thesis by (cases "j = i") auto
  next
    case (CWithdraw i a d sig)
    then have wd: "withdraw E T x i a d sig (v, w) = Inr (v', w')" using assms(1) by simp
    then obtain s' where s': "touches v i s' v'"
      "unat (s_withdrawn s') = min (unat a) (unat (s_funded (v_streams v i)))"
      using withdraw_touches [OF wd assms(2)] by blast
    have "tee_signed E (WITHDRAW_TAG E) x v i a d sig" by (rule withdraw_Inr [OF wd])
    with s' other [OF s'(1)] same [OF s'(1)] CWithdraw show ?thesis by (cases "j = i") auto
  next
    case (CCancelStream i a d sig)
    then have cc: "cancelStream E T x i a d sig (v, w) = Inr (v', w')" using assms(1) by simp
    then obtain s' where s': "touches v i s' v'"
      "unat (s_withdrawn s') = max (min (unat a) (unat (s_funded (v_streams v i))))
         (unat (s_withdrawn (v_streams v i)))"
      using cancel_touches [OF cc assms(2,3)] by blast
    have "tee_signed E (SETTLE_TAG E) x v i a d sig" by (rule cancelStream_Inr [OF cc assms(2)])
    with s' other [OF s'(1)] same [OF s'(1)] CCancelStream show ?thesis
      by (cases "j = i") (auto simp: max_def split: if_splits)
  qed
qed

context viem_abi begin

lemma accrued_mono:
  assumes "decodeTerms V h = Inr t" "m \<le> n"
  shows "accruedAt t m \<le> accruedAt t n"
  using accruedAt_meter_parts(4) [of t m n] decoded_terms [OF assms(1)] assms(2) by blast

lemma granted_ok:
  assumes "granted V G env msg tag req plain terms caller signature"
    and "tag \<in> {withdraw_tag V, settle_tag V}" "plain \<in> S" "0 \<le> now_seconds env" "now_seconds env < 2 ^ 255"
    and "g = \<lparr>g_tag = tag, g_req = req, g_plain = plain, g_terms = terms, g_time = now_seconds env\<rparr>"
    and "\<forall>tw chain this i c a d. grant_digest V g = Inr (hex32 (auth_digest E tw chain this i c a d)) \<longrightarrow>
        abi_encode (auth_words tw chain this i c a d) \<in> S"
  shows "grant_ok V E S (now_seconds env) g"
proof -
  obtain tw where tw: "tag = withdraw_tag V \<and> tw = WITHDRAW_TAG E \<or> tag = settle_tag V \<and> tw = SETTLE_TAG E"
    using assms(2) by blast
  obtain chain i this where d: "decodeTerms V (bytesToHex plain) = Inr terms"
    "request_digest V req tag (accruedAt terms (now_seconds env)) (now_seconds env + 600)
       = Inr (hex32 (auth_digest E tw (word_of_int chain) this (word_of_int i) (keccak E plain)
           (word_of_int (accruedAt terms (now_seconds env))) (word_of_int (now_seconds env + 600))))"
    by (rule granted_digest [OF assms(1) tw assms(4,5)])
  then have gd: "grant_digest V g = Inr (hex32 (auth_digest E tw (word_of_int chain) this (word_of_int i)
      (keccak E plain) (word_of_int (accruedAt terms (now_seconds env))) (word_of_int (now_seconds env + 600))))"
    by (simp add: grant_digest_def assms(6))
  with assms(7) have "abi_encode (auth_words tw (word_of_int chain) this (word_of_int i) (keccak E plain)
      (word_of_int (accruedAt terms (now_seconds env))) (word_of_int (now_seconds env + 600))) \<in> S"
    by blast
  moreover have "tw \<in> {WITHDRAW_TAG E, SETTLE_TAG E}" using tw by blast
  ultimately show ?thesis
    using gd d(1) assms(3,6) unfolding grant_ok_def auth_digest_def Let_def by auto
qed

text \<open>What the vault accepts was granted, for this commitment and with this amount.\<close>

lemma accepted_amount:
  assumes "tee_signed E tag x v j a d sig" "call_auth c = Some (j, a, d, sig)"
    and "tag \<in> {WITHDRAW_TAG E, SETTLE_TAG E}" "no_forgery V E v gs c" "hashed_in E S x v c"
    and "inj_on (keccak E) S" "\<forall>g\<in>set gs. grant_ok V E S now g"
  obtains g where "g \<in> set gs" "keccak E (g_plain g) = s_commitment (v_streams v j)"
    "a = word_of_int (accruedAt (g_terms g) (g_time g))"
proof -
  let ?ws = "auth_words tag (tx_chain x) (tx_this x) j (s_commitment (v_streams v j)) a d"
  obtain g where g: "g \<in> set gs" "grant_digest V g = Inr (hex32 (keccak E (abi_encode ?ws)))"
    using assms(1,2,4) unfolding no_forgery_def tee_signed_def auth_digest_def by blast
  have S: "abi_encode ?ws \<in> S" using assms(2,3,5) unfolding hashed_in_def by blast
  obtain tw chain this i where gw:
    "grant_digest V g = Inr (hex32 (keccak E (abi_encode (auth_words tw chain this i (keccak E (g_plain g))
       (word_of_int (accruedAt (g_terms g) (g_time g))) (word_of_int (g_time g + 600))))))"
    "abi_encode (auth_words tw chain this i (keccak E (g_plain g))
       (word_of_int (accruedAt (g_terms g) (g_time g))) (word_of_int (g_time g + 600))) \<in> S"
    using assms(7) g(1) unfolding grant_ok_def Let_def by blast
  let ?us = "auth_words tw chain this i (keccak E (g_plain g))
       (word_of_int (accruedAt (g_terms g) (g_time g))) (word_of_int (g_time g + 600))"
  have "hex32 (keccak E (abi_encode ?ws)) = hex32 (keccak E (abi_encode ?us))"
    using g(2) gw(1) by simp
  from inj_onD [OF assms(6) hex32_inj [OF this] S gw(2)] have "?ws = ?us"
    by (rule abi_encode_inj [rotated]) (simp add: auth_words_def)
  then have "s_commitment (v_streams v j) = keccak E (g_plain g)"
    "a = word_of_int (accruedAt (g_terms g) (g_time g))"
    by (auto simp: auth_words_def)
  then show thesis by (intro that [OF g(1)]) simp_all
qed

lemma call_not_overpaid:
  assumes "vault_call E T x c (v, w) = Inr (v', w')" "tx_sender x \<noteq> 0" "vault_ok v"
    and "no_forgery V E v gs c" "hashed_in E S x v c" "inj_on (keccak E) S"
    and "\<forall>g\<in>set gs. grant_ok V E S now g" "not_overpaid V E S v now"
  shows "not_overpaid V E S v' now"
  unfolding not_overpaid_def
proof (intro allI impI)
  fix j blob terms
  assume b: "blob \<in> S \<and> keccak E blob = s_commitment (v_streams v' j) \<and>
    decodeTerms V (bytesToHex blob) = Inr terms"
  note pos = accrued_in_range(1) [of "bytesToHex blob" terms now]
  from call_withdrawn [OF assms(1,3,2), of j]
  show "int (unat (s_withdrawn (v_streams v' j))) \<le> accruedAt terms now"
  proof (elim disjE conjE exE)
    assume "s_withdrawn (v_streams v' j) = 0"
    with b pos show ?thesis by simp
  next
    assume "s_commitment (v_streams v' j) = s_commitment (v_streams v j)"
      "unat (s_withdrawn (v_streams v' j)) \<le> unat (s_withdrawn (v_streams v j))"
    with b assms(8) show ?thesis unfolding not_overpaid_def by (metis (no_types, lifting) of_nat_mono order_trans)
  next
    fix tag a d sig
    assume c: "s_commitment (v_streams v' j) = s_commitment (v_streams v j)"
      "call_auth c = Some (j, a, d, sig)" "tag \<in> {WITHDRAW_TAG E, SETTLE_TAG E}"
      "tee_signed E tag x v j a d sig" "unat (s_withdrawn (v_streams v' j)) \<le> unat a"
    obtain g where g: "g \<in> set gs" "keccak E (g_plain g) = s_commitment (v_streams v j)"
      "a = word_of_int (accruedAt (g_terms g) (g_time g))"
      by (rule accepted_amount [OF c(4,2,3) assms(4-7)])
    have gok: "g_plain g \<in> S" "g_time g \<le> now" "decodeTerms V (bytesToHex (g_plain g)) = Inr (g_terms g)"
      using assms(7) g(1) unfolding grant_ok_def by auto
    have "g_plain g = blob" using g(2) b c(1) gok(1) assms(6) by (metis inj_onD)
    with b gok(3) have terms: "g_terms g = terms" by simp
    have "int (unat a) = accruedAt terms (g_time g)"
      using unat_word_of_int(2) [OF accrued_in_range [OF gok(3)]] g(3) terms by simp
    moreover have "accruedAt terms (g_time g) \<le> accruedAt terms now"
      using accrued_mono gok(2) b by blast
    ultimately show ?thesis using c(5) by linarith
  qed
qed

lemma sys_step_inv:
  assumes "sys_step V E T S y y'" "sys_inv V E S y" "inj_on (keccak E) S"
  shows "sys_inv V E S y'"
  using assms(1)
proof cases
  case (clock t)
  have "grant_ok V E S t g" if "grant_ok V E S (y_clock y) g" for g
    using that clock(2) unfolding grant_ok_def by auto
  moreover have "not_overpaid V E S (y_vault y) t"
    using assms(2) accrued_mono [OF _ clock(2)] unfolding sys_inv_def not_overpaid_def
    by (meson order_trans)
  ultimately show ?thesis using assms(2) clock by (auto simp: sys_inv_def)
next
  case (elsewhere w)
  with assms(2) show ?thesis by (simp add: sys_inv_def)
next
  case (grant G env msg tag n d st er n' req plain terms caller signature g)
  have "grant_ok V E S (y_clock y) g"
    using granted_ok [OF grant(3,4,6)] grant(5,7,8) assms(2) by (simp add: sys_inv_def)
  with grant(1) assms(2) show ?thesis by (auto simp: sys_inv_def)
next
  case (call x c v' w')
  have "vault_ok v'"
    using vault_call_cases [OF call(2) _ call(4)] assms(2) vault_ok_frame touches_ok
    by (auto simp: sys_inv_def)
  moreover have "not_overpaid V E S v' (y_clock y)"
    using call_not_overpaid [OF call(2,4) _ call(5,6) assms(3)] assms(2) by (simp add: sys_inv_def)
  ultimately show ?thesis using call(1) assms(2) by (simp add: sys_inv_def)
qed

lemma sys_run_inv:
  "(sys_step V E T S)\<^sup>*\<^sup>* y y' \<Longrightarrow> sys_inv V E S y \<Longrightarrow> inj_on (keccak E) S \<Longrightarrow> sys_inv V E S y'"
  by (induction rule: rtranclp_induct) (auto intro: sys_step_inv)

lemma sys_inv_init:
  assumes "0 \<le> t" "t < 2 ^ 255"
  shows "sys_inv V E S \<lparr>y_vault = new_vault owner signer, y_world = w, y_clock = t, y_grants = []\<rparr>"
proof -
  have "s_withdrawn (v_streams (new_vault owner signer) i) = 0" for i by (simp add: new_vault_def)
  then show ?thesis
    using assms accrued_in_range(1) by (auto simp: sys_inv_def not_overpaid_def)
qed

end

section \<open>Safety\<close>

text \<open>C17: nobody is ever overpaid.  Start from a freshly deployed vault and let, in any order, the clock
  advance, the tokens move, the enclave grant requests of anybody and anybody call the vault.  Then what
  a stream has paid out never exceeds what the terms behind its commitment have accrued by now, as long
  as the hash has no collision among the hashed texts and the vault is shown no forged signature.\<close>

theorem never_overpaid:
  assumes "viem_abi V E" "inj_on (keccak E) S" "0 \<le> t" "t < 2 ^ 255"
    and "(sys_step V E T S)\<^sup>*\<^sup>*
      \<lparr>y_vault = new_vault owner signer, y_world = w, y_clock = t, y_grants = []\<rparr> y"
    and "blob \<in> S" "keccak E blob = s_commitment (v_streams (y_vault y) i)"
    and "decodeTerms V (bytesToHex blob) = Inr terms"
  shows "int (unat (s_withdrawn (v_streams (y_vault y) i))) \<le> accruedAt terms (y_clock y)"
  using viem_abi.sys_run_inv [OF assms(1,5) viem_abi.sys_inv_init [OF assms(1,3,4)] assms(2)] assms(6-8)
  unfolding sys_inv_def not_overpaid_def by blast

subsection \<open>A run that pays\<close>

text \<open>
  A world in which the premises of the theorem hold: the hash keeps the last word of what it is given, but
  for one authorization, which alone is hashed to 1; and only a signature on that digest recovers to the
  enclave's account.
\<close>

definition SW_word :: uint256 where
  "SW_word = be_word (ascii_bytes ''SW_WITHDRAW_V1'')"

definition run_auth :: bytes where
  "run_auth = abi_encode (auth_words SW_word 114 9 1 99 1000 2600)"

definition run_evm :: evm where
  "run_evm = \<lparr>keccak = (\<lambda>bs. let w = be_word (drop (length bs - 32) bs) in
       if bs = run_auth then 1 else if length bs = 224 \<and> w = 1 then 0 else w),
     ecrecover = (\<lambda>d v r s. if d = 1 then 5 else 6)\<rparr>"

definition run_viem :: viem where
  "run_viem = ref_viem run_evm (\<lambda>_ _. Inr demo_employer) (\<lambda>_ _. Inr (bytesToHex (replicate 64 0 @ [27]))) (\<lambda>_ c. Inr c)"

interpretation run: viem_abi run_viem run_evm
  unfolding run_viem_def by (rule ref.viem_abi_axioms)

definition run_req :: auth_request where
  "run_req = demo_req\<lparr>r_commitment := hex32 99\<rparr>"

definition run_grant :: grant where
  "run_grant = \<lparr>g_tag = withdraw_tag run_viem, g_req = run_req, g_plain = demo_plain, g_terms = demo_stream_terms,
     g_time = 2000\<rparr>"

definition run_texts :: "bytes set" where
  "run_texts = {demo_plain, run_auth, abi_encode (auth_words (SETTLE_TAG run_evm) 114 9 1 99 1000 2600)}"

definition run_tokens :: "unit tokens" where
  "run_tokens = \<lparr>t_transfer = (\<lambda>_ _ _ _ w. TokReturn True w []), t_transferFrom = (\<lambda>_ _ _ _ _ w. TokReturn True w [])\<rparr>"

lemma run_words: "length us = length ws \<Longrightarrow> abi_encode us = abi_encode ws \<longleftrightarrow> us = ws"
  using abi_encode_inj by blast

lemma run_lower: "to_lower (hex32 w) = hex32 w"
  by (simp add: hex32_def)

lemma run_last:
  assumes "length ws = 6"
  shows "keccak run_evm (abi_encode (ws @ [w])) =
     (if abi_encode (ws @ [w]) = run_auth then 1 else if w = 1 then 0 else w)"
proof -
  have "abi_encode (ws @ [w]) = abi_encode ws @ word_be w" by (simp add: abi_encode_def)
  moreover have "length (abi_encode ws) = 192" using assms by simp
  ultimately show ?thesis by (simp add: run_evm_def Let_def)
qed

lemma run_hash:
  "keccak run_evm (abi_encode [u1, u2, u3, u4, u5, u6, w]) =
     (if [u1, u2, u3, u4, u5, u6, w] = [SW_word, 114, 9, 1, 99, 1000, 2600] then 1 else if w = 1 then 0 else w)"
  using run_last [of "[u1, u2, u3, u4, u5, u6]" w]
  by (simp add: run_auth_def auth_words_def run_words)

lemma run_short: "length bs < 224 \<Longrightarrow> keccak run_evm bs = be_word (drop (length bs - 32) bs)"
proof -
  have "length run_auth = 224" by (simp add: run_auth_def auth_words_def)
  then show "length bs < 224 \<Longrightarrow> keccak run_evm bs = be_word (drop (length bs - 32) bs)"
    by (auto simp: run_evm_def Let_def)
qed

lemma run_tags: "WITHDRAW_TAG run_evm = SW_word"
  by (simp add: WITHDRAW_TAG_def SW_word_def run_short ascii_bytes_def)

lemma run_tags_differ: "SETTLE_TAG run_evm \<noteq> SW_word"
  by (simp add: SETTLE_TAG_def SW_word_def run_short ascii_bytes_def be_word_def)

lemma run_eth: "eth_digest run_evm d = d"
  unfolding eth_digest_def by (subst run_short) (simp_all add: ascii_bytes_def)

lemma run_plain: "keccak run_evm demo_plain = 99"
  by (simp add: demo_plain_def run_hash)

lemma run_recover: "recoverEthSigned run_evm h (replicate 64 0 @ [27]) = Inr (if h = 1 then 5 else 6)"
  by (simp add: recoverEthSigned_def run_eth Let_def) (simp add: run_evm_def)

lemma run_inj: "inj_on (keccak run_evm) run_texts"
  using run_tags_differ
  by (auto simp: run_texts_def inj_on_def run_auth_def auth_words_def demo_plain_def run_hash)

lemma run_digest:
  "auth_digest run_evm tw chain this i c a d = 1 \<longleftrightarrow> abi_encode (auth_words tw chain this i c a d) = run_auth"
  by (auto simp: auth_digest_def auth_words_def run_hash run_auth_def run_words)

lemma run_caller: "recover_caller run_viem run_req (withdraw_tag run_viem) 1990 = Inr demo_employer"
proof -
  have "\<exists>h. buildCallerChallenge run_viem \<lparr>c_chainId = 114, c_vault = bytesToHex (replicate 19 0 @ [9]),
      c_streamId = 1, c_commitment = hex32 99, c_purpose = withdraw_tag run_viem, c_issuedAt = 1990\<rparr> = Inr (hex32 h)"
    by (subst run.challenge_agrees [where tag = SW_word and c = 99])
      (simp_all add: run.tag_words run_tags run_lower hex_address_def, simp add: run_viem_def ref_viem_def ref_isAddress_lower, blast)
  moreover have "v_recover run_viem ch sg = Inr demo_employer" for ch sg by (simp add: run_viem_def ref_viem_def)
  ultimately show ?thesis by (auto simp: recover_caller_def run_req_def demo_req_def to_bigint_def)
qed

lemma run_granted:
  "\<exists>n' d sg. authorize run_viem demo_engine demo_env (JStr (json_to_hex (request_json run_req))) (withdraw_tag run_viem) 0 = (Inr (Some d, 1, None), n') \<and>
     granted run_viem demo_engine demo_env (JStr (json_to_hex (request_json run_req))) (withdraw_tag run_viem) run_req demo_plain
       demo_stream_terms demo_employer sg"
proof -
  have q: "request_ok run_req" using demo_req_ok by (simp add: run_req_def request_ok_def hex32_def ascii_units_ok ascii_bytesToHex)
  have f: "r_encryptedTerms run_req = bytesToHex demo_plain" "r_issuedAt run_req = js_of_int 1990" "r_commitment run_req = hex32 99"
    by (simp_all add: run_req_def demo_req_def)
  have v: "ecies_decrypt run_viem k c = Inr c" "v_sign run_viem k h = Inr (bytesToHex (replicate 64 0 @ [27]))" for k c h
    by (simp_all add: run_viem_def ref_viem_def)
  have t: "decodeTerms run_viem (bytesToHex demo_plain) = Inr demo_stream_terms"
    using demo_decode by (simp add: decodeTerms_def run_viem_def ref_viem_def demo_viem_def)
  show ?thesis
    using authorize_signs [OF run.viem_abi_axioms q demo_keys, of demo_plain demo_plain demo_stream_terms 1990 "withdraw_tag run_viem"
        demo_employer demo_engine 0]
    by (auto simp: f v t run.keccak_hex run_plain demo_now run_caller party_def demo_stream_terms_def hex32_def)
qed

lemma run_grant_digest: "grant_digest run_viem run_grant = Inr (hex32 1)"
proof -
  have f: "to_bigint (r_chainId run_req) = Inr 114" "to_bigint (r_streamId run_req) = Inr 1"
    "hex_address (r_vault run_req) = Some 9" "to_lower (r_commitment run_req) = hex32 99"
    by (simp_all add: run_req_def demo_req_def to_bigint_def hex_address_def be_word_snoc be_word_zeros run_lower)
  have "accruedAt demo_stream_terms 2000 = 1000"
    by (simp add: accruedAt_def demo_stream_terms_def RATE_SCALE_def sdiv_nonneg Let_def)
  moreover have "hex_word 32 (withdraw_tag run_viem) = Some SW_word" by (simp add: run.tag_words run_tags)
  from run.sign_auth_digest [OF run_caller f(4) this, of 1000 2600]
  have "request_digest run_viem run_req (withdraw_tag run_viem) 1000 2600 = Inr (hex32 (auth_digest run_evm SW_word 114 9 1 99 1000 2600))"
    using f by fastforce
  moreover have "auth_digest run_evm SW_word 114 9 1 99 1000 2600 = 1" by (simp add: run_digest run_auth_def)
  ultimately show ?thesis by (simp add: grant_digest_def run_grant_def)
qed

definition run_tx :: "address \<Rightarrow> uint256 \<Rightarrow> txenv" where
  "run_tx a t = \<lparr>tx_sender = a, tx_time = t, tx_chain = 114, tx_this = 9\<rparr>"

lemma run_calls:
  obtains v1 v2 v3 where
    "vault_call run_evm run_tokens (run_tx 1 1000) (CCreateStream 2 7 99 1000 []) (new_vault 1 5, ()) = Inr (v1, ())"
    "vault_call run_evm run_tokens (run_tx 1 1000) (CFund 1 1000) (v1, ()) = Inr (v2, ())"
    "v_teeSigner v2 = 5" "s_commitment (v_streams v2 1) = 99"
    "vault_call run_evm run_tokens (run_tx 2 2000) (CWithdraw 1 1000 2600 (replicate 64 0 @ [27])) (v2, ()) = Inr (v3, ())"
    "s_commitment (v_streams v3 1) = 99" "s_withdrawn (v_streams v3 1) = 1000"
proof -
  have s: "recoverEthSigned run_evm (auth_digest run_evm (WITHDRAW_TAG run_evm) 114 9 1 99 1000 2600) (replicate 64 0 @ [27]) = Inr 5"
    unfolding run_recover by (simp add: run_tags run_digest run_auth_def)
  show thesis
    by (rule that)
      (simp add: createStream_def new_vault_def checked_add_def vault_upd_defs run_tx_def Let_def,
       simp add: fund_def fund_body_def nonReentrant_def after_call_def checked_add_def vault_upd_defs run_tx_def run_tokens_def Let_def,
       simp_all add: withdraw_def withdraw_body_def nonReentrant_def after_call_def checked_sub_def vault_upd_defs run_tx_def run_tokens_def
         s Let_def, simp_all add: set_stream_def emit_def)
qed

text \<open>The stream is opened and funded; a thousand seconds later the enclave grants what has accrued, and the
  recipient withdraws it: the bound is reached.\<close>

theorem never_overpaid_witness:
  "\<exists>y :: unit system. s_withdrawn (v_streams (y_vault y) 1) = 1000 \<and> length (y_grants y) = 1 \<and>
     1000 \<le> accruedAt demo_stream_terms (y_clock y)"
proof -
  let ?c = "\<lparr>y_vault = new_vault 1 5, y_world = (), y_clock = 1000, y_grants = []\<rparr> :: unit system"
  let ?step = "sys_step run_viem run_evm run_tokens run_texts"
  obtain v1 v2 v3 where v:
    "vault_call run_evm run_tokens (run_tx 1 1000) (CCreateStream 2 7 99 1000 []) (new_vault 1 5, ()) = Inr (v1, ())"
    "vault_call run_evm run_tokens (run_tx 1 1000) (CFund 1 1000) (v1, ()) = Inr (v2, ())"
    "v_teeSigner v2 = 5" "s_commitment (v_streams v2 1) = 99"
    "vault_call run_evm run_tokens (run_tx 2 2000) (CWithdraw 1 1000 2600 (replicate 64 0 @ [27])) (v2, ()) = Inr (v3, ())"
    "s_commitment (v_streams v3 1) = 99" "s_withdrawn (v_streams v3 1) = 1000"
    by (rule run_calls)
  have "?step ?c (?c\<lparr>y_vault := v1\<rparr>)"
    using sys_step.call [of run_evm run_tokens "run_tx 1 1000" "CCreateStream 2 7 99 1000 []" ?c v1 "()" run_viem run_texts] v(1)
    by (simp add: no_forgery_def hashed_in_def run_tx_def)
  moreover have "?step (?c\<lparr>y_vault := v1\<rparr>) (?c\<lparr>y_vault := v2\<rparr>)"
    using sys_step.call [of run_evm run_tokens "run_tx 1 1000" "CFund 1 1000" "?c\<lparr>y_vault := v1\<rparr>" v2 "()" run_viem run_texts] v(2)
    by (simp add: no_forgery_def hashed_in_def run_tx_def)
  moreover have "?step (?c\<lparr>y_vault := v2\<rparr>) (?c\<lparr>y_vault := v2, y_clock := 2000\<rparr>)"
    using sys_step.clock [of "?c\<lparr>y_vault := v2\<rparr>" 2000 run_viem run_evm run_tokens run_texts] by simp
  moreover have "?step (?c\<lparr>y_vault := v2, y_clock := 2000\<rparr>) (?c\<lparr>y_vault := v2, y_clock := 2000, y_grants := [run_grant]\<rparr>)"
  proof -
    obtain n' d sg where g: "authorize run_viem demo_engine demo_env (JStr (json_to_hex (request_json run_req))) (withdraw_tag run_viem) 0
        = (Inr (Some d, 1, None), n')"
      "granted run_viem demo_engine demo_env (JStr (json_to_hex (request_json run_req))) (withdraw_tag run_viem) run_req demo_plain
         demo_stream_terms demo_employer sg"
      using run_granted by blast
    have t: "\<forall>tw chain this i c a d. grant_digest run_viem run_grant = Inr (hex32 (auth_digest run_evm tw chain this i c a d)) \<longrightarrow>
        abi_encode (auth_words tw chain this i c a d) \<in> run_texts"
    proof (intro allI impI)
      fix tw chain this i c a d
      assume "grant_digest run_viem run_grant = Inr (hex32 (auth_digest run_evm tw chain this i c a d))"
      then have "auth_digest run_evm tw chain this i c a d = 1" using run_grant_digest hex32_inj by (metis sum.inject(2))
      then show "abi_encode (auth_words tw chain this i c a d) \<in> run_texts" by (simp add: run_digest run_texts_def)
    qed
    have m: "withdraw_tag run_viem \<in> {withdraw_tag run_viem, settle_tag run_viem}"
      "now_seconds demo_env = y_clock (?c\<lparr>y_vault := v2, y_clock := 2000\<rparr>)" "demo_plain \<in> run_texts"
      "run_grant = \<lparr>g_tag = withdraw_tag run_viem, g_req = run_req, g_plain = demo_plain, g_terms = demo_stream_terms,
         g_time = y_clock (?c\<lparr>y_vault := v2, y_clock := 2000\<rparr>)\<rparr>"
      by (simp_all add: demo_now run_texts_def run_grant_def)
    from sys_step.grant [OF g m t, where T = run_tokens] show ?thesis by simp
  qed
  moreover have "?step (?c\<lparr>y_vault := v2, y_clock := 2000, y_grants := [run_grant]\<rparr>)
      (?c\<lparr>y_vault := v3, y_clock := 2000, y_grants := [run_grant]\<rparr>)"
  proof -
    have "no_forgery run_viem run_evm v2 [run_grant] (CWithdraw 1 1000 2600 (replicate 64 0 @ [27]))"
      using run_grant_digest v(3) by (auto simp: no_forgery_def run_recover split: if_splits)
    moreover have "hashed_in run_evm run_texts (run_tx 2 2000) v2 (CWithdraw 1 1000 2600 (replicate 64 0 @ [27]))"
      by (auto simp: hashed_in_def run_tx_def v(4) run_texts_def run_auth_def run_tags)
    ultimately show ?thesis
      using sys_step.call [of run_evm run_tokens "run_tx 2 2000" "CWithdraw 1 1000 2600 (replicate 64 0 @ [27])" "?c\<lparr>y_vault := v2, y_clock := 2000, y_grants := [run_grant]\<rparr>"
          v3 "()" run_viem run_texts] v(5) by (simp add: run_tx_def)
  qed
  ultimately have run: "?step\<^sup>*\<^sup>* ?c (?c\<lparr>y_vault := v3, y_clock := 2000, y_grants := [run_grant]\<rparr>)"
    by (meson converse_rtranclp_into_rtranclp rtranclp.rtrancl_refl)
  have t: "decodeTerms run_viem (bytesToHex demo_plain) = Inr demo_stream_terms"
    using demo_decode by (simp add: decodeTerms_def run_viem_def ref_viem_def demo_viem_def)
  have "demo_plain \<in> run_texts" by (simp add: run_texts_def)
  from never_overpaid [OF run.viem_abi_axioms run_inj _ _ run this _ t, of 1] v(6,7) run_plain show ?thesis
    by (intro exI [of _ "?c\<lparr>y_vault := v3, y_clock := 2000, y_grants := [run_grant]\<rparr>"]) simp
qed

end
