(* ===== verification/Server.thy ===== *)
theory Server
  imports Framework
begin

text \<open>
  \<^verbatim>\<open>typescript/src/base/server.ts\<close>: the HTTP surface of the extension.  The server is generic
  in the state \<open>'s\<close> its handlers share and in the environment \<open>'e\<close> (process variables, clock)
  they read.  A handler takes the environment, the message and the state, and gives its result, or
  the value its promise rejects with, and the new state.  A rejected promise of a request is \<open>Inl\<close>:
  \<^verbatim>\<open>listenAndServe\<close> leaves it unhandled (\<^verbatim>\<open>void this.serve\<close>), so that no response is sent and
  Node, which by default raises an unhandled rejection as an exception, ends the process (\<open>Crashes\<close>).

  The ports and the socket are not modelled, nor the text of the log line; that the log line may
  throw is.  How \<^verbatim>\<open>serialize\<close> orders overlapping requests is the subject of \<open>RequestQueue\<close>;
  here a request is run against the state its turn finds.
\<close>

type_synonym ('e, 's) handler = "'e \<Rightarrow> json \<Rightarrow> 's \<Rightarrow> handler_result result \<times> 's"

record ('e, 's) server =
  srv_version :: jsstr
  srv_stateVersionHex :: jsstr
  srv_framework :: "('e, 's) handler framework"
  srv_reportState :: "'s \<Rightarrow> json"

definition new_server ::
    "jsstr \<Rightarrow> (('e, 's) handler framework \<Rightarrow> ('e, 's) handler framework result) \<Rightarrow> ('s \<Rightarrow> json) \<Rightarrow>
     ('e, 's) server result" where
  "new_server version register reportState =
     (case stringToBytes32Hex version of
        Inl e \<Rightarrow> Inl e
      | Inr hex \<Rightarrow>
         (case register [] of
            Inl e \<Rightarrow> Inl e
          | Inr fw \<Rightarrow> Inr \<lparr>srv_version = version, srv_stateVersionHex = hex, srv_framework = fw,
                        srv_reportState = reportState\<rparr>))"

section \<open>Replies\<close>

text \<open>A payload is sent as text when it is a string, else as JSON.\<close>

datatype payload = PText jsstr | PJson json

type_synonym reply = "nat \<times> payload"

text \<open>An object literal some of whose members may be \<^verbatim>\<open>undefined\<close>, which JSON drops.\<close>

definition js_object :: "(jsstr \<times> json option) list \<Rightarrow> json" where
  "js_object ms = JObj (concat (map (\<lambda>(k, v). case v of None \<Rightarrow> [] | Some x \<Rightarrow> [(k, x)]) ms))"

text \<open>\<^verbatim>\<open>v ?? d\<close>\<close>

definition nullish :: "json option \<Rightarrow> json \<Rightarrow> json" where
  "nullish v d = (case v of None \<Rightarrow> d | Some JNull \<Rightarrow> d | Some x \<Rightarrow> x)"

definition error_reply :: "jsstr \<Rightarrow> reply" where
  "error_reply m = (400, PJson (JObj [(js ''error'', JStr m)]))"

section \<open>Reading an action\<close>

text \<open>The first half of \<^verbatim>\<open>processAction\<close>: the reply of its early returns, or the \<^verbatim>\<open>data\<close> object
  and the decoded \<^verbatim>\<open>DataFixed\<close>.\<close>

definition read_action :: "engine \<Rightarrow> jsstr \<Rightarrow> reply + json \<times> json" where
  "read_action G body =
     (case parse_json (g_syntax G) body of
        Inl e \<Rightarrow> Inl (error_reply (js ''invalid action JSON: '' @ exn_string e))
      | Inr action \<Rightarrow>
         (case get_prop action (js ''data'') of
            None \<Rightarrow> Inl (error_reply (js ''invalid action structure: missing data''))
          | Some d \<Rightarrow>
             if falsy action \<or> \<not> typeof_object action \<or> falsy d then
               Inl (error_reply (js ''invalid action structure: missing data''))
             else
              (case hexToBytes_val G (get_prop d (js ''message'')) of
                 Inl e \<Rightarrow> Inl (error_reply (js ''invalid hex in message: '' @ exn_string e))
               | Inr msgBytes \<Rightarrow>
                  (case parse_json (g_syntax G) (utf8_decode msgBytes) of
                     Inl e \<Rightarrow> Inl (error_reply (js ''invalid DataFixed JSON in message: '' @ exn_string e))
                   | Inr df \<Rightarrow>
                      if falsy df \<or> \<not> typeof_object df
                         \<or> (case get_prop df (js ''opType'') of None \<Rightarrow> True | Some t \<Rightarrow> falsy t)
                      then Inl (error_reply (js ''invalid DataFixed: missing opType''))
                      else Inr (d, df)))))"

section \<open>Answering an action\<close>

definition log_of :: "nat \<Rightarrow> jsstr option \<Rightarrow> jsstr" where
  "log_of status err =
     (if status = 0 then
        (case err of Some (c # m) \<Rightarrow> js ''error: '' @ (c # m) | _ \<Rightarrow> js ''error: unknown'')
      else if status = 1 then js ''ok''
      else js ''pending'')"

definition action_result :: "jsstr \<Rightarrow> json \<Rightarrow> json \<Rightarrow> handler_result \<Rightarrow> json" where
  "action_result version d df r =
     (case r of (data, status, err) \<Rightarrow> js_object
        [(js ''id'', get_prop d (js ''id'')),
         (js ''submissionTag'', get_prop d (js ''submissionTag'')),
         (js ''status'', Some (JNum (int status) 0)),
         (js ''log'', Some (JStr (log_of status err))),
         (js ''opType'', get_prop df (js ''opType'')),
         (js ''opCommand'', get_prop df (js ''opCommand'')),
         (js ''additionalResultStatus'', Some (JStr (js ''0x''))),
         (js ''version'', Some (JStr version)),
         (js ''data'', Some (JStr (case data of None \<Rightarrow> js ''0x'' | Some x \<Rightarrow> x)))])"

text \<open>
  The log line puts \<^verbatim>\<open>action.data.id\<close> into a template string.  Of the values JSON has, only an
  object with a member \<^verbatim>\<open>toString\<close> (which is never a function) cannot be converted, alone or
  inside arrays.
\<close>

fun to_string_throws :: "json \<Rightarrow> bool" where
  "to_string_throws (JObj ms) \<longleftrightarrow> js ''toString'' \<in> set (map fst ms)"
| "to_string_throws (JArr vs) \<longleftrightarrow> list_ex to_string_throws vs"
| "to_string_throws _ \<longleftrightarrow> False"

text \<open>What the handler is called with, and the whole of \<^verbatim>\<open>processAction\<close>.\<close>

definition original_message :: "json \<Rightarrow> json" where
  "original_message df = nullish (get_prop df (js ''originalMessage'')) (JStr (js ''0x''))"

definition find_handler :: "engine \<Rightarrow> ('e, 's) server \<Rightarrow> json \<Rightarrow> ('e, 's) handler option result" where
  "find_handler G srv df =
     lookup G (the (get_prop df (js ''opType''))) (nullish (get_prop df (js ''opCommand'')) (JStr []))
       (srv_framework srv)"

definition answer :: "engine \<Rightarrow> ('e, 's) server \<Rightarrow> json \<Rightarrow> json \<Rightarrow> handler_result \<Rightarrow> reply result" where
  "answer G srv d df r =
     (if (case get_prop d (js ''id'') of None \<Rightarrow> False | Some v \<Rightarrow> to_string_throws v)
      then Inl (JsExn (js ''TypeError'') (g_type G))
      else Inr (200, PJson (action_result (srv_version srv) d df r)))"

definition processAction ::
    "engine \<Rightarrow> ('e, 's) server \<Rightarrow> 'e \<Rightarrow> jsstr \<Rightarrow> 's \<Rightarrow> reply result \<times> 's" where
  "processAction G srv env body s =
     (case read_action G body of
        Inl reply \<Rightarrow> (Inr reply, s)
      | Inr (d, df) \<Rightarrow>
         (case find_handler G srv df of
            Inl e \<Rightarrow> (Inl e, s)
          | Inr None \<Rightarrow> (Inr (501, PText (js ''unsupported op type'')), s)
          | Inr (Some handler) \<Rightarrow>
             (case handler env (original_message df) s of
                (Inl e, s') \<Rightarrow> (Inl e, s')
              | (Inr r, s') \<Rightarrow> (answer G srv d df r, s'))))"

definition processState :: "('e, 's) server \<Rightarrow> 's \<Rightarrow> reply result \<times> 's" where
  "processState srv s =
     (Inr (200, PJson (JObj [(js ''stateVersion'', JStr (srv_stateVersionHex srv)),
                             (js ''state'', srv_reportState srv s)])), s)"

section \<open>Routing\<close>

definition clean_path :: "jsstr \<Rightarrow> jsstr" where
  "clean_path path = takeWhile (\<lambda>c. c \<noteq> 63) path"

definition handleRequest ::
    "engine \<Rightarrow> ('e, 's) server \<Rightarrow> 'e \<Rightarrow> jsstr \<Rightarrow> jsstr \<Rightarrow> jsstr \<Rightarrow> 's \<Rightarrow> reply result \<times> 's" where
  "handleRequest G srv env meth path body s =
     (if clean_path path = js ''/action'' then
        if meth = js ''POST'' then processAction G srv env body s
        else (Inr (405, PText (js ''method not allowed'')), s)
      else if clean_path path = js ''/state'' then
        if meth = js ''GET'' then processState srv s
        else (Inr (405, PText (js ''method not allowed'')), s)
      else (Inr (404, PText (js ''not found'')), s))"

section \<open>Transport\<close>

text \<open>The events of a request's body, in order; \<open>None\<close> is a body that has not ended.\<close>

datatype body_event = Chunk bytes | BodyEnd | BodyError

fun readBody :: "bytes \<Rightarrow> body_event list \<Rightarrow> (unit + jsstr) option" where
  "readBody chunks [] = None"
| "readBody chunks (Chunk c # evs) = readBody (chunks @ c) evs"
| "readBody chunks (BodyEnd # evs) = Some (Inr (utf8_decode chunks))"
| "readBody chunks (BodyError # evs) = Some (Inl ())"

record http_response =
  res_status :: nat
  res_headers :: "(jsstr \<times> jsstr) list"
  res_body :: jsstr

definition corsHeaders :: "jsstr option \<Rightarrow> (jsstr \<times> jsstr) list" where
  "corsHeaders allow_origin =
     (case allow_origin of
        Some (c # cs) \<Rightarrow>
          [(js ''Access-Control-Allow-Origin'', c # cs),
           (js ''Access-Control-Allow-Methods'', js ''GET, POST, OPTIONS''),
           (js ''Access-Control-Allow-Headers'', js ''Content-Type''),
           (js ''Access-Control-Max-Age'', js ''86400'')]
      | _ \<Rightarrow> [])"

definition send :: "jsstr option \<Rightarrow> reply \<Rightarrow> http_response" where
  "send allow_origin reply =
     (case reply of (status, payload) \<Rightarrow>
       (let body = (case payload of PText t \<Rightarrow> t | PJson v \<Rightarrow> json_stringify v);
            ctype = (case payload of PText _ \<Rightarrow> js ''text/plain'' | PJson _ \<Rightarrow> js ''application/json'')
        in \<lparr>res_status = status,
            res_headers = [(js ''Content-Type'', ctype),
                           (js ''Content-Length'', js_of_nat (length (utf8_encode body)))]
                          @ corsHeaders allow_origin,
            res_body = body\<rparr>))"

text \<open>A request; \<open>None\<close> as a result is a request whose body is still arriving.\<close>

record http_request =
  req_method :: "jsstr option"
  req_url :: "jsstr option"
  req_events :: "body_event list"

text \<open>What becomes of a request; the process ends with an exception that nothing catches.\<close>

datatype outcome = Pending | Responds http_response | Crashes js_exn

definition serve ::
    "engine \<Rightarrow> ('e, 's) server \<Rightarrow> 'e \<Rightarrow> jsstr option \<Rightarrow> http_request \<Rightarrow> 's \<Rightarrow> outcome \<times> 's" where
  "serve G srv env allow_origin req s =
     (if req_method req = Some (js ''OPTIONS'') then
        (Responds \<lparr>res_status = 204, res_headers = corsHeaders allow_origin, res_body = []\<rparr>, s)
      else case readBody [] (req_events req) of
        None \<Rightarrow> (Pending, s)
      | Some (Inl _) \<Rightarrow> (Responds (send allow_origin (error_reply (js ''failed to read body''))), s)
      | Some (Inr body) \<Rightarrow>
         (case handleRequest G srv env (case req_method req of None \<Rightarrow> [] | Some m \<Rightarrow> m)
                 (case req_url req of None \<Rightarrow> [] | Some u \<Rightarrow> u) body s of
            (Inl e, s') \<Rightarrow> (Crashes e, s')
          | (Inr reply, s') \<Rightarrow> (Responds (send allow_origin reply), s')))"

text \<open>
  The process over its requests, one after the other, each with the environment at its time.  When it
  has crashed, its state is gone and no further request has an outcome.
\<close>

fun serve_session ::
    "engine \<Rightarrow> ('e, 's) server \<Rightarrow> jsstr option \<Rightarrow> ('e \<times> http_request) list \<Rightarrow> 's \<Rightarrow> outcome list \<times> 's option" where
  "serve_session G srv origin [] s = ([], Some s)"
| "serve_session G srv origin ((env, req) # reqs) s =
     (case serve G srv env origin req s of
        (Crashes e, s') \<Rightarrow> ([Crashes e], None)
      | (out, s') \<Rightarrow>
         (case serve_session G srv origin reqs s' of (outs, end_state) \<Rightarrow> (out # outs, end_state)))"

end
