(* ===== verification/Handlers.thy ===== *)
theory Handlers
  imports StreamHandlers Server
begin

text \<open>
  \<^verbatim>\<open>typescript/src/app/handlers.ts\<close>, \<^verbatim>\<open>abi.ts\<close> and \<^verbatim>\<open>config.ts\<close>: the extension's state,
  its greeting handlers, and the registration of all handlers.  The module-level variables of the
  two handler modules are one record.  \<^verbatim>\<open>decodeAbiParameters\<close> at the parameters of SAY_GOODBYE is
  a parameter \<open>D\<close>, from the hex string to the decoded name and reason.
\<close>

record app_state =
  greetingCount :: nat
  lastGreeting :: jsstr
  farewellCount :: nat
  lastFarewell :: jsstr
  authCount :: nat

definition init_state :: app_state where
  "init_state = \<lparr>greetingCount = 0, lastGreeting = [], farewellCount = 0, lastFarewell = [],
     authCount = 0\<rparr>"

definition resetState :: "app_state \<Rightarrow> app_state" where
  "resetState s = s\<lparr>greetingCount := 0, lastGreeting := [], farewellCount := 0, lastFarewell := []\<rparr>"

definition resetStreamState :: "app_state \<Rightarrow> app_state" where
  "resetStreamState s = s\<lparr>authCount := 0\<rparr>"

section \<open>Configuration\<close>

definition VERSION :: jsstr where "VERSION = js ''0.1.0''"
definition OP_TYPE_GREETING :: jsstr where "OP_TYPE_GREETING = js ''GREETING''"
definition OP_COMMAND_SAY_HELLO :: jsstr where "OP_COMMAND_SAY_HELLO = js ''SAY_HELLO''"
definition OP_COMMAND_SAY_GOODBYE :: jsstr where "OP_COMMAND_SAY_GOODBYE = js ''SAY_GOODBYE''"

section \<open>SAY_HELLO\<close>

text \<open>The decoding and validation of \<^verbatim>\<open>handleSayHello\<close>: its early return or the name.\<close>

definition hello_name :: "engine \<Rightarrow> json \<Rightarrow> jsstr + jsstr" where
  "hello_name G msg =
     (case hexToBytes_val G (Some msg) of
        Inl e \<Rightarrow> Inl (js ''decoding request: invalid hex: '' @ exn_string e)
      | Inr raw \<Rightarrow>
         (case parse_json (g_syntax G) (utf8_decode raw) of
            Inl e \<Rightarrow> Inl (js ''decoding request: '' @ exn_string e)
          | Inr (JObj ms) \<Rightarrow>
             (let unknown = sort (filter (\<lambda>k. k \<noteq> js ''name'') (map fst ms)) in
              if unknown \<noteq> [] then
                Inl (js ''decoding request: unknown field \"'' @ hd unknown @ js ''\"'')
              else case get_prop (JObj ms) (js ''name'') of
                Some (JStr (c # cs)) \<Rightarrow> Inr (c # cs)
              | _ \<Rightarrow> Inl (js ''name must not be empty''))
          | Inr _ \<Rightarrow> Inl (js ''decoding request: expected a JSON object'')))"

definition hello_text :: "jsstr \<Rightarrow> jsstr" where
  "hello_text name = js ''Hello, '' @ name @ js ''! Welcome to Flare Confidential Compute.''"

definition hello_response :: "jsstr \<Rightarrow> nat \<Rightarrow> json" where
  "hello_response greeting n =
     JObj [(js ''greeting'', JStr greeting), (js ''greetingNumber'', JNum (int n) 0)]"

definition handleSayHello :: "engine \<Rightarrow> json \<Rightarrow> app_state \<Rightarrow> handler_result result \<times> app_state" where
  "handleSayHello G msg s =
     (case hello_name G msg of
        Inl m \<Rightarrow> (Inr (fail m), s)
      | Inr name \<Rightarrow>
         (let s1 = s\<lparr>greetingCount := greetingCount s + 1\<rparr>;
              greeting = hello_text name;
              s2 = s1\<lparr>lastGreeting := greeting\<rparr>
          in (Inr (Some (json_to_hex (hello_response greeting (greetingCount s2))), 1, None), s2)))"

section \<open>SAY_GOODBYE\<close>

definition decodeSayGoodbye :: "(jsstr \<Rightarrow> (jsstr \<times> jsstr) result) \<Rightarrow> jsstr \<Rightarrow> (jsstr \<times> jsstr) result" where
  "decodeSayGoodbye D data =
     (case D data of
        Inl e \<Rightarrow> Inl (Error (js ''ABI decode failed: '' @ exn_message e))
      | Inr (name, reason) \<Rightarrow> Inr (name, reason))"

definition goodbye_text :: "jsstr \<Rightarrow> jsstr \<Rightarrow> jsstr" where
  "goodbye_text name reason = js ''Goodbye, '' @ name @ js ''! Reason: '' @ reason"

definition goodbye_response :: "jsstr \<Rightarrow> nat \<Rightarrow> json" where
  "goodbye_response farewell n =
     JObj [(js ''farewell'', JStr farewell), (js ''farewellNumber'', JNum (int n) 0)]"

definition handleSayGoodbye ::
    "engine \<Rightarrow> (jsstr \<Rightarrow> (jsstr \<times> jsstr) result) \<Rightarrow> json \<Rightarrow> app_state \<Rightarrow>
     handler_result result \<times> app_state" where
  "handleSayGoodbye G D msg s =
     (case hexToBytes_val G (Some msg) of
        Inl e \<Rightarrow> (Inr (fail (js ''decoding request: invalid hex: '' @ exn_string e)), s)
      | Inr raw \<Rightarrow>
         (case decodeSayGoodbye D (bytesToHex raw) of
            Inl e \<Rightarrow> (Inr (fail (js ''decoding request: '' @ exn_message e)), s)
          | Inr (name, reason) \<Rightarrow>
             if name = [] then (Inr (fail (js ''name must not be empty'')), s)
             else
              (let s1 = s\<lparr>farewellCount := farewellCount s + 1\<rparr>;
                   farewell = goodbye_text name reason;
                   s2 = s1\<lparr>lastFarewell := farewell\<rparr>
               in (Inr (Some (json_to_hex (goodbye_response farewell (farewellCount s2))), 1, None), s2))))"

section \<open>Registration\<close>

text \<open>\<^verbatim>\<open>authorize\<close> as a handler on the shared state: it touches the counter only.\<close>

definition stream_handler :: "viem \<Rightarrow> engine \<Rightarrow> jsstr \<Rightarrow> (stream_env, app_state) handler" where
  "stream_handler V G tag = (\<lambda>env msg s.
     case authorize V G env msg tag (authCount s) of (r, n) \<Rightarrow> (r, s\<lparr>authCount := n\<rparr>))"

definition registerStreamHandlers ::
    "viem \<Rightarrow> engine \<Rightarrow> (stream_env, app_state) handler framework \<Rightarrow>
     (stream_env, app_state) handler framework result" where
  "registerStreamHandlers V G fw =
     (case handle OP_TYPE_STREAM OP_COMMAND_AUTH_WITHDRAW (stream_handler V G (withdraw_tag V)) fw of
        Inl e \<Rightarrow> Inl e
      | Inr fw \<Rightarrow> handle OP_TYPE_STREAM OP_COMMAND_AUTH_SETTLE (stream_handler V G (settle_tag V)) fw)"

definition register ::
    "viem \<Rightarrow> engine \<Rightarrow> (jsstr \<Rightarrow> (jsstr \<times> jsstr) result) \<Rightarrow>
     (stream_env, app_state) handler framework \<Rightarrow> (stream_env, app_state) handler framework result" where
  "register V G D fw =
     (case handle OP_TYPE_GREETING OP_COMMAND_SAY_HELLO (\<lambda>env. handleSayHello G) fw of
        Inl e \<Rightarrow> Inl e
      | Inr fw \<Rightarrow>
         (case handle OP_TYPE_GREETING OP_COMMAND_SAY_GOODBYE (\<lambda>env. handleSayGoodbye G D) fw of
            Inl e \<Rightarrow> Inl e
          | Inr fw \<Rightarrow> registerStreamHandlers V G fw))"

definition reportState :: "app_state \<Rightarrow> json" where
  "reportState s =
     JObj ([(js ''greetingCount'', JNum (int (greetingCount s)) 0),
            (js ''lastGreeting'', JStr (lastGreeting s)),
            (js ''farewellCount'', JNum (int (farewellCount s)) 0),
            (js ''lastFarewell'', JStr (lastFarewell s))] @ reportStreamState (authCount s))"

text \<open>The server of \<^verbatim>\<open>main.ts\<close>.\<close>

definition extension_server ::
    "viem \<Rightarrow> engine \<Rightarrow> (jsstr \<Rightarrow> (jsstr \<times> jsstr) result) \<Rightarrow> (stream_env, app_state) server result" where
  "extension_server V G D = new_server VERSION (register V G D) reportState"

end
