(* ===== verification/EnclaveClient.thy ===== *)
theory EnclaveClient
  imports StreamLemmas
begin

text \<open>
  \<^verbatim>\<open>frontend/lib/enclave.ts\<close>: the browser's client of the extension.  It has its own copies of
  the wire encodings, without Node's libraries: a hex printer over a digit table, a bytes32 encoder
  that truncates where the server's throws, and the POST body in the shape tee-node sends.  The clock
  and the outcome of \<^verbatim>\<open>fetch\<close> (which includes its timeout) are arguments.

  The lemmas relate these copies to the server's: the hex printers agree on all bytes, the identifier
  encoders on all identifiers that fit, and the server reads back what the client posts.
\<close>

section \<open>Encodings\<close>

definition HEX :: jsstr where
  "HEX = js ''0123456789abcdef''"

definition toHex :: "bytes \<Rightarrow> jsstr" where
  "toHex bs = foldl (\<lambda>out b. out @ [HEX ! unat (drop_bit 4 b), HEX ! unat (and b 15)]) (js ''0x'') bs"

definition toBytes32Hex :: "jsstr \<Rightarrow> jsstr" where
  "toBytes32Hex s =
     (let enc = take 32 (utf8_encode s) in toHex (enc @ replicate (32 - length enc) 0))"

text \<open>\<^verbatim>\<open>s.repeat(n)\<close>\<close>

definition repeat_str :: "nat \<Rightarrow> jsstr \<Rightarrow> jsstr" where
  "repeat_str n s = concat (replicate n s)"

section \<open>The body\<close>

definition action_id :: jsstr where
  "action_id = js ''0x'' @ repeat_str 32 (js ''11'')"

definition data_fixed :: "jsstr \<Rightarrow> jsstr \<Rightarrow> json \<Rightarrow> int \<Rightarrow> json" where
  "data_fixed opType opCommand payload now_ms =
     JObj [(js ''instructionId'', JStr action_id),
           (js ''teeId'', JStr (js ''0x'' @ repeat_str 20 (js ''22''))),
           (js ''timestamp'', JNum (now_ms div 1000) 0),
           (js ''rewardEpochId'', JNum 0 0),
           (js ''opType'', JStr (toBytes32Hex opType)),
           (js ''opCommand'', JStr (toBytes32Hex opCommand)),
           (js ''cosigners'', JArr []),
           (js ''cosignersThreshold'', JNum 0 0),
           (js ''originalMessage'', JStr (toHex (utf8_encode (json_stringify payload)))),
           (js ''additionalFixedMessage'', JStr (js ''0x''))]"

definition action_data :: "json \<Rightarrow> json" where
  "action_data df =
     JObj [(js ''id'', JStr action_id),
           (js ''type'', JStr (js ''instruction'')),
           (js ''submissionTag'', JStr (js ''submit'')),
           (js ''message'', JStr (toHex (utf8_encode (json_stringify df))))]"

definition action_json :: "json \<Rightarrow> json" where
  "action_json df =
     JObj [(js ''data'', action_data df),
           (js ''additionalVariableMessages'', JArr []),
           (js ''timestamps'', JArr []),
           (js ''additionalActionData'', JStr (js ''0x'')),
           (js ''signatures'', JArr [])]"

definition buildActionBody :: "jsstr \<Rightarrow> jsstr \<Rightarrow> json \<Rightarrow> int \<Rightarrow> jsstr" where
  "buildActionBody opType opCommand payload now_ms =
     json_stringify (action_json (data_fixed opType opCommand payload now_ms))"

section \<open>Reading the answer\<close>

text \<open>What the page gets.\<close>

datatype enclave_reply =
    AuthOk json
  | Unreachable jsstr
  | Rejected jsstr

text \<open>\<^verbatim>\<open>s.replace(/^error:\s*/, "")\<close>\<close>

definition strip_error :: "jsstr \<Rightarrow> jsstr" where
  "strip_error s =
     (if starts_with s (js ''error:'') then dropWhile is_js_space (drop 6 s) else s)"

text \<open>\<^verbatim>\<open>s.match(/.{2}/g)\<close>: disjoint pairs of units none of which ends a line.\<close>

definition is_line_end :: "nat \<Rightarrow> bool" where
  "is_line_end c \<longleftrightarrow> c = 10 \<or> c = 13 \<or> c = 0x2028 \<or> c = 0x2029"

fun dot_pairs :: "jsstr \<Rightarrow> jsstr list" where
  "dot_pairs (a # b # s) =
     (if is_line_end a then dot_pairs (b # s)
      else if is_line_end b then dot_pairs s
      else [a, b] # dot_pairs s)"
| "dot_pairs _ = []"

text \<open>\<^verbatim>\<open>parseInt(h, 16)\<close>; \<open>None\<close> is \<^verbatim>\<open>NaN\<close>.\<close>

definition parse_int16 :: "jsstr \<Rightarrow> int option" where
  "parse_int16 h =
     (let s = dropWhile is_js_space h;
          neg = (s \<noteq> [] \<and> hd s = 45);
          s1 = (if s \<noteq> [] \<and> (hd s = 45 \<or> hd s = 43) then tl s else s);
          s2 = strip_0x s1;
          ds = takeWhile (\<lambda>c. hex_digit_val c \<noteq> None) s2
      in if ds = [] then None
         else Some ((if neg then - 1 else 1) * foldl (\<lambda>n c. n * 16 + int (hex_num c)) 0 ds))"

text \<open>An element of a \<^verbatim>\<open>Uint8Array\<close>.\<close>

definition to_uint8 :: "int option \<Rightarrow> byte" where
  "to_uint8 v = (case v of None \<Rightarrow> 0 | Some i \<Rightarrow> word_of_int i)"

text \<open>\<^verbatim>\<open>Uint8Array.from(h.slice(2).match(/.{2}/g)!.map((h) => parseInt(h, 16)))\<close>; without a match
  the call of \<^verbatim>\<open>map\<close> throws.\<close>

definition hex_slice_bytes :: "engine \<Rightarrow> jsstr \<Rightarrow> bytes result" where
  "hex_slice_bytes G h =
     (let ps = dot_pairs (drop 2 h) in
      if ps = [] then Inl (JsExn (js ''TypeError'') (g_type G))
      else Inr (map (to_uint8 \<circ> parse_int16) ps))"

definition type_error :: "engine \<Rightarrow> js_exn" where
  "type_error G = JsExn (js ''TypeError'') (g_type G)"

text \<open>The part after \<^verbatim>\<open>res.json()\<close>.  Reading a member of \<^verbatim>\<open>null\<close> and calling a string method on
  another value throw.\<close>

definition read_answer :: "engine \<Rightarrow> json \<Rightarrow> enclave_reply result" where
  "read_answer G body =
     (if body = JNull then Inl (type_error G)
      else if \<not> (case get_prop body (js ''status'') of Some (JNum m e) \<Rightarrow> num_is_one m e | _ \<Rightarrow> False) then
       (case (case get_prop body (js ''log'') of
                None \<Rightarrow> Inr [] | Some JNull \<Rightarrow> Inr []
              | Some (JStr l) \<Rightarrow> Inr (strip_error l)
              | Some _ \<Rightarrow> Inl (type_error G)) of
          Inl e \<Rightarrow> Inl e
        | Inr detail \<Rightarrow>
            Inr (Rejected (if detail = [] then js ''authorization refused'' else detail)))
      else
       (case get_prop body (js ''data'') of
          Some (JStr h) \<Rightarrow>
           (case hex_slice_bytes G h of
              Inl e \<Rightarrow> Inl e
            | Inr bs \<Rightarrow>
               (case parse_json (g_syntax G) (text_decode bs) of
                  Inl e \<Rightarrow> Inl e
                | Inr v \<Rightarrow> Inr (AuthOk v)))
        | _ \<Rightarrow> Inl (type_error G)))"

text \<open>The outcome of \<^verbatim>\<open>fetch\<close>: a rejection, or a status and a body.\<close>

type_synonym fetch_outcome = "(nat \<times> jsstr) result"

definition requestAuthorization ::
    "engine \<Rightarrow> (jsstr \<Rightarrow> fetch_outcome) \<Rightarrow> int \<Rightarrow> auth_request \<Rightarrow> jsstr \<Rightarrow> enclave_reply result" where
  "requestAuthorization G post now_ms req command =
     (case post (buildActionBody (js ''STREAM'') command (request_json req) now_ms) of
        Inl e \<Rightarrow> Inr (Unreachable (exn_message e))
      | Inr (status, body) \<Rightarrow>
          if \<not> (200 \<le> status \<and> status \<le> 299) then Inr (Unreachable (js ''HTTP '' @ js_of_nat status))
          else
           (case parse_json (g_syntax G) body of
              Inl e \<Rightarrow> Inl e
            | Inr v \<Rightarrow> read_answer G v))"

section \<open>The encodings agree\<close>

lemma HEX_nth: "d < 16 \<Longrightarrow> HEX ! d = hex_char d"
proof -
  have "\<forall>d \<in> set [0..<16]. HEX ! d = hex_char d"
    by (simp add: HEX_def js_Cons hex_char_def upt_rec)
  then show "d < 16 \<Longrightarrow> HEX ! d = hex_char d" by simp
qed

lemma unat_nibbles: "unat (drop_bit 4 (b :: byte)) = unat b div 16" "unat (and b 15) = unat b mod 16"
proof -
  show "unat (drop_bit 4 b) = unat b div 16"
    by (simp only: unsigned_drop_bit_eq) (simp add: drop_bit_eq_div take_bit_nat_eq_self)
  have "and b 15 = take_bit 4 b" by (simp add: take_bit_eq_mask mask_eq_exp_minus_1)
  then show "unat (and b 15) = unat b mod 16"
    by (simp only: unsigned_take_bit_eq) (simp add: take_bit_eq_mod)
qed

lemma toHex_eq: "toHex = bytesToHex"
proof
  fix bs
  have "foldl (\<lambda>out b. out @ [HEX ! unat (drop_bit 4 b), HEX ! unat (and b 15)]) p bs
      = p @ concat (map byte_hex bs)" for p
    by (induction bs arbitrary: p) (simp_all add: byte_hex_def unat_nibbles HEX_nth)
  then show "toHex bs = bytesToHex bs" by (simp add: toHex_def bytesToHex_def)
qed

lemma toBytes32Hex_eq: "length (utf8_encode s) \<le> 32 \<Longrightarrow> toBytes32Hex s = bytes32_of s"
  by (simp add: toBytes32Hex_def bytes32_of_def toHex_eq Let_def)

lemma json_to_hex_toHex: "toHex (utf8_encode (json_stringify v)) = json_to_hex v"
  by (simp add: toHex_eq json_to_hex_def)

lemma hex_num_digit: "hex_digit_val c = Some d \<Longrightarrow> hex_num c = d"
  by (simp add: hex_num_def)

lemma hex_char_val [simp]: "d < 16 \<Longrightarrow> hex_digit_val (hex_char d) = Some d"
  by (auto simp: hex_digit_val_def hex_char_def)

lemma hex_char_plain:
  "d < 16 \<Longrightarrow> \<not> is_js_space (hex_char d) \<and> \<not> is_line_end (hex_char d) \<and> hex_char d \<noteq> 45
     \<and> hex_char d \<noteq> 43 \<and> hex_char d \<noteq> 120 \<and> hex_char d \<noteq> 88"
  by (auto simp: hex_char_def is_js_space_def is_line_end_def)

lemma parse_int16_byte: "to_uint8 (parse_int16 (byte_hex b)) = b"
proof -
  let ?h = "hex_char (unat b div 16)" and ?l = "hex_char (unat b mod 16)"
  have d: "unat b div 16 < 16" "unat b mod 16 < 16" by simp_all
  note p = hex_char_plain [OF d(1)] hex_char_plain [OF d(2)]
  have "strip_0x [?h, ?l] = [?h, ?l]" using p by (simp add: strip_0x_def starts_with_def js_Cons)
  then have "parse_int16 [?h, ?l] = Some (int (unat b div 16) * 16 + int (unat b mod 16))"
    using p d by (simp add: parse_int16_def Let_def)
  also have "int (unat b div 16) * 16 + int (unat b mod 16) = int (unat b)"
    by (metis div_mult_mod_eq of_nat_add of_nat_mult of_nat_numeral)
  finally show ?thesis by (simp add: to_uint8_def byte_hex_def)
qed

lemma dot_pairs_concat: "dot_pairs (concat (map byte_hex bs)) = map byte_hex bs"
  by (induction bs) (simp_all add: byte_hex_def hex_char_plain)

lemma hex_slice_bytesToHex: "bs \<noteq> [] \<Longrightarrow> hex_slice_bytes G (bytesToHex bs) = Inr bs"
  by (simp add: hex_slice_bytes_def bytesToHex_def dot_pairs_concat parse_int16_byte comp_def)

end
