(* ===== verification/RequestQueue.thy ===== *)
theory RequestQueue
  imports Main
begin

text \<open>
  \<^verbatim>\<open>Server.serialize\<close> of \<^verbatim>\<open>typescript/src/base/server.ts\<close> as a machine over promises.  A call
  \<^verbatim>\<open>serialize(fn)\<close> makes two promises: \<^verbatim>\<open>run = this.queue.then(fn, fn)\<close>, which calls \<^verbatim>\<open>fn\<close>
  once the previous \<^verbatim>\<open>this.queue\<close> has settled either way, and the new \<^verbatim>\<open>this.queue\<close>, which
  fulfils once \<^verbatim>\<open>run\<close> has settled either way.  A job takes time: it reads the shared state when it
  starts and writes it when it finishes, so that two jobs which overlapped would lose an update.

  The theorems say that none do: the machine refines the sequential run of the jobs in the order of
  their calls, and it always drains, whatever the jobs return or throw.
\<close>

section \<open>The machine\<close>

datatype ('s, 'r) progress = Waiting | Running 's | Settled 'r

record ('s, 'r) job =
  j_fn :: "'s \<Rightarrow> 'r \<times> 's"
  j_after :: nat
  j_tail :: nat
  j_run :: "('s, 'r) progress"

text \<open>\<open>q_tails ! i\<close> says whether the \<open>i\<close>-th value of \<^verbatim>\<open>this.queue\<close> has settled; \<open>q_tail\<close> is the
  current one.\<close>

record ('s, 'r) squeue =
  q_jobs :: "('s, 'r) job list"
  q_tails :: "bool list"
  q_tail :: nat
  q_state :: 's

definition new_queue :: "'s \<Rightarrow> ('s, 'r) squeue" where
  "new_queue s = \<lparr>q_jobs = [], q_tails = [True], q_tail = 0, q_state = s\<rparr>"

definition serialize :: "('s \<Rightarrow> 'r \<times> 's) \<Rightarrow> ('s, 'r) squeue \<Rightarrow> ('s, 'r) squeue" where
  "serialize fn q = q\<lparr>
     q_jobs := q_jobs q @ [\<lparr>j_fn = fn, j_after = q_tail q, j_tail = length (q_tails q), j_run = Waiting\<rparr>],
     q_tails := q_tails q @ [False],
     q_tail := length (q_tails q)\<rparr>"

definition set_run :: "nat \<Rightarrow> ('s, 'r) progress \<Rightarrow> ('s, 'r) squeue \<Rightarrow> ('s, 'r) squeue" where
  "set_run k p q = q\<lparr>q_jobs := (q_jobs q)[k := (q_jobs q ! k)\<lparr>j_run := p\<rparr>]\<rparr>"

inductive qwork :: "('s, 'r) squeue \<Rightarrow> ('s, 'r) squeue \<Rightarrow> bool" where
  start: "k < length (q_jobs q) \<Longrightarrow> j_run (q_jobs q ! k) = Waiting \<Longrightarrow>
    q_tails q ! j_after (q_jobs q ! k) \<Longrightarrow>
    qwork q (set_run k (Running (q_state q)) q)"
| finish: "k < length (q_jobs q) \<Longrightarrow> j_run (q_jobs q ! k) = Running s \<Longrightarrow>
    j_fn (q_jobs q ! k) s = (r, s') \<Longrightarrow>
    qwork q (set_run k (Settled r) q\<lparr>q_state := s'\<rparr>)"
| advance: "k < length (q_jobs q) \<Longrightarrow> j_run (q_jobs q ! k) = Settled r \<Longrightarrow>
    \<not> q_tails q ! j_tail (q_jobs q ! k) \<Longrightarrow>
    qwork q (q\<lparr>q_tails := (q_tails q)[j_tail (q_jobs q ! k) := True]\<rparr>)"

inductive_cases qworkE [elim]: "qwork q q'"

inductive qreach :: "'s \<Rightarrow> ('s, 'r) squeue \<Rightarrow> bool" for s0 where
  init: "qreach s0 (new_queue s0)"
| submit: "qreach s0 q \<Longrightarrow> qreach s0 (serialize fn q)"
| work: "qreach s0 q \<Longrightarrow> qwork q q' \<Longrightarrow> qreach s0 q'"

section \<open>The specification\<close>

text \<open>The jobs one after the other, each on the state the one before left.\<close>

fun seq_run :: "('s \<Rightarrow> 'r \<times> 's) list \<Rightarrow> 's \<Rightarrow> 'r list \<times> 's" where
  "seq_run [] s = ([], s)"
| "seq_run (f # fs) s =
     (case f s of (r, s1) \<Rightarrow> (case seq_run fs s1 of (rs, s2) \<Rightarrow> (r # rs, s2)))"

lemma seq_run_snoc [simp]:
  "fst (seq_run (fs @ [f]) s) = fst (seq_run fs s) @ [fst (f (snd (seq_run fs s)))]"
  "snd (seq_run (fs @ [f]) s) = snd (f (snd (seq_run fs s)))"
  by (induction fs arbitrary: s) (simp_all add: case_prod_beta)

lemma length_seq_run [simp]: "length (fst (seq_run fs s)) = length fs"
  by (induction fs arbitrary: s) (simp_all add: case_prod_beta)

section \<open>The invariant\<close>

text \<open>
  The chain: job \<open>k\<close> waits for the \<open>k\<close>-th tail and settles the next one.  The first \<open>m\<close> tails after
  the initial one have settled, the jobs before \<open>m\<close> are done, those after it wait.
\<close>

definition seq_state :: "('s, 'r) squeue \<Rightarrow> 's \<Rightarrow> nat \<Rightarrow> 's" where
  "seq_state q s0 k = snd (seq_run (map j_fn (take k (q_jobs q))) s0)"

definition seq_result :: "('s, 'r) squeue \<Rightarrow> 's \<Rightarrow> nat \<Rightarrow> 'r" where
  "seq_result q s0 k = fst (j_fn (q_jobs q ! k) (seq_state q s0 k))"

definition chained :: "('s, 'r) squeue \<Rightarrow> bool" where
  "chained q \<longleftrightarrow> q_tail q = length (q_jobs q) \<and> length (q_tails q) = Suc (length (q_jobs q)) \<and>
     (\<forall>k < length (q_jobs q). j_after (q_jobs q ! k) = k \<and> j_tail (q_jobs q ! k) = Suc k)"

definition at_job :: "('s, 'r) squeue \<Rightarrow> 's \<Rightarrow> nat \<Rightarrow> bool" where
  "at_job q s0 m \<longleftrightarrow>
     (if m < length (q_jobs q) then
        (case j_run (q_jobs q ! m) of
           Waiting \<Rightarrow> q_state q = seq_state q s0 m
         | Running s \<Rightarrow> s = seq_state q s0 m \<and> q_state q = seq_state q s0 m
         | Settled r \<Rightarrow> r = seq_result q s0 m \<and> q_state q = seq_state q s0 (Suc m))
      else q_state q = seq_state q s0 m)"

definition queue_inv :: "'s \<Rightarrow> ('s, 'r) squeue \<Rightarrow> nat \<Rightarrow> bool" where
  "queue_inv s0 q m \<longleftrightarrow> chained q \<and> m \<le> length (q_jobs q) \<and>
     (\<forall>i \<le> length (q_jobs q). q_tails q ! i \<longleftrightarrow> i \<le> m) \<and>
     (\<forall>k < m. j_run (q_jobs q ! k) = Settled (seq_result q s0 k)) \<and>
     (\<forall>k < length (q_jobs q). m < k \<longrightarrow> j_run (q_jobs q ! k) = Waiting) \<and>
     at_job q s0 m"

lemma seq_state_Suc:
  "k < length (q_jobs q) \<Longrightarrow> seq_state q s0 (Suc k) = snd (j_fn (q_jobs q ! k) (seq_state q s0 k))"
  by (simp add: seq_state_def take_Suc_conv_app_nth)

lemma results_upto:
  "n \<le> length (q_jobs q) \<Longrightarrow>
   fst (seq_run (map j_fn (take n (q_jobs q))) s0) = map (seq_result q s0) [0..<n]"
proof (induction n)
  case (Suc n)
  then show ?case
    by (simp add: take_Suc_conv_app_nth seq_result_def seq_state_def)
qed simp

text \<open>What does not change the jobs' functions does not change the specification.\<close>

lemma set_run_simps [simp]:
  "length (q_jobs (set_run k p q)) = length (q_jobs q)" "q_tails (set_run k p q) = q_tails q"
  "q_tail (set_run k p q) = q_tail q" "q_state (set_run k p q) = q_state q"
  by (simp_all add: set_run_def)

lemma set_run_nth:
  "j < length (q_jobs q) \<Longrightarrow> q_jobs (set_run k p q) ! j =
     (if j = k then (q_jobs q ! k)\<lparr>j_run := p\<rparr> else q_jobs q ! j)"
  by (simp add: set_run_def nth_list_update)

lemma map_fn_set_run: "map j_fn (q_jobs (set_run k p q)) = map j_fn (q_jobs q)"
proof (cases "k < length (q_jobs q)")
  case True
  then show ?thesis by (simp add: set_run_def map_update) (metis list_update_id map_update)
next
  case False
  then show ?thesis by (simp add: set_run_def list_update_beyond)
qed

lemma seq_set_run [simp]:
  "seq_state (set_run k p q) s0 j = seq_state q s0 j"
  "j < length (q_jobs q) \<Longrightarrow> seq_result (set_run k p q) s0 j = seq_result q s0 j"
proof -
  show "seq_state (set_run k p q) s0 j = seq_state q s0 j" for j
    by (simp add: seq_state_def take_map [symmetric] map_fn_set_run)
  then show "j < length (q_jobs q) \<Longrightarrow> seq_result (set_run k p q) s0 j = seq_result q s0 j"
    by (simp add: seq_result_def set_run_nth)
qed

lemma seq_update [simp]:
  "seq_state (q\<lparr>q_state := s\<rparr>) s0 j = seq_state q s0 j" "seq_result (q\<lparr>q_state := s\<rparr>) s0 j = seq_result q s0 j"
  "seq_state (q\<lparr>q_tails := t\<rparr>) s0 j = seq_state q s0 j" "seq_result (q\<lparr>q_tails := t\<rparr>) s0 j = seq_result q s0 j"
  by (simp_all add: seq_state_def seq_result_def)

lemma seq_serialize:
  "j \<le> length (q_jobs q) \<Longrightarrow> seq_state (serialize fn q) s0 j = seq_state q s0 j"
  "j < length (q_jobs q) \<Longrightarrow> seq_result (serialize fn q) s0 j = seq_result q s0 j"
  by (simp_all add: seq_state_def seq_result_def serialize_def nth_append)

section \<open>Preservation\<close>

lemma inv_new: "queue_inv s0 (new_queue s0) 0"
  by (simp add: queue_inv_def new_queue_def chained_def at_job_def seq_state_def)

lemma inv_serialize:
  assumes "queue_inv s0 q m"
  shows "queue_inv s0 (serialize fn q) m"
proof -
  let ?n = "length (q_jobs q)"
  have c: "chained q" "m \<le> ?n" "\<And>i. i \<le> ?n \<Longrightarrow> q_tails q ! i \<longleftrightarrow> i \<le> m"
    "\<And>k. k < m \<Longrightarrow> j_run (q_jobs q ! k) = Settled (seq_result q s0 k)"
    "\<And>k. k < ?n \<Longrightarrow> m < k \<Longrightarrow> j_run (q_jobs q ! k) = Waiting" "at_job q s0 m"
    using assms by (auto simp: queue_inv_def)
  have n: "length (q_jobs (serialize fn q)) = Suc ?n" by (simp add: serialize_def)
  have "chained (serialize fn q)"
    using c(1) by (auto simp: chained_def serialize_def nth_append less_Suc_eq)
  moreover have "q_tails (serialize fn q) ! i \<longleftrightarrow> i \<le> m" if "i \<le> Suc ?n" for i
    using that c(1-3) by (auto simp: chained_def serialize_def nth_append le_Suc_eq)
  moreover have "j_run (q_jobs (serialize fn q) ! k) = Settled (seq_result (serialize fn q) s0 k)"
    if "k < m" for k
    using that c(2,4) seq_serialize(2) [of k q fn s0] by (simp add: serialize_def nth_append)
  moreover have "j_run (q_jobs (serialize fn q) ! k) = Waiting" if "k < Suc ?n" "m < k" for k
    using that c(5) by (auto simp: serialize_def nth_append less_Suc_eq)
  moreover have "at_job (serialize fn q) s0 m"
  proof (cases "m < ?n")
    case True
    then have "q_jobs (serialize fn q) ! m = q_jobs q ! m" "q_state (serialize fn q) = q_state q"
      by (simp_all add: serialize_def nth_append)
    with True c(6) n show ?thesis
      by (simp add: at_job_def seq_serialize split: progress.splits)
  next
    case False
    with c(2) have [simp]: "m = ?n" by simp
    have "j_run (q_jobs (serialize fn q) ! ?n) = Waiting" "q_state (serialize fn q) = q_state q"
      by (simp_all add: serialize_def)
    with c(6) n show ?thesis by (simp add: at_job_def seq_serialize)
  qed
  ultimately show ?thesis using c(2) n by (simp add: queue_inv_def)
qed

lemma inv_qwork:
  assumes "queue_inv s0 q m" "qwork q q'"
  shows "queue_inv s0 q' m \<or> queue_inv s0 q' (Suc m)"
proof -
  let ?n = "length (q_jobs q)"
  have c: "chained q" "m \<le> ?n" "\<And>i. i \<le> ?n \<Longrightarrow> q_tails q ! i \<longleftrightarrow> i \<le> m"
    "\<And>k. k < m \<Longrightarrow> j_run (q_jobs q ! k) = Settled (seq_result q s0 k)"
    "\<And>k. k < ?n \<Longrightarrow> m < k \<Longrightarrow> j_run (q_jobs q ! k) = Waiting" "at_job q s0 m"
    using assms(1) by (auto simp: queue_inv_def)
  have ch: "\<And>k. k < ?n \<Longrightarrow> j_after (q_jobs q ! k) = k \<and> j_tail (q_jobs q ! k) = Suc k"
    and len: "length (q_tails q) = Suc ?n"
    using c(1) by (auto simp: chained_def)
  have chain_set: "chained (set_run k p q)" for k p
    using c(1) by (auto simp: chained_def set_run_nth)
  have inv_set: "queue_inv s0 (set_run m p q\<lparr>q_state := s\<rparr>) m"
    if "m < ?n" "at_job (set_run m p q\<lparr>q_state := s\<rparr>) s0 m" for p s
    using that c(2-5) chain_set by (simp add: queue_inv_def set_run_nth chained_def)
  from assms(2) show ?thesis
  proof cases
    case (start k)
    have "k = m" using start(2-4) c(3-5) ch [OF start(2)] by (metis le_less nat_less_le nless_le linorder_not_le progress.distinct(3))
    then have "at_job (set_run m (Running (q_state q)) q\<lparr>q_state := q_state q\<rparr>) s0 m"
      using start(2,3) c(6) by (simp add: at_job_def set_run_nth)
    with inv_set start(1,2) \<open>k = m\<close> show ?thesis by (metis (no_types) set_run_simps(4) squeue.surjective squeue.update_convs(4))
  next
    case (finish k s r s')
    have "k = m" using finish(2,3) c(4,5) by (metis nat_neq_iff progress.distinct(1,5) progress.simps)
    have "at_job (set_run m (Settled r) q\<lparr>q_state := s'\<rparr>) s0 m"
      using finish(2-4) c(6) \<open>k = m\<close>
      by (simp add: at_job_def set_run_nth seq_state_Suc seq_result_def)
    with inv_set finish(1,2) \<open>k = m\<close> show ?thesis by auto
  next
    case (advance k r)
    have "k = m" using advance(2-4) c(3-5) ch by (metis Suc_leI nat_neq_iff progress.distinct(3) Suc_le_eq)
    with advance ch have q': "q' = q\<lparr>q_tails := (q_tails q)[Suc m := True]\<rparr>" "m < ?n" by auto
    have r: "r = seq_result q s0 m" "q_state q = seq_state q s0 (Suc m)"
      using c(6) advance(3) \<open>k = m\<close> q'(2) by (simp_all add: at_job_def)
    have "at_job q' s0 (Suc m)"
      using r c(5) [of "Suc m"] by (simp add: at_job_def q'(1))
    moreover have "q_tails q' ! i \<longleftrightarrow> i \<le> Suc m" if "i \<le> ?n" for i
      using that c(3) len by (auto simp: q'(1) nth_list_update le_Suc_eq)
    moreover have "chained q'" using c(1) by (simp add: chained_def q'(1))
    moreover have "j_run (q_jobs q' ! j) = Settled (seq_result q' s0 j)" if "j < Suc m" for j
      using that c(4) r(1) advance(3) \<open>k = m\<close> by (auto simp: q'(1) less_Suc_eq)
    ultimately have "queue_inv s0 q' (Suc m)"
      using q'(2) c(5) by (simp add: queue_inv_def q'(1))
    then show ?thesis ..
  qed
qed

lemma qreach_inv: "qreach s0 q \<Longrightarrow> \<exists>m. queue_inv s0 q m"
proof (induction rule: qreach.induct)
  case init
  show ?case by (rule exI, rule inv_new)
next
  case (submit q fn)
  then obtain m where "queue_inv s0 q m" by (elim exE)
  then show ?case by (intro exI, rule inv_serialize)
next
  case (work q q')
  then obtain m where "queue_inv s0 q m" by (elim exE)
  from inv_qwork [OF this work.hyps(2)] show ?case by (elim disjE) (rule exI, assumption)+
qed

section \<open>Progress\<close>

text \<open>A job needs three steps: its start, its end, and the settling of its tail.\<close>

fun steps_left :: "('s, 'r) progress \<Rightarrow> nat" where
  "steps_left Waiting = 2"
| "steps_left (Running s) = 1"
| "steps_left (Settled r) = 0"

definition work_left :: "('s, 'r) squeue \<Rightarrow> nat" where
  "work_left q = (\<Sum>j \<leftarrow> q_jobs q. steps_left (j_run j)) + length (filter Not (q_tails q))"

lemma sum_list_nth_update:
  "k < length xs \<Longrightarrow> f (xs ! k) + (\<Sum>x \<leftarrow> xs[k := y]. f x) = f y + (\<Sum>x \<leftarrow> xs. f x :: nat)"
  by (induction xs arbitrary: k) (auto split: nat.splits)

lemma filter_Not_update:
  "k < length bs \<Longrightarrow> \<not> bs ! k \<Longrightarrow> length (filter Not (bs[k := True])) < length (filter Not bs)"
  by (induction bs arbitrary: k) (auto split: nat.splits)

lemma work_set_run:
  assumes "k < length (q_jobs q)" "steps_left p < steps_left (j_run (q_jobs q ! k))"
  shows "work_left (set_run k p q) < work_left q"
  using assms sum_list_nth_update [of k "q_jobs q" "\<lambda>j. steps_left (j_run j)" "(q_jobs q ! k)\<lparr>j_run := p\<rparr>"]
  by (simp add: work_left_def set_run_def)

lemma qwork_decreases:
  assumes "chained q" "qwork q q'"
  shows "work_left q' < work_left q"
  using assms(2)
proof cases
  case (start k)
  then show ?thesis by (simp add: work_set_run)
next
  case (finish k s r s')
  then have "work_left (set_run k (Settled r) q) < work_left q" by (simp add: work_set_run)
  then show ?thesis by (simp add: finish(1) work_left_def)
next
  case (advance k r)
  with assms(1) filter_Not_update [of "Suc k" "q_tails q"] show ?thesis
    by (simp add: work_left_def chained_def)
qed

lemma not_stuck:
  assumes "queue_inv s0 q m" "m < length (q_jobs q)"
  shows "\<exists>q'. qwork q q'"
proof -
  have t: "q_tails q ! m" "\<not> q_tails q ! Suc m" "j_after (q_jobs q ! m) = m" "j_tail (q_jobs q ! m) = Suc m"
    using assms by (auto simp: queue_inv_def chained_def)
  show ?thesis
  proof (cases "j_run (q_jobs q ! m)")
    case Waiting
    with t start [OF assms(2)] show ?thesis by metis
  next
    case (Running s)
    with finish [OF assms(2)] show ?thesis by (metis surj_pair)
  next
    case (Settled r)
    with t advance [OF assms(2)] show ?thesis by metis
  qed
qed

lemma map_fn_qwork: "qwork q q' \<Longrightarrow> map j_fn (q_jobs q') = map j_fn (q_jobs q)"
  by (erule qworkE) (simp_all add: map_fn_set_run)

lemma inv_steps:
  assumes "qwork\<^sup>*\<^sup>* q q'" "queue_inv s0 q m"
  shows "(\<exists>m'. queue_inv s0 q' m') \<and> map j_fn (q_jobs q') = map j_fn (q_jobs q)"
  using assms
proof (induction rule: rtranclp_induct)
  case (step q1 q2)
  then show ?case using inv_qwork map_fn_qwork by metis
qed blast

lemma drains: "queue_inv s0 q m \<Longrightarrow> \<exists>q'. qwork\<^sup>*\<^sup>* q q' \<and> (\<nexists>q''. qwork q' q'')"
proof (induction "work_left q" arbitrary: q m rule: less_induct)
  case less
  show ?case
  proof (cases "\<exists>q1. qwork q q1")
    case True
    then obtain q1 where q1: "qwork q q1" by blast
    from less.prems have "work_left q1 < work_left q"
      by (intro qwork_decreases q1) (simp add: queue_inv_def)
    moreover from inv_qwork [OF less.prems q1] obtain m1 where "queue_inv s0 q1 m1" by blast
    ultimately obtain q' where "qwork\<^sup>*\<^sup>* q1 q'" "\<nexists>q''. qwork q' q''" using less.hyps by blast
    with q1 show ?thesis by (meson converse_rtranclp_into_rtranclp)
  qed blast
qed

lemma drained_result:
  assumes "queue_inv s0 q m" "\<nexists>q'. qwork q q'"
  shows "map j_run (q_jobs q) = map Settled (fst (seq_run (map j_fn (q_jobs q)) s0))"
    and "q_state q = snd (seq_run (map j_fn (q_jobs q)) s0)"
proof -
  have m: "m = length (q_jobs q)"
    using not_stuck [OF assms(1)] assms by (meson linorder_neqE_nat linorder_not_less queue_inv_def)
  then have "map j_run (take m (q_jobs q)) = map Settled (fst (seq_run (map j_fn (take m (q_jobs q))) s0))"
    using assms(1) unfolding results_upto [OF eq_refl [OF m]]
    by (intro nth_equalityI) (simp_all add: queue_inv_def)
  with m show "map j_run (q_jobs q) = map Settled (fst (seq_run (map j_fn (q_jobs q)) s0))" by simp
  show "q_state q = snd (seq_run (map j_fn (q_jobs q)) s0)"
    using assms(1) m by (simp add: queue_inv_def at_job_def seq_state_def)
qed

section \<open>The theorems\<close>

definition is_settled :: "('s, 'r) progress \<Rightarrow> bool" where
  "is_settled p \<longleftrightarrow> (case p of Settled _ \<Rightarrow> True | _ \<Rightarrow> False)"

lemma refines_parts:
  assumes "queue_inv s0 q m"
  shows "\<exists>n \<le> length (q_jobs q).
     map j_run (take n (q_jobs q)) = map Settled (fst (seq_run (map j_fn (take n (q_jobs q))) s0)) \<and>
     q_state q = snd (seq_run (map j_fn (take n (q_jobs q))) s0) \<and>
     (\<forall>k < length (q_jobs q). n < k \<longrightarrow> j_run (q_jobs q ! k) = Waiting) \<and>
     (n < length (q_jobs q) \<longrightarrow> j_run (q_jobs q ! n) = Waiting \<or>
        j_run (q_jobs q ! n) = Running (q_state q))"
proof -
  let ?n = "length (q_jobs q)"
  have done_upto: "map j_run (take n (q_jobs q)) = map Settled (fst (seq_run (map j_fn (take n (q_jobs q))) s0))"
    if "n \<le> ?n" "\<And>k. k < n \<Longrightarrow> j_run (q_jobs q ! k) = Settled (seq_result q s0 k)" for n
    unfolding results_upto [OF that(1)] using that by (intro nth_equalityI) simp_all
  have c: "m \<le> ?n" "\<And>k. k < m \<Longrightarrow> j_run (q_jobs q ! k) = Settled (seq_result q s0 k)"
    "\<And>k. k < ?n \<Longrightarrow> m < k \<Longrightarrow> j_run (q_jobs q ! k) = Waiting" "at_job q s0 m"
    using assms by (auto simp: queue_inv_def)
  show ?thesis
  proof (cases "m < ?n \<and> is_settled (j_run (q_jobs q ! m))")
    case True
    then have s: "j_run (q_jobs q ! m) = Settled (seq_result q s0 m)" "q_state q = seq_state q s0 (Suc m)"
      using c(4) by (auto simp: at_job_def is_settled_def split: progress.splits)
    with True c done_upto [of "Suc m"] show ?thesis
      by (intro exI [of _ "Suc m"]) (auto simp: seq_state_def less_Suc_eq)
  next
    case False
    with c(4) have "q_state q = seq_state q s0 m"
      "m < ?n \<longrightarrow> j_run (q_jobs q ! m) = Waiting \<or> j_run (q_jobs q ! m) = Running (q_state q)"
      by (auto simp: at_job_def is_settled_def split: progress.splits if_splits)
    with c done_upto [of m] show ?thesis
      by (intro exI [of _ m]) (auto simp: seq_state_def)
  qed
qed

text \<open>C28: handlers never overlap, and their effect is that of running one at a time.  Whatever the
  interleaving of calls, starts and ends, at any moment the jobs that have settled are a prefix of the
  calls in their order, with the results of the sequential run (a throw included); the shared state is
  the one that run left; at most the next job is running, on exactly that state; and all later ones
  have not started.\<close>

theorem serialize_sequential:
  assumes "qreach s0 q"
  shows "\<exists>n \<le> length (q_jobs q).
     map j_run (take n (q_jobs q)) = map Settled (fst (seq_run (map j_fn (take n (q_jobs q))) s0)) \<and>
     q_state q = snd (seq_run (map j_fn (take n (q_jobs q))) s0) \<and>
     (\<forall>k < length (q_jobs q). n < k \<longrightarrow> j_run (q_jobs q ! k) = Waiting) \<and>
     (n < length (q_jobs q) \<longrightarrow> j_run (q_jobs q ! n) = Waiting \<or>
        j_run (q_jobs q ! n) = Running (q_state q))"
proof -
  from qreach_inv [OF assms] obtain m where "queue_inv s0 q m" by blast
  then show ?thesis by (rule refines_parts)
qed

text \<open>C29: one failing handler cannot wedge the server.  From any reachable state, every step brings the
  queue closer to being drained, so there are only finitely many before the next call; and some run of
  steps settles every job, whatever the jobs return, with the results and the state of the sequential
  run.\<close>

theorem queue_drains:
  assumes "qreach s0 q"
  shows "(\<forall>q'. qwork q q' \<longrightarrow> work_left q' < work_left q) \<and>
     (\<exists>q'. qwork\<^sup>*\<^sup>* q q' \<and> (\<nexists>q''. qwork q' q'')) \<and>
     (\<forall>q'. qwork\<^sup>*\<^sup>* q q' \<and> (\<nexists>q''. qwork q' q'') \<longrightarrow>
        map j_run (q_jobs q') = map Settled (fst (seq_run (map j_fn (q_jobs q)) s0)) \<and>
        q_state q' = snd (seq_run (map j_fn (q_jobs q)) s0))"
proof (intro conjI allI impI)
  from qreach_inv [OF assms] obtain m where m: "queue_inv s0 q m" by blast
  then show "work_left q' < work_left q" if "qwork q q'" for q'
    using that by (intro qwork_decreases) (simp_all add: queue_inv_def)
  show "\<exists>q'. qwork\<^sup>*\<^sup>* q q' \<and> (\<nexists>q''. qwork q' q'')" by (rule drains [OF m])
  fix q' assume q': "qwork\<^sup>*\<^sup>* q q' \<and> (\<nexists>q''. qwork q' q'')"
  with inv_steps [OF _ m] obtain m' where "queue_inv s0 q' m'"
    and fn: "map j_fn (q_jobs q') = map j_fn (q_jobs q)" by blast
  with q' drained_result [of s0 q' m'] fn
  show "map j_run (q_jobs q') = map Settled (fst (seq_run (map j_fn (q_jobs q)) s0))"
    "q_state q' = snd (seq_run (map j_fn (q_jobs q)) s0)"
    by simp_all
qed

text \<open>Two requests arrive before either has run: the second sees what the first wrote.\<close>

definition demo_queue :: "(nat, nat) squeue" where
  "demo_queue = serialize (\<lambda>s. (10 * s, s + 2)) (serialize (\<lambda>s. (s, s + 1)) (new_queue 5))"

lemma demo_queue_reach: "qreach 5 demo_queue"
  unfolding demo_queue_def by (intro qreach.submit qreach.init)

theorem serialize_sequential_witness:
  "\<exists>n \<le> 2. q_state demo_queue = snd (seq_run (map j_fn (take n (q_jobs demo_queue))) 5)"
  using serialize_sequential [OF demo_queue_reach] by (auto simp: demo_queue_def serialize_def new_queue_def)

theorem queue_drains_witness:
  "\<exists>q'. qwork\<^sup>*\<^sup>* demo_queue q' \<and> map j_run (q_jobs q') = [Settled 5, Settled 60] \<and> q_state q' = 8"
proof -
  have "seq_run (map j_fn (q_jobs demo_queue)) 5 = ([5, 60], 8)"
    by (simp add: demo_queue_def serialize_def new_queue_def)
  with queue_drains [OF demo_queue_reach] show ?thesis by fastforce
qed

end
