(* ===== verification/ServerLemmas.thy ===== *)
theory ServerLemmas
  imports Handlers EnclaveClient RequestQueue
begin

text \<open>
  The server on the bodies its clients build, and the contract of a service: registered handlers that
  either succeed, counting one, or refuse and change nothing.  The contract is the locale
  \<open>service\<close>, interpreted on the handlers of \<^verbatim>\<open>app/handlers.ts\<close>.
\<close>

section \<open>Reading back what a client wrote\<close>

lemma utf8_stringify: "json_ok v \<Longrightarrow> utf8_decode (utf8_encode (json_stringify v)) = json_stringify v"
  by (simp add: utf8_decode_encode well_formed_stringify)

lemma parse_stringify: "json_ok v \<Longrightarrow> parse_json m (json_stringify v) = Inr v"
  by (simp add: parse_json_def json_parse_stringify)

lemma ascii_json_to_hex: "ascii (json_to_hex v)"
  by (simp add: json_to_hex_def ascii_bytesToHex)

lemma units_repeat: "units_ok s \<Longrightarrow> units_ok (repeat_str n s)"
  by (induction n) (simp_all add: repeat_str_def)

lemma units_hex [simp]: "units_ok (bytesToHex bs)" "units_ok (json_to_hex v)" "units_ok (toBytes32Hex s)"
  by (simp_all add: ascii_units_ok ascii_bytesToHex ascii_json_to_hex toBytes32Hex_def toHex_eq Let_def)

lemma units_action_id [simp]: "units_ok action_id"
  by (simp add: action_id_def units_repeat)

lemma data_fixed_ok: "json_ok (data_fixed t c payload now)"
  by (simp add: data_fixed_def json_to_hex_toHex units_repeat)

lemma action_ok: "json_ok (action_json df)"
  by (simp add: action_json_def action_data_def json_to_hex_toHex)

lemma data_fixed_props:
  "get_prop (data_fixed t c payload now) (js ''opType'') = Some (JStr (toBytes32Hex t))"
  "get_prop (data_fixed t c payload now) (js ''opCommand'') = Some (JStr (toBytes32Hex c))"
  "get_prop (data_fixed t c payload now) (js ''originalMessage'') = Some (JStr (json_to_hex payload))"
  by (simp_all add: data_fixed_def get_prop_def json_to_hex_toHex)

lemma action_data_props:
  "get_prop (action_data df) (js ''id'') = Some (JStr action_id)"
  "get_prop (action_data df) (js ''submissionTag'') = Some (JStr (js ''submit''))"
  "get_prop (action_data df) (js ''message'') = Some (JStr (json_to_hex df))"
  by (simp_all add: action_data_def get_prop_def json_to_hex_toHex)

lemma toBytes32Hex_ne [simp]: "toBytes32Hex s \<noteq> []"
  by (simp add: toBytes32Hex_def toHex_eq bytesToHex_def Let_def)

lemma read_client_action:
  "read_action G (buildActionBody t c payload now)
     = Inr (action_data (data_fixed t c payload now), data_fixed t c payload now)"
proof -
  let ?df = "data_fixed t c payload now"
  have d: "get_prop (action_json ?df) (js ''data'') = Some (action_data ?df)"
    by (simp add: action_json_def get_prop_def)
  have m: "hexToBytes (Some (json_to_hex ?df)) = Inr (utf8_encode (json_stringify ?df))"
    by (simp add: json_to_hex_def)
  have o: "typeof_object (action_json ?df)" "\<not> falsy (action_json ?df)" "\<not> falsy (action_data ?df)"
      "typeof_object ?df" "\<not> falsy ?df"
    by (simp_all add: action_json_def action_data_def data_fixed_def typeof_object_def falsy_def)
  show ?thesis
    unfolding read_action_def buildActionBody_def
    using o by (simp add: parse_stringify action_ok d m action_data_props utf8_stringify data_fixed_ok
        data_fixed_props falsy_def)
qed

lemma find_client_handler:
  assumes "srv_framework srv = map wire_reg regs" "list_all reg_ok regs" "ident_ok t" "ident_ok c"
  shows "find_handler G srv (data_fixed t c payload now) = Inr (plain_lookup t c regs)"
proof -
  have b: "toBytes32Hex t = bytes32_of t" "toBytes32Hex c = bytes32_of c"
    using assms(3,4) by (simp_all add: ident_ok_def toBytes32Hex_eq)
  have "lookup G (JStr (bytes32_of t)) (JStr (bytes32_of c)) (map wire_reg regs)
      = Inr (plain_lookup t c regs)"
    using assms(2-4) by (intro lookup_wire) (simp_all add: normalize_spells)
  then show ?thesis
    by (simp add: find_handler_def data_fixed_props nullish_def assms(1) b)
qed

lemma original_client: "original_message (data_fixed t c payload now) = JStr (json_to_hex payload)"
  by (simp add: original_message_def data_fixed_props nullish_def)

lemma processAction_client:
  assumes "srv_framework srv = map wire_reg regs" "list_all reg_ok regs" "ident_ok t" "ident_ok c"
  shows "processAction G srv env (buildActionBody t c payload now) s =
     (case plain_lookup t c regs of
        None \<Rightarrow> (Inr (501, PText (js ''unsupported op type'')), s)
      | Some h \<Rightarrow>
         (case h env (JStr (json_to_hex payload)) s of
            (Inl e, s') \<Rightarrow> (Inl e, s')
          | (Inr r, s') \<Rightarrow> (Inr (200, PJson (action_result (srv_version srv)
                (action_data (data_fixed t c payload now)) (data_fixed t c payload now) r)), s')))"
  by (simp add: processAction_def read_client_action find_client_handler [OF assms] original_client
      answer_def action_data_props split: option.splits sum.splits prod.splits)

section \<open>The extension's server\<close>

type_synonym app_handler = "(stream_env, app_state) handler"

definition app_regs ::
    "viem \<Rightarrow> engine \<Rightarrow> (jsstr \<Rightarrow> (jsstr \<times> jsstr) result) \<Rightarrow> app_handler registration list" where
  "app_regs V G D =
     [(OP_TYPE_GREETING, OP_COMMAND_SAY_HELLO, \<lambda>env. handleSayHello G),
      (OP_TYPE_GREETING, OP_COMMAND_SAY_GOODBYE, \<lambda>env. handleSayGoodbye G D),
      (OP_TYPE_STREAM, OP_COMMAND_AUTH_WITHDRAW, stream_handler V G (withdraw_tag V)),
      (OP_TYPE_STREAM, OP_COMMAND_AUTH_SETTLE, stream_handler V G (settle_tag V))]"

lemmas op_defs = OP_TYPE_GREETING_def OP_COMMAND_SAY_HELLO_def OP_COMMAND_SAY_GOODBYE_def
  OP_TYPE_STREAM_def OP_COMMAND_AUTH_WITHDRAW_def OP_COMMAND_AUTH_SETTLE_def

lemma op_idents [simp]:
  "ident_ok OP_TYPE_GREETING" "ident_ok OP_COMMAND_SAY_HELLO" "ident_ok OP_COMMAND_SAY_GOODBYE"
  "ident_ok OP_TYPE_STREAM" "ident_ok OP_COMMAND_AUTH_WITHDRAW" "ident_ok OP_COMMAND_AUTH_SETTLE"
  by (simp_all add: op_defs ident_ok_js)

lemma app_regs_ok: "list_all reg_ok (app_regs V G D)"
  by (simp add: app_regs_def reg_ok_def)

lemma register_app: "register V G D [] = Inr (map wire_reg (app_regs V G D))"
  by (simp add: register_def registerStreamHandlers_def handle_ok app_regs_def)

definition app_server ::
    "viem \<Rightarrow> engine \<Rightarrow> (jsstr \<Rightarrow> (jsstr \<times> jsstr) result) \<Rightarrow> (stream_env, app_state) server" where
  "app_server V G D =
     \<lparr>srv_version = VERSION, srv_stateVersionHex = bytes32_of VERSION,
      srv_framework = map wire_reg (app_regs V G D), srv_reportState = reportState\<rparr>"

lemma version_hex: "stringToBytes32Hex VERSION = Inr (bytes32_of VERSION)"
proof -
  have "ident_ok VERSION" by (simp add: VERSION_def ident_ok_js)
  then show ?thesis by (simp add: ident_ok_def stringToBytes32Hex_ok)
qed

lemma extension_server_app: "extension_server V G D = Inr (app_server V G D)"
  by (simp add: extension_server_def new_server_def register_app app_server_def version_hex)

lemma clean_paths [simp]: "clean_path (js ''/action'') = js ''/action''" "clean_path (js ''/state'') = js ''/state''"
  by (simp_all add: clean_path_def js_Cons)

lemma app_server_simps [simp]:
  "srv_framework (app_server V G D) = map wire_reg (app_regs V G D)"
  "srv_version (app_server V G D) = VERSION"
  by (simp_all add: app_server_def)

lemma plain_lookup_app:
  "plain_lookup OP_TYPE_STREAM OP_COMMAND_AUTH_WITHDRAW (app_regs V G D) = Some (stream_handler V G (withdraw_tag V))"
  "plain_lookup OP_TYPE_STREAM OP_COMMAND_AUTH_SETTLE (app_regs V G D) = Some (stream_handler V G (settle_tag V))"
  "plain_lookup OP_TYPE_GREETING OP_COMMAND_SAY_HELLO (app_regs V G D) = Some (\<lambda>env. handleSayHello G)"
  by (simp_all add: plain_lookup_def app_regs_def op_defs)

section \<open>Services\<close>

lemma first_match_in: "first_match t c fw = Some h \<Longrightarrow> h \<in> (snd \<circ> snd) ` set fw"
  by (induction t c fw rule: first_match.induct) (force split: if_splits)+

lemma lookup_in: "lookup G t c fw = Inr (Some h) \<Longrightarrow> h \<in> (snd \<circ> snd) ` set fw"
  by (auto simp: lookup_def simp del: comp_apply intro!: first_match_in split: sum.splits option.splits)

text \<open>The status of a 200 reply's \<^verbatim>\<open>ActionResult\<close>.\<close>

definition result_status :: "reply \<Rightarrow> int option" where
  "result_status r =
     (case r of
        (_, PJson v) \<Rightarrow> (case get_prop v (js ''status'') of Some (JNum m _) \<Rightarrow> Some m | _ \<Rightarrow> None)
      | _ \<Rightarrow> None)"

lemma result_status_action [simp]:
  "result_status (200, PJson (action_result ver d df (data, status, err))) = Some (int status)"
  by (auto simp: result_status_def action_result_def js_object_def get_prop_def split: option.splits)

lemma result_status_error [simp]: "result_status (error_reply m) = None"
  by (simp add: result_status_def error_reply_def get_prop_def)

locale service =
  fixes regs :: "('e, 's) handler registration list"
    and count :: "'s \<Rightarrow> nat"
    and good :: "'s \<Rightarrow> bool"
  assumes handlers: "(t, c, h) \<in> set regs \<Longrightarrow> h env msg s = (r, s') \<Longrightarrow>
      (case r of
         Inl _ \<Rightarrow> s' = s
       | Inr (data, status, err) \<Rightarrow>
           status = 1 \<and> data \<noteq> None \<and> err = None \<and> count s' = count s + 1 \<or>
           status = 0 \<and> data = None \<and> err \<noteq> None \<and> s' = s)"
    and good_step: "(t, c, h) \<in> set regs \<Longrightarrow> good s \<Longrightarrow> good (snd (h env msg s))"
begin

lemma found_handler:
  assumes "srv_framework srv = map wire_reg regs" "find_handler G srv df = Inr (Some h)"
  obtains t c where "(t, c, h) \<in> set regs"
  using lookup_in [OF assms(2) [unfolded find_handler_def assms(1)]]
  by (auto simp: wire_reg_def)

lemma processAction_service:
  assumes "srv_framework srv = map wire_reg regs" "processAction G srv env body s = (r, s')"
  shows "(case r of
      Inl _ \<Rightarrow> count s' \<le> count s + 1 \<and> count s \<le> count s'
    | Inr reply \<Rightarrow> (if result_status reply = Some 1 then count s' = count s + 1 else s' = s))"
    and "good s \<Longrightarrow> good s'"
proof -
  have step: "(case r of
      Inl _ \<Rightarrow> count s' \<le> count s + 1 \<and> count s \<le> count s'
    | Inr reply \<Rightarrow> (if result_status reply = Some 1 then count s' = count s + 1 else s' = s)) \<and>
    (good s \<longrightarrow> good s')"
  proof (cases "read_action G body")
    case (Inl reply)
    then have "result_status reply = None"
      by (auto simp: read_action_def split: sum.splits option.splits if_splits)
    with Inl assms(2) show ?thesis by (auto simp: processAction_def)
  next
    case (Inr p)
    obtain d df where p: "p = (d, df)" by fastforce
    show ?thesis
    proof (cases "find_handler G srv df")
      case (Inl e)
      with Inr p assms(2) show ?thesis by (auto simp: processAction_def)
    next
      case f: (Inr o_h)
      show ?thesis
      proof (cases o_h)
        case None
        with Inr p f assms(2) show ?thesis by (auto simp: processAction_def result_status_def)
      next
        case (Some h)
        from found_handler [OF assms(1) f [unfolded Some]] obtain t c where h: "(t, c, h) \<in> set regs" .
        obtain hr s1 where run: "h env (original_message df) s = (hr, s1)" by fastforce
        have [simp]: "s1 = s'" and r: "r = (case hr of Inl e \<Rightarrow> Inl e | Inr x \<Rightarrow> answer G srv d df x)"
          using assms(2) Inr p f Some run by (auto simp: processAction_def split: sum.splits)
        from handlers [OF h run] good_step [OF h, of s env "original_message df"] run r show ?thesis
          by (auto simp: answer_def split: sum.splits prod.splits if_splits)
      qed
    qed
  qed
  then show "(case r of
      Inl _ \<Rightarrow> count s' \<le> count s + 1 \<and> count s \<le> count s'
    | Inr reply \<Rightarrow> (if result_status reply = Some 1 then count s' = count s + 1 else s' = s))"
    and "good s \<Longrightarrow> good s'"
    by blast+
qed

end

text \<open>The extension is a service: its count is the sum of its counters, and its state is good when the
  last texts are those of its greetings and farewells.\<close>

definition app_count :: "app_state \<Rightarrow> nat" where
  "app_count s = greetingCount s + farewellCount s + authCount s"

definition app_good :: "app_state \<Rightarrow> bool" where
  "app_good s \<longleftrightarrow>
     (if greetingCount s = 0 then lastGreeting s = []
      else \<exists>name. name \<noteq> [] \<and> lastGreeting s = hello_text name) \<and>
     (if farewellCount s = 0 then lastFarewell s = []
      else \<exists>name reason. name \<noteq> [] \<and> lastFarewell s = goodbye_text name reason)"

lemma hello_name_json:
  assumes "units_ok name" "name \<noteq> []"
  shows "hello_name G (JStr (json_to_hex (JObj [(js ''name'', JStr name)]))) = Inr name"
proof -
  have "parse_json (g_syntax G) (utf8_decode (utf8_encode (json_stringify (JObj [(js ''name'', JStr name)]))))
      = Inr (JObj [(js ''name'', JStr name)])"
    using assms by (intro parse_utf8_stringify) simp
  with assms(2) show ?thesis
    by (cases name) (simp_all add: hello_name_def json_to_hex_def get_prop_def del: json_stringify.simps)
qed

lemma handleSayHello_json:
  assumes "units_ok name" "name \<noteq> []"
  shows "handleSayHello G (JStr (json_to_hex (JObj [(js ''name'', JStr name)]))) s =
     (Inr (Some (json_to_hex (hello_response (hello_text name) (greetingCount s + 1))), 1, None),
      s\<lparr>greetingCount := greetingCount s + 1, lastGreeting := hello_text name\<rparr>)"
  by (simp add: handleSayHello_def hello_name_json assms Let_def)

lemma hello_name_ne: "hello_name G msg = Inr name \<Longrightarrow> name \<noteq> []"
  by (auto simp: hello_name_def Let_def split: sum.splits json.splits option.splits list.splits if_splits)

lemma handleSayHello_cases:
  "(\<exists>m. handleSayHello G msg s = (Inr (fail m), s)) \<or>
   (\<exists>name. name \<noteq> [] \<and> hello_name G msg = Inr name \<and> handleSayHello G msg s =
      (Inr (Some (json_to_hex (hello_response (hello_text name) (greetingCount s + 1))), 1, None),
       s\<lparr>greetingCount := greetingCount s + 1, lastGreeting := hello_text name\<rparr>))"
  by (cases "hello_name G msg") (auto simp: handleSayHello_def Let_def dest: hello_name_ne)

lemma handleSayGoodbye_cases:
  "(\<exists>m. handleSayGoodbye G D msg s = (Inr (fail m), s)) \<or>
   (\<exists>name reason. name \<noteq> [] \<and> handleSayGoodbye G D msg s =
      (Inr (Some (json_to_hex (goodbye_response (goodbye_text name reason) (farewellCount s + 1))), 1, None),
       s\<lparr>farewellCount := farewellCount s + 1, lastFarewell := goodbye_text name reason\<rparr>))"
  by (auto simp: handleSayGoodbye_def Let_def split: sum.splits)

lemma authorize_shape:
  "(\<exists>m. authorize V G env msg tag n = (Inr (fail m), n)) \<or>
   (\<exists>e. authorize V G env msg tag n = (Inl e, n)) \<or>
   (\<exists>d. authorize V G env msg tag n = (Inr (Some d, 1, None), n + 1))"
  unfolding authorize_def
  by (auto simp: Let_def split: sum.splits option.splits prod.splits)

lemma stream_handler_cases:
  "(\<exists>m. stream_handler V G tag env msg s = (Inr (fail m), s)) \<or>
   (\<exists>e. stream_handler V G tag env msg s = (Inl e, s)) \<or>
   (\<exists>d. stream_handler V G tag env msg s = (Inr (Some d, 1, None), s\<lparr>authCount := authCount s + 1\<rparr>))"
  using authorize_shape [of V G env msg tag "authCount s"]
  by (auto simp: stream_handler_def)

lemma app_updates:
  "app_count (s\<lparr>greetingCount := greetingCount s + 1, lastGreeting := x\<rparr>) = app_count s + 1"
  "app_count (s\<lparr>farewellCount := farewellCount s + 1, lastFarewell := x\<rparr>) = app_count s + 1"
  "app_count (s\<lparr>authCount := authCount s + 1\<rparr>) = app_count s + 1"
  "app_good s \<Longrightarrow> name \<noteq> [] \<Longrightarrow>
     app_good (s\<lparr>greetingCount := greetingCount s + 1, lastGreeting := hello_text name\<rparr>)"
  "app_good s \<Longrightarrow> name \<noteq> [] \<Longrightarrow>
     app_good (s\<lparr>farewellCount := farewellCount s + 1, lastFarewell := goodbye_text name reason\<rparr>)"
  "app_good s \<Longrightarrow> app_good (s\<lparr>authCount := n\<rparr>)"
  by (auto simp: app_count_def app_good_def)

lemma app_handler_cases:
  assumes "(t, c, h) \<in> set (app_regs V G D)"
  shows "(\<exists>m. h env msg s = (Inr (fail m), s)) \<or> (\<exists>e. h env msg s = (Inl e, s)) \<or>
    (\<exists>d s'. h env msg s = (Inr (Some d, 1, None), s') \<and> app_count s' = app_count s + 1 \<and>
       (app_good s \<longrightarrow> app_good s'))"
proof -
  consider (hello) "h = (\<lambda>env. handleSayHello G)" | (bye) "h = (\<lambda>env. handleSayGoodbye G D)"
    | (stream) tag where "h = stream_handler V G tag"
    using assms by (auto simp: app_regs_def)
  then show ?thesis
  proof cases
    case hello
    show ?thesis using handleSayHello_cases [of G msg s] app_updates(1,4) unfolding hello by metis
  next
    case bye
    show ?thesis using handleSayGoodbye_cases [of G D msg s] app_updates(2,5) unfolding bye by metis
  next
    case stream
    show ?thesis using stream_handler_cases [of V G tag env msg s] app_updates(3,6) unfolding stream by metis
  qed
qed

interpretation app: service "app_regs V G D" app_count app_good for V G D
proof
  fix t c h env msg s r s'
  assume h: "(t, c, h) \<in> set (app_regs V G D)"
  from app_handler_cases [OF h, of env msg s]
  show "h env msg s = (r, s') \<Longrightarrow>
     (case r of Inl _ \<Rightarrow> s' = s
      | Inr (data, status, err) \<Rightarrow>
          status = 1 \<and> data \<noteq> None \<and> err = None \<and> app_count s' = app_count s + 1 \<or>
          status = 0 \<and> data = None \<and> err \<noteq> None \<and> s' = s)"
    by (auto simp: fail_def)
  from app_handler_cases [OF h, of env msg s]
  show "app_good s \<Longrightarrow> app_good (snd (h env msg s))"
    by (auto simp: fail_def)
qed

end
