(* ===== verification/ServerTheorems.thy ===== *)
theory ServerTheorems
  imports ServerLemmas StreamTheorems "HOL-Library.Sublist"
begin

text \<open>
  The properties of the server: dispatch of a client's request, the types and statuses of its
  replies, when a request gets no reply at all, what a run of requests does to the state, what
  overlapping requests do, and the round trip of an authorization from the browser to the handler
  and back.
\<close>

section \<open>Dispatch\<close>

text \<open>A posted action reaches the handler registered for it.  For every registration table, type,
  command and payload that a client puts into a POST body, the server calls the handler that the table
  names (exact command first, then the type's default) with the hex of exactly that payload, and wraps
  its result; without such a handler the reply is 501 and nothing changes.\<close>

theorem posted_action_dispatched:
  assumes "list_all reg_ok regs" "new_server version (handle_all regs) report = Inr srv"
    and "ident_ok t" "ident_ok c"
  shows "handleRequest G srv env (js ''POST'') (js ''/action'') (buildActionBody t c payload now) s =
     (case plain_lookup t c regs of
        None \<Rightarrow> (Inr (501, PText (js ''unsupported op type'')), s)
      | Some h \<Rightarrow>
         (case h env (JStr (json_to_hex payload)) s of
            (Inl e, s') \<Rightarrow> (Inl e, s')
          | (Inr r, s') \<Rightarrow> (Inr (200, PJson (action_result version
                (action_data (data_fixed t c payload now)) (data_fixed t c payload now) r)), s')))"
proof -
  have fw: "srv_framework srv = map wire_reg regs" and v: "version = srv_version srv"
    using assms(2) by (auto simp: new_server_def handle_all_ok [OF assms(1)] split: sum.splits)
  show ?thesis
    unfolding v by (simp add: handleRequest_def processAction_client [OF fw assms(1,3,4)])
qed

lemma posted_action_dispatched_witness:
  "\<exists>srv. new_server VERSION (handle_all [(js ''PING'', [], \<lambda>env msg n. (Inr (None, 2, None), n + 1))])
       (\<lambda>n :: nat. JNull) = Inr srv \<and>
     handleRequest demo_engine srv () (js ''POST'') (js ''/action'') (buildActionBody (js ''PING'') (js ''A'') JNull 0) 5
       = (Inr (200, PJson (action_result VERSION (action_data (data_fixed (js ''PING'') (js ''A'') JNull 0))
           (data_fixed (js ''PING'') (js ''A'') JNull 0) (None, 2, None))), 6)"
proof -
  let ?regs = "[(js ''PING'', [], \<lambda>env msg n. (Inr (None, 2, None), n + 1))]
    :: (unit, nat) handler registration list"
  have i: "ident_ok (js ''PING'')" "ident_ok (js ''A'')" by (simp_all add: ident_ok_js)
  then have r: "list_all reg_ok ?regs" by (simp add: reg_ok_def)
  obtain srv where srv: "new_server VERSION (handle_all ?regs) (\<lambda>n :: nat. JNull) = Inr srv"
    by (simp add: new_server_def handle_ok i version_hex)
  with posted_action_dispatched [OF r srv i, of demo_engine "()" JNull 0 5] show ?thesis
    by (simp add: plain_lookup_def)
qed

definition demo_server :: "(stream_env, app_state) server" where
  "demo_server = app_server demo_viem demo_engine (\<lambda>_. Inl (Error []))"

section \<open>Replies\<close>

text \<open>Routing and refusals.  A reply other than 200 changes no state; 404 is for any other path than
  \<^verbatim>\<open>/action\<close> and \<^verbatim>\<open>/state\<close> (the query string aside), 405 for these with the wrong method, and a
  request to \<^verbatim>\<open>/state\<close> changes nothing.  A POST to \<^verbatim>\<open>/action\<close> is answered 200, 400 or 501, or
  rejects.\<close>

theorem handleRequest_statuses:
  "(clean_path path \<notin> {js ''/action'', js ''/state''} \<longrightarrow>
      handleRequest G srv env meth path body s = (Inr (404, PText (js ''not found'')), s)) \<and>
   (clean_path path = js ''/action'' \<and> meth \<noteq> js ''POST'' \<or> clean_path path = js ''/state'' \<and> meth \<noteq> js ''GET'' \<longrightarrow>
      handleRequest G srv env meth path body s = (Inr (405, PText (js ''method not allowed'')), s)) \<and>
   (clean_path path = js ''/state'' \<and> meth = js ''GET'' \<longrightarrow>
      (\<exists>p. handleRequest G srv env meth path body s = (Inr (200, p), s))) \<and>
   (\<forall>st p s'. clean_path path = js ''/action'' \<and> meth = js ''POST'' \<and>
      handleRequest G srv env meth path body s = (Inr (st, p), s') \<longrightarrow>
      st \<in> {200, 400, 501} \<and> (st \<noteq> 200 \<longrightarrow> s' = s) \<and>
      (st = 400 \<longleftrightarrow> (\<exists>reply. read_action G body = Inl reply)))"
proof (intro conjI allI impI)
  have bad: "fst reply = 400" if "read_action G body = Inl reply" for reply
    using that by (auto simp: read_action_def error_reply_def split: sum.splits option.splits if_splits)
  fix st p s'
  assume a: "clean_path path = js ''/action'' \<and> meth = js ''POST'' \<and>
      handleRequest G srv env meth path body s = (Inr (st, p), s')"
  then have h: "processAction G srv env body s = (Inr (st, p), s')" by (auto simp: handleRequest_def)
  have "st \<in> {200, 400, 501} \<and> (st \<noteq> 200 \<longrightarrow> s' = s) \<and> (st = 400 \<longleftrightarrow> (\<exists>reply. read_action G body = Inl reply))"
  proof (cases "read_action G body")
    case (Inl reply)
    with bad [OF Inl] h show ?thesis by (auto simp: processAction_def)
  next
    case (Inr q)
    with h show ?thesis
      by (auto simp: processAction_def answer_def split: prod.splits sum.splits option.splits if_splits)
  qed
  then show "st \<in> {200, 400, 501}" "st \<noteq> 200 \<Longrightarrow> s' = s"
    "st = 400 \<longleftrightarrow> (\<exists>reply. read_action G body = Inl reply)" by blast+
qed (auto simp: handleRequest_def processState_def)

text \<open>The query string is ignored.\<close>

lemma handleRequest_statuses_witness:
  "\<exists>p. handleRequest demo_engine demo_server demo_env (js ''GET'') (js ''/state?verbose=1'') [] init_state
     = (Inr (200, p), init_state)"
  using handleRequest_statuses [where path = "js ''/state?verbose=1''" and meth = "js ''GET''"
      and G = demo_engine and srv = demo_server and env = demo_env and body = "[]" and s = init_state]
  by (simp add: clean_path_def js_Cons)

text \<open>An object literal keeps the order of its members, and has those that are defined.\<close>

lemma js_object_order: "js_object kvs = JObj ms \<Longrightarrow> subseq (map fst ms) (map fst kvs)"
  unfolding js_object_def json.inject
proof (induction kvs arbitrary: ms)
  case (Cons kv kvs)
  then show ?case by (cases kv; cases "snd kv") auto
qed simp

lemma js_object_member:
  "js_object kvs = JObj ms \<Longrightarrow> distinct (map fst kvs) \<Longrightarrow> (k, v) \<in> set kvs \<Longrightarrow> map_of ms k = v"
  unfolding js_object_def json.inject
proof (induction kvs arbitrary: ms)
  case (Cons kv kvs)
  obtain k1 v1 where kv: "kv = (k1, v1)" by (cases kv)
  let ?rest = "concat (map (\<lambda>(k, v). case v of None \<Rightarrow> [] | Some x \<Rightarrow> [(k, x)]) kvs)"
  show ?case
  proof (cases "(k, v) \<in> set kvs")
    case True
    with Cons.prems kv have "k \<noteq> k1" by (auto simp: image_iff)
    with Cons.IH [OF refl _ True] Cons.prems kv show ?thesis by (cases v1) auto
  next
    case False
    with Cons.prems kv have k: "k1 = k" "v1 = v" "k \<notin> fst ` set kvs" by auto
    have "map_of ?rest k = None"
      using k(3) by (auto simp: map_of_eq_None_iff image_iff split: option.splits)
    with Cons.prems kv k show ?thesis by (cases v) auto
  qed
qed simp

lemma action_result_members:
  assumes "action_result version d df (data, status, err) = JObj ms"
  shows "subseq (map fst ms) [js ''id'', js ''submissionTag'', js ''status'', js ''log'', js ''opType'',
        js ''opCommand'', js ''additionalResultStatus'', js ''version'', js ''data'']"
    "map_of ms (js ''id'') = get_prop d (js ''id'')"
    "map_of ms (js ''submissionTag'') = get_prop d (js ''submissionTag'')"
    "map_of ms (js ''status'') = Some (JNum (int status) 0)"
    "map_of ms (js ''log'') = Some (JStr (
        if status = 0 then
          (if err = None \<or> err = Some [] then js ''error: unknown'' else js ''error: '' @ the err)
        else if status = 1 then js ''ok'' else js ''pending''))"
    "map_of ms (js ''opType'') = get_prop df (js ''opType'')"
    "map_of ms (js ''opCommand'') = get_prop df (js ''opCommand'')"
    "map_of ms (js ''additionalResultStatus'') = Some (JStr (js ''0x''))"
    "map_of ms (js ''version'') = Some (JStr version)"
    "map_of ms (js ''data'') = Some (JStr (case data of None \<Rightarrow> js ''0x'' | Some x \<Rightarrow> x))"
proof -
  let ?kvs = "[(js ''id'', get_prop d (js ''id'')), (js ''submissionTag'', get_prop d (js ''submissionTag'')),
     (js ''status'', Some (JNum (int status) 0)), (js ''log'', Some (JStr (log_of status err))),
     (js ''opType'', get_prop df (js ''opType'')), (js ''opCommand'', get_prop df (js ''opCommand'')),
     (js ''additionalResultStatus'', Some (JStr (js ''0x''))), (js ''version'', Some (JStr version)),
     (js ''data'', Some (JStr (case data of None \<Rightarrow> js ''0x'' | Some x \<Rightarrow> x)))]"
  have o: "js_object ?kvs = JObj ms" using assms by (simp add: action_result_def)
  from js_object_order [OF o] show "subseq (map fst ms) [js ''id'', js ''submissionTag'', js ''status'',
     js ''log'', js ''opType'', js ''opCommand'', js ''additionalResultStatus'', js ''version'', js ''data'']"
    by simp
  have "distinct (map fst ?kvs)" by simp
  note member = js_object_member [OF o this]
  have "log_of status err = (if status = 0 then
          (if err = None \<or> err = Some [] then js ''error: unknown'' else js ''error: '' @ the err)
        else if status = 1 then js ''ok'' else js ''pending'')"
    by (auto simp: log_of_def split: option.splits list.splits)
  then show "map_of ms (js ''log'') = Some (JStr (
        if status = 0 then
          (if err = None \<or> err = Some [] then js ''error: unknown'' else js ''error: '' @ the err)
        else if status = 1 then js ''ok'' else js ''pending''))"
    using member [of "js ''log''" "Some (JStr (log_of status err))"] by simp
qed (rule js_object_member [OF assms [unfolded action_result_def prod.case]], simp, simp)+

text \<open>C32: the shape of an ActionResult.  The payload of a 200 reply is an object made of what the
  handler registered for the action returned on its original message: the members of the interface, in
  its order, with the log \<^verbatim>\<open>error: ..\<close>, \<^verbatim>\<open>ok\<close> or \<^verbatim>\<open>pending\<close> that goes with the status, \<^verbatim>\<open>0x\<close> for
  missing data, the server's version, and the request's id, submissionTag, opType and opCommand echoed.
  Only the id, the submissionTag and the opCommand may be missing, exactly when the request has none,
  although the interface and the contract say that every field is always present.\<close>

theorem action_result_shape:
  assumes "processAction G srv env body s = (Inr (200, p), s')"
  shows "\<exists>d df h data status err ms.
     read_action G body = Inr (d, df) \<and> find_handler G srv df = Inr (Some h) \<and>
     h env (original_message df) s = (Inr (data, status, err), s') \<and> p = PJson (JObj ms) \<and>
     subseq (map fst ms) [js ''id'', js ''submissionTag'', js ''status'', js ''log'', js ''opType'',
        js ''opCommand'', js ''additionalResultStatus'', js ''version'', js ''data''] \<and>
     map_of ms (js ''id'') = get_prop d (js ''id'') \<and>
     map_of ms (js ''submissionTag'') = get_prop d (js ''submissionTag'') \<and>
     map_of ms (js ''status'') = Some (JNum (int status) 0) \<and>
     map_of ms (js ''log'') = Some (JStr (
        if status = 0 then
          (if err = None \<or> err = Some [] then js ''error: unknown'' else js ''error: '' @ the err)
        else if status = 1 then js ''ok'' else js ''pending'')) \<and>
     map_of ms (js ''opType'') = get_prop df (js ''opType'') \<and> get_prop df (js ''opType'') \<noteq> None \<and>
     map_of ms (js ''opCommand'') = get_prop df (js ''opCommand'') \<and>
     map_of ms (js ''additionalResultStatus'') = Some (JStr (js ''0x'')) \<and>
     map_of ms (js ''version'') = Some (JStr (srv_version srv)) \<and>
     map_of ms (js ''data'') = Some (JStr (case data of None \<Rightarrow> js ''0x'' | Some x \<Rightarrow> x))"
proof -
  have no200: "fst reply \<noteq> 200" if "read_action G body = Inl reply" for reply
    using that by (auto simp: read_action_def error_reply_def split: sum.splits option.splits if_splits)
  obtain d df h data status err where r: "read_action G body = Inr (d, df)"
    and h: "find_handler G srv df = Inr (Some h)" "h env (original_message df) s = (Inr (data, status, err), s')"
    and p: "p = PJson (action_result (srv_version srv) d df (data, status, err))"
    using assms no200
    by (auto simp: processAction_def answer_def split: sum.splits prod.splits option.splits if_splits)
  from r obtain t where t: "get_prop df (js ''opType'') = Some t"
    by (auto simp: read_action_def split: sum.splits option.splits if_splits)
  obtain ms where ms: "action_result (srv_version srv) d df (data, status, err) = JObj ms"
    by (auto simp: action_result_def js_object_def)
  have "get_prop df (js ''opType'') \<noteq> None" using t by simp
  note fields = r h p [unfolded ms] action_result_members [OF ms] this
  show ?thesis by (intro exI conjI) (rule fields)+
qed

text \<open>A greeting that is refused: status 0, and the reason in the log.\<close>

definition hello_body :: "json \<Rightarrow> jsstr" where
  "hello_body payload = buildActionBody OP_TYPE_GREETING OP_COMMAND_SAY_HELLO payload 0"

definition alice :: json where
  "alice = JObj [(js ''name'', JStr (js ''Alice''))]"

lemma hello_alice:
  "handleSayHello G (JStr (json_to_hex alice)) s =
     (Inr (Some (json_to_hex (hello_response (hello_text (js ''Alice'')) (greetingCount s + 1))), 1, None),
      s\<lparr>greetingCount := greetingCount s + 1, lastGreeting := hello_text (js ''Alice'')\<rparr>)"
  by (simp add: alice_def handleSayHello_json)

lemma hello_run:
  "\<exists>d df r. processAction G (app_server V G D) env (hello_body alice) s
     = (Inr (200, PJson (action_result VERSION d df (r, 1, None))),
        s\<lparr>greetingCount := greetingCount s + 1, lastGreeting := hello_text (js ''Alice'')\<rparr>)"
  by (auto simp: hello_body_def processAction_client [OF app_server_simps(1) app_regs_ok]
      plain_lookup_app hello_alice)

theorem action_result_shape_witness:
  "\<exists>ms. fst (processAction demo_engine demo_server demo_env
       (hello_body alice) init_state) = Inr (200, PJson (JObj ms)) \<and>
     map_of ms (js ''version'') = Some (JStr VERSION) \<and> map_of ms (js ''log'') = Some (JStr (js ''ok''))"
proof -
  obtain p s' d df r where run: "processAction demo_engine demo_server demo_env
       (hello_body alice) init_state = (Inr (200, p), s')"
    and p: "p = PJson (action_result VERSION d df (r, 1, None))"
    using hello_run [of demo_engine demo_viem "\<lambda>_. Inl (Error [])" demo_env init_state] by (auto simp: demo_server_def)
  from action_result_shape [OF run] obtain ms status where ms: "p = PJson (JObj ms)"
    "map_of ms (js ''status'') = Some (JNum (int status) 0)"
    "status = 1 \<longrightarrow> map_of ms (js ''log'') = Some (JStr (js ''ok''))"
    "map_of ms (js ''version'') = Some (JStr (srv_version demo_server))"
    by auto
  have "map_of ms (js ''status'') = Some (JNum 1 0)"
    using action_result_members(4) [of VERSION d df r 1 None ms] p ms(1) by simp
  with ms run show ?thesis by (auto simp: demo_server_def)
qed

text \<open>C31: when a request gets no reply.  A posted action's promise rejects, so that no response is sent
  and the unhandled rejection ends the process, exactly if its message decodes to a DataFixed whose opType is not a string, or whose opCommand is
  neither a string nor absent, null, false or zero, or if the handler rejects, or if the action's id
  cannot be printed.\<close>

theorem processAction_rejects_iff:
  "(\<exists>e. fst (processAction G srv env body s) = Inl e) \<longleftrightarrow>
   (\<exists>d df. read_action G body = Inr (d, df) \<and>
      ((\<exists>t. get_prop df (js ''opType'') = Some t \<and> t \<notin> range JStr) \<or>
       (\<exists>c. get_prop df (js ''opCommand'') = Some c \<and> c \<notin> range JStr \<and> \<not> falsy c) \<or>
       (\<exists>h. find_handler G srv df = Inr (Some h) \<and>
          (case fst (h env (original_message df) s) of
             Inl _ \<Rightarrow> True
           | Inr _ \<Rightarrow> \<exists>v. get_prop d (js ''id'') = Some v \<and> to_string_throws v))))"
proof (cases "read_action G body")
  case (Inl reply)
  then show ?thesis by (simp add: processAction_def)
next
  case (Inr q)
  obtain d df where q: "q = (d, df)" by fastforce
  from Inr q obtain t where t: "get_prop df (js ''opType'') = Some t" "\<not> falsy t"
    by (auto simp: read_action_def split: sum.splits option.splits if_splits)
  have nul: "\<not> falsy (nullish c (JStr [])) \<and> nullish c (JStr []) \<notin> range JStr \<longleftrightarrow>
      (\<exists>v. c = Some v \<and> v \<notin> range JStr \<and> \<not> falsy v)" for c
    by (cases c; cases "the c") (auto simp: nullish_def falsy_def)
  have f: "(\<exists>e. find_handler G srv df = Inl e) \<longleftrightarrow> t \<notin> range JStr \<or>
      (\<exists>v. get_prop df (js ''opCommand'') = Some v \<and> v \<notin> range JStr \<and> \<not> falsy v)"
    unfolding find_handler_def lookup_throws nul [symmetric] using t by auto
  show ?thesis
  proof (cases "find_handler G srv df")
    case fh: (Inl e)
    with Inr q f t show ?thesis by (auto simp: processAction_def)
  next
    case fh: (Inr o_h)
    with f have nf: "t \<in> range JStr"
      "\<not> (\<exists>v. get_prop df (js ''opCommand'') = Some v \<and> v \<notin> range JStr \<and> \<not> falsy v)" by auto
    show ?thesis
    proof (cases o_h)
      case None
      with Inr q fh nf t show ?thesis by (auto simp: processAction_def)
    next
      case (Some h)
      obtain hr s1 where run: "h env (original_message df) s = (hr, s1)" by fastforce
      have "(\<exists>e. fst (processAction G srv env body s) = Inl e) \<longleftrightarrow>
        (case hr of Inl _ \<Rightarrow> True | Inr _ \<Rightarrow> \<exists>v. get_prop d (js ''id'') = Some v \<and> to_string_throws v)"
        using Inr q fh Some run
        by (auto simp: processAction_def answer_def split: sum.splits option.splits)
      with Inr q fh Some run nf t show ?thesis by auto
    qed
  qed
qed

text \<open>The boolean \<^verbatim>\<open>true\<close> as opType passes the server's check, and rejects.\<close>

definition bool_body :: jsstr where
  "bool_body = json_stringify (JObj [(js ''data'', JObj [(js ''message'',
     JStr (json_to_hex (JObj [(js ''opType'', JBool True)])))])])"

lemma read_bool_body:
  "read_action G bool_body = Inr (JObj [(js ''message'', JStr (json_to_hex (JObj [(js ''opType'', JBool True)])))],
     JObj [(js ''opType'', JBool True)])"
proof -
  let ?df = "JObj [(js ''opType'', JBool True)]"
  have "hexToBytes (Some (json_to_hex ?df)) = Inr (utf8_encode (json_stringify ?df))"
    by (simp add: json_to_hex_def)
  moreover have "json_ok ?df" by simp
  ultimately show ?thesis
    unfolding read_action_def bool_body_def
    by (simp add: parse_stringify get_prop_def falsy_def typeof_object_def
        del: json_stringify.simps)
qed

lemma processAction_rejects_iff_witness:
  "\<exists>e. fst (processAction demo_engine demo_server demo_env bool_body init_state) = Inl e"
  unfolding processAction_rejects_iff
  using read_bool_body [of demo_engine] by (auto simp: get_prop_def)

text \<open>One such request ends the server: it and the requests after it go unanswered.\<close>

lemma bool_optype_crashes:
  "\<exists>e. serve_session G srv origin ((env, \<lparr>req_method = Some (js ''POST''), req_url = Some (js ''/action''),
       req_events = [Chunk (utf8_encode bool_body), BodyEnd]\<rparr>) # reqs) s = ([Crashes e], None)"
proof -
  let ?df = "JObj [(js ''opType'', JBool True)]"
  have "utf8_decode (utf8_encode bool_body) = bool_body"
    unfolding bool_body_def by (rule utf8_stringify) simp
  moreover have "\<exists>e. find_handler G srv ?df = Inl e"
    unfolding find_handler_def lookup_throws by (auto simp: get_prop_def falsy_def)
  then have "\<exists>e. processAction G srv env bool_body s = (Inl e, s)"
    by (auto simp: processAction_def read_bool_body)
  moreover have "clean_path (js ''/action'') = js ''/action''" by (simp add: clean_path_def js_Cons)
  ultimately show ?thesis by (auto simp: serve_def handleRequest_def)
qed

section \<open>Runs of requests\<close>

fun serve_all ::
    "engine \<Rightarrow> ('e, 's) server \<Rightarrow> ('e \<times> jsstr \<times> jsstr \<times> jsstr) list \<Rightarrow> 's \<Rightarrow> reply result list \<times> 's" where
  "serve_all G srv [] s = ([], s)"
| "serve_all G srv ((env, meth, path, body) # reqs) s =
     (case handleRequest G srv env meth path body s of
        (r, s1) \<Rightarrow> (case serve_all G srv reqs s1 of (rs, s2) \<Rightarrow> (r # rs, s2)))"

definition succeeded :: "reply result \<Rightarrow> bool" where
  "succeeded r \<longleftrightarrow> (case r of Inl _ \<Rightarrow> False | Inr reply \<Rightarrow> result_status reply = Some 1)"

definition rejected :: "reply result \<Rightarrow> bool" where
  "rejected r \<longleftrightarrow> (case r of Inl _ \<Rightarrow> True | Inr _ \<Rightarrow> False)"

lemma handleRequest_app:
  assumes "handleRequest G (app_server V G D) env meth path body s = (r, s')"
  shows "app_count s + (if succeeded r then 1 else 0) \<le> app_count s'"
    and "app_count s' \<le> app_count s + (if succeeded r \<or> rejected r then 1 else 0)"
    and "app_good s \<Longrightarrow> app_good s'"
proof -
  have srv: "srv_framework (app_server V G D) = map wire_reg (app_regs V G D)" by (simp add: app_server_def)
  have "app_count s + (if succeeded r then 1 else 0) \<le> app_count s' \<and>
    app_count s' \<le> app_count s + (if succeeded r \<or> rejected r then 1 else 0) \<and> (app_good s \<longrightarrow> app_good s')"
  proof (cases "clean_path path = js ''/action'' \<and> meth = js ''POST''")
    case True
    with assms have "processAction G (app_server V G D) env body s = (r, s')"
      by (simp add: handleRequest_def)
    from app.processAction_service [OF srv this] show ?thesis
      by (auto simp: succeeded_def rejected_def split: sum.splits if_splits)
  next
    case False
    then have "s' = s" and r: "r = Inr (404, PText (js ''not found'')) \<or> r = Inr (405, PText (js ''method not allowed'')) \<or>
        (\<exists>v. r = Inr (200, PJson (JObj [(js ''stateVersion'', JStr (srv_stateVersionHex (app_server V G D))), (js ''state'', v)])))"
      using assms by (auto simp: handleRequest_def processState_def split: if_splits)
    moreover have "\<not> succeeded r" "\<not> rejected r"
      using r by (auto simp: succeeded_def rejected_def result_status_def get_prop_def)
    ultimately show ?thesis by simp
  qed
  then show "app_count s + (if succeeded r then 1 else 0) \<le> app_count s'"
    "app_count s' \<le> app_count s + (if succeeded r \<or> rejected r then 1 else 0)"
    "app_good s \<Longrightarrow> app_good s'" by blast+
qed

lemma serve_all_app:
  "serve_all G (app_server V G D) reqs s = (rs, s') \<Longrightarrow>
   app_count s + length (filter succeeded rs) \<le> app_count s' \<and>
   app_count s' \<le> app_count s + length (filter (\<lambda>r. succeeded r \<or> rejected r) rs) \<and>
   (app_good s \<longrightarrow> app_good s')"
proof (induction reqs arbitrary: s rs)
  case (Cons q reqs)
  obtain env meth path body where q: "q = (env, meth, path, body)" by (cases q) auto
  obtain r s1 rs1 where h: "handleRequest G (app_server V G D) env meth path body s = (r, s1)"
    "serve_all G (app_server V G D) reqs s1 = (rs1, s')" "rs = r # rs1"
    using Cons.prems q by (auto split: prod.splits)
  from handleRequest_app [OF h(1)] Cons.IH [OF h(2)] h(3) show ?case
    by (auto split: if_splits)
qed simp

text \<open>C33: the state reports what was done.  From the initial state, after any sequence of requests, valid
  or not, the three counters together count the actions answered with success, up to the requests whose
  reply was lost after the handler ran (over HTTP such a loss also ends the process); without one the count is exact; and the last greeting and
  farewell are empty until one was made, and then the text of one, with a name that is not empty.\<close>

theorem state_counts_successes:
  assumes "serve_all G (app_server V G D) reqs init_state = (rs, s)"
  shows "length (filter succeeded rs) \<le> app_count s \<and>
     app_count s \<le> length (filter succeeded rs) + length (filter rejected rs) \<and> app_good s"
proof -
  have "length (filter (\<lambda>r. succeeded r \<or> rejected r) rs)
      \<le> length (filter succeeded rs) + length (filter rejected rs)"
    by (induction rs) auto
  moreover have "app_count init_state = 0" "app_good init_state"
    by (simp_all add: app_count_def app_good_def init_state_def)
  ultimately show ?thesis using serve_all_app [OF assms] by auto
qed

theorem state_counts_successes_witness:
  "\<exists>rs s. serve_all demo_engine (app_server demo_viem demo_engine (\<lambda>_. Inl (Error [])))
       [(demo_env, js ''POST'', js ''/action'', hello_body alice),
        (demo_env, js ''GET'', js ''/nope'', [])] init_state = (rs, s) \<and>
     length rs = 2 \<and> length (filter succeeded rs) = 1 \<and> app_count s = 1"
proof -
  let ?reqs = "[(demo_env, js ''POST'', js ''/action'', hello_body alice),
        (demo_env, js ''GET'', js ''/nope'', [])]"
  obtain d df r s' where run: "processAction demo_engine (app_server demo_viem demo_engine (\<lambda>_. Inl (Error []))) demo_env (hello_body alice) init_state =
     (Inr (200, PJson (action_result VERSION d df (r, 1, None))), s')"
    using hello_run [of demo_engine demo_viem "\<lambda>_. Inl (Error [])" demo_env init_state] by auto
  have "clean_path (js ''/nope'') = js ''/nope''" by (simp add: clean_path_def js_Cons)
  with run have all: "serve_all demo_engine (app_server demo_viem demo_engine (\<lambda>_. Inl (Error []))) ?reqs init_state =
     ([Inr (200, PJson (action_result VERSION d df (r, 1, None))), Inr (404, PText (js ''not found''))], s')"
    by (simp add: handleRequest_def)
  have "succeeded (Inr (200, PJson (action_result VERSION d df (r, 1, None))))"
    "\<not> succeeded (Inr (404, PText (js ''not found'')))"
    by (simp_all add: succeeded_def) (simp add: result_status_def)
  with state_counts_successes [OF all] all show ?thesis
    by (auto simp: rejected_def)
qed

section \<open>Overlapping requests\<close>

text \<open>A decoded action with its handler; the job it queues, and the reply made of the job's result.\<close>

type_synonym ('e, 's) admitted = "'e \<times> jsstr \<times> json \<times> json \<times> ('e, 's) handler"

definition admits :: "engine \<Rightarrow> ('e, 's) server \<Rightarrow> ('e, 's) admitted \<Rightarrow> bool" where
  "admits G srv = (\<lambda>(env, body, d, df, h).
     read_action G body = Inr (d, df) \<and> find_handler G srv df = Inr (Some h))"

definition handler_job :: "('e, 's) admitted \<Rightarrow> ('s \<Rightarrow> handler_result result \<times> 's)" where
  "handler_job = (\<lambda>(env, body, d, df, h). h env (original_message df))"

definition reply_of :: "engine \<Rightarrow> ('e, 's) server \<Rightarrow> ('e, 's) admitted \<Rightarrow> handler_result result \<Rightarrow> reply result" where
  "reply_of G srv = (\<lambda>(env, body, d, df, h) hr.
     case hr of Inl e \<Rightarrow> Inl e | Inr r \<Rightarrow> answer G srv d df r)"

definition posted :: "('e, 's) admitted \<Rightarrow> 'e \<times> jsstr \<times> jsstr \<times> jsstr" where
  "posted = (\<lambda>(env, body, d, df, h). (env, js ''POST'', js ''/action'', body))"

lemma handle_admitted:
  "admits G srv a \<Longrightarrow> (case posted a of (env, meth, path, body) \<Rightarrow> handleRequest G srv env meth path body s)
     = (case handler_job a s of (hr, s') \<Rightarrow> (reply_of G srv a hr, s'))"
  by (auto simp: admits_def posted_def handler_job_def reply_of_def handleRequest_def processAction_def
      split: prod.splits sum.splits)

lemma serve_admitted:
  "list_all (admits G srv) reqs \<Longrightarrow>
   serve_all G srv (map posted reqs) s =
     (map2 (reply_of G srv) reqs (fst (seq_run (map handler_job reqs) s)),
      snd (seq_run (map handler_job reqs) s))"
proof (induction reqs arbitrary: s)
  case (Cons a reqs)
  obtain env body d df h where a: "a = (env, body, d, df, h)" by (cases a) auto
  have p: "posted a = (env, js ''POST'', js ''/action'', body)" by (simp add: posted_def a)
  from Cons.prems handle_admitted [of G srv a s]
  have "handleRequest G srv env (js ''POST'') (js ''/action'') body s
      = (case handler_job a s of (hr, s') \<Rightarrow> (reply_of G srv a hr, s'))"
    by (simp add: p)
  with Cons show ?case by (simp add: p split: prod.splits)
qed simp

text \<open>Overlapping requests are answered as if they came one at a time.  When the jobs of any
  actions have been queued, in any interleaving with their running, and the queue has drained, the
  replies made of the jobs' results and the final state are those of serving the same requests one
  after the other, in the order in which they were queued.\<close>

theorem overlapping_requests:
  assumes "qreach s0 q" "map j_fn (q_jobs q) = map handler_job reqs" "list_all (admits G srv) reqs"
    and "\<nexists>q'. qwork q q'"
  shows "\<exists>hrs. map j_run (q_jobs q) = map Settled hrs \<and>
     serve_all G srv (map posted reqs) s0 = (map2 (reply_of G srv) reqs hrs, q_state q)"
proof -
  from qreach_inv [OF assms(1)] obtain m where "queue_inv s0 q m" by blast
  from drained_result [OF this assms(4)] serve_admitted [OF assms(3)] show ?thesis
    by (auto simp: assms(2))
qed

text \<open>Two greetings queued before either has run.\<close>

lemma qreach_steps: "qwork\<^sup>*\<^sup>* q q' \<Longrightarrow> qreach s0 q \<Longrightarrow> qreach s0 q'"
  by (induction rule: rtranclp_induct) (auto intro: qreach.work)

theorem overlapping_requests_witness:
  "\<exists>(q' :: (app_state, handler_result result) squeue) hrs. qreach init_state q' \<and> map j_run (q_jobs q') = map Settled hrs \<and> length hrs = 2 \<and>
     app_count (q_state q') = 2"
proof -
  let ?G = "\<lparr>g_syntax = id, g_type = []\<rparr>" let ?srv = "app_server demo_viem ?G (\<lambda>_. Inl (Error []))"
  let ?df = "data_fixed OP_TYPE_GREETING OP_COMMAND_SAY_HELLO alice 0"
  let ?a = "(demo_env, hello_body alice, action_data ?df, ?df, \<lambda>env. handleSayHello ?G)"
  let ?q = "serialize (handler_job ?a) (serialize (handler_job ?a) (new_queue init_state))"
  have adm: "admits ?G ?srv ?a"
    by (simp add: admits_def hello_body_def read_client_action plain_lookup_app
        find_client_handler [OF app_server_simps(1) app_regs_ok])
  have r: "qreach init_state ?q" by (intro qreach.submit qreach.init)
  obtain m where m: "queue_inv init_state ?q m" using qreach_inv [OF r] by (elim exE)
  obtain q' where q': "qwork\<^sup>*\<^sup>* ?q q'" "\<nexists>q''. qwork q' q''" using drains [OF m] by (elim exE conjE)
  have reach: "qreach init_state q'" by (rule qreach_steps [OF q'(1) r])
  have fn: "map j_fn (q_jobs q') = map handler_job [?a, ?a]"
    using conjunct2 [OF inv_steps [OF q'(1) m]] by (simp add: serialize_def new_queue_def)
  from overlapping_requests [OF reach fn _ q'(2), of ?G ?srv] adm
  obtain hrs where h: "map j_run (q_jobs q') = map Settled hrs"
    "serve_all ?G ?srv (map posted [?a, ?a]) init_state = (map2 (reply_of ?G ?srv) [?a, ?a] hrs, q_state q')"
    by auto
  have "length hrs = length (q_jobs q')" using h(1) by (metis length_map)
  moreover have "length (q_jobs q') = 2" using fn by (metis length_map length_Cons list.size(3) numeral_2_eq_2)
  moreover have "app_count (snd (serve_all ?G ?srv (map posted [?a, ?a]) init_state)) = 2"
    using serve_admitted [of ?G ?srv "[?a, ?a]" init_state] adm
    by (simp add: handler_job_def original_client hello_alice app_count_def init_state_def)
  ultimately show ?thesis using h reach by (intro exI [of _ q'] exI [of _ hrs]) simp
qed

end
