(* ===== verification/ClientServer.thy ===== *)
theory ClientServer
  imports ServerTheorems EndToEnd
begin

text \<open>
  The browser's client against the server: a request goes through the POST body, the HTTP transport,
  the registry and the handler, and its result comes back through the ActionResult and the response
  to the page.
\<close>

section \<open>The transport\<close>

text \<open>A \<^verbatim>\<open>fetch\<close> that reaches the server while its state is \<open>s\<close>; \<open>lost\<close> is the exception the
  browser raises when no response comes.\<close>

definition post_to ::
    "engine \<Rightarrow> ('e, 's) server \<Rightarrow> 'e \<Rightarrow> jsstr option \<Rightarrow> js_exn \<Rightarrow> 's \<Rightarrow> jsstr \<Rightarrow> fetch_outcome" where
  "post_to G srv env origin lost s body =
     (case fst (serve G srv env origin \<lparr>req_method = Some (js ''POST''), req_url = Some (js ''/action''),
                  req_events = [Chunk (utf8_encode body), BodyEnd]\<rparr> s) of
        Responds res \<Rightarrow> Inr (res_status res, res_body res)
      | _ \<Rightarrow> Inl lost)"

lemma post_client:
  "post_to G srv env origin lost s (buildActionBody t c payload now) =
     (case fst (processAction G srv env (buildActionBody t c payload now) s) of
        Inl e \<Rightarrow> Inl lost
      | Inr reply \<Rightarrow> Inr (fst reply, res_body (send origin reply)))"
proof -
  have "utf8_decode (utf8_encode (buildActionBody t c payload now)) = buildActionBody t c payload now"
    unfolding buildActionBody_def by (rule utf8_stringify [OF action_ok])
  then show ?thesis
    by (simp add: post_to_def serve_def handleRequest_def send_def Let_def split: prod.splits sum.splits)
qed

section \<open>The response, read back\<close>

lemma action_result_client:
  "action_result ver (action_data (data_fixed t c payload now)) (data_fixed t c payload now) (data, status, err) =
     JObj [(js ''id'', JStr action_id), (js ''submissionTag'', JStr (js ''submit'')),
           (js ''status'', JNum (int status) 0), (js ''log'', JStr (log_of status err)),
           (js ''opType'', JStr (toBytes32Hex t)), (js ''opCommand'', JStr (toBytes32Hex c)),
           (js ''additionalResultStatus'', JStr (js ''0x'')), (js ''version'', JStr ver),
           (js ''data'', JStr (case data of None \<Rightarrow> js ''0x'' | Some x \<Rightarrow> x))]"
  by (simp add: action_result_def js_object_def action_data_props data_fixed_props)

lemma utf8_encode_ascii_Cons: "c < 0x80 \<Longrightarrow> utf8_encode (c # s) = of_nat c # utf8_encode s"
  by (cases s) (simp_all add: utf8_encode_def utf8_scalar_def ascii_not_surrogate)

lemma utf8_encode_obj: "\<exists>bs. utf8_encode (json_stringify (JObj ms)) = 123 # bs"
  by (simp add: utf8_encode_ascii_Cons)

lemma text_decode_obj:
  assumes "json_ok (JObj ms)"
  shows "text_decode (utf8_encode (json_stringify (JObj ms))) = json_stringify (JObj ms)"
  using utf8_stringify [OF assms] utf8_encode_obj [of ms] by (auto simp: text_decode_def)

lemma read_success:
  assumes "json_ok (JObj ms)" "get_prop body (js ''status'') = Some (JNum 1 0)"
    and "get_prop body (js ''data'') = Some (JStr (json_to_hex (JObj ms)))"
  shows "read_answer G body = Inr (AuthOk (JObj ms))"
proof -
  have "utf8_encode (json_stringify (JObj ms)) \<noteq> []"
    using utf8_encode_obj [of ms] by auto
  then have "hex_slice_bytes G (json_to_hex (JObj ms)) = Inr (utf8_encode (json_stringify (JObj ms)))"
    by (simp add: json_to_hex_def hex_slice_bytesToHex del: json_stringify.simps)
  moreover have "body \<noteq> JNull" using assms(2) by (auto simp: get_prop_def)
  ultimately show ?thesis
    using assms by (simp add: read_answer_def num_is_one_def text_decode_obj parse_stringify
        del: json_stringify.simps)
qed

lemma read_refusal:
  assumes "get_prop body (js ''status'') = Some (JNum 0 0)"
    and "get_prop body (js ''log'') = Some (JStr (js ''error: '' @ m))"
    and "m \<noteq> []" "\<not> is_js_space (hd m)"
  shows "read_answer G body = Inr (Rejected m)"
proof -
  have "strip_error (js ''error: '' @ m) = m"
    using assms(3,4) by (cases m) (simp_all add: strip_error_def starts_with_def js_Cons, simp add: is_js_space_def)
  moreover have "body \<noteq> JNull" using assms(1) by (auto simp: get_prop_def)
  ultimately show ?thesis
    using assms by (simp add: read_answer_def num_is_one_def)
qed

section \<open>Round trip\<close>

lemma refusal_text_ok:
  "m \<in> refusal_texts \<Longrightarrow> m \<noteq> [] \<and> \<not> is_js_space (hd m) \<and> units_ok m"
  by (auto simp: refusal_texts_def js_Cons is_js_space_def)

lemma refused_reply:
  assumes "m \<in> refusal_texts"
  shows "requestAuthorization G (\<lambda>body. Inr (200, json_stringify (action_result VERSION
       (action_data (data_fixed t c payload now)) (data_fixed t c payload now) (fail m)))) now_ms req command
     = Inr (Rejected m)"
proof -
  let ?r = "action_result VERSION (action_data (data_fixed t c payload now)) (data_fixed t c payload now) (fail m)"
  obtain a b where m: "m = a # b" "\<not> is_js_space a" using refusal_text_ok [OF assms] by (cases m) auto
  have "json_ok ?r"
    using refusal_text_ok [OF assms] m(1)
    by (simp add: action_result_client fail_def log_of_def VERSION_def)
  moreover have "read_answer G ?r = Inr (Rejected m)"
    using m by (intro read_refusal) (simp_all add: action_result_client fail_def log_of_def get_prop_def)
  ultimately show ?thesis by (simp add: requestAuthorization_def parse_stringify)
qed

lemma granted_reply:
  assumes "json_ok (JObj ms)"
  shows "requestAuthorization G (\<lambda>body. Inr (200, json_stringify (action_result VERSION
       (action_data (data_fixed t c payload now)) (data_fixed t c payload now)
       (Some (json_to_hex (JObj ms)), 1, None)))) now_ms req command
     = Inr (AuthOk (JObj ms))"
proof -
  let ?r = "action_result VERSION (action_data (data_fixed t c payload now)) (data_fixed t c payload now)
    (Some (json_to_hex (JObj ms)), 1, None)"
  have "json_ok ?r"
    by (simp add: action_result_client log_of_def VERSION_def)
  moreover have "read_answer G ?r = Inr (AuthOk (JObj ms))"
    by (intro read_success assms) (simp_all add: action_result_client get_prop_def)
  ultimately show ?thesis by (simp add: requestAuthorization_def parse_stringify)
qed

lemma requestAuthorization_post:
  "requestAuthorization G post now_ms req command =
   requestAuthorization G (\<lambda>_. post (buildActionBody (js ''STREAM'') command (request_json req) now_ms))
     now_ms req command"
  by (simp add: requestAuthorization_def)

lemma sign_auth_signs: "sign_auth V k req tag a dl = Inr sig \<Longrightarrow> \<exists>d. v_sign V k d = Inr sig"
  by (auto simp: sign_auth_def split: sum.split_asm)

lemma granted_signature:
  "granted V G env msg tag req plain terms caller signature \<Longrightarrow> \<exists>k d. v_sign V k d = Inr signature"
  unfolding granted_def by (blast dest: sign_auth_signs)

definition command_tag :: "viem \<Rightarrow> jsstr \<Rightarrow> jsstr \<Rightarrow> bool" where
  "command_tag V command tag \<longleftrightarrow>
     command = OP_COMMAND_AUTH_WITHDRAW \<and> tag = withdraw_tag V \<or>
     command = OP_COMMAND_AUTH_SETTLE \<and> tag = settle_tag V"

text \<open>What the page gets, in terms of what the handler answers.\<close>

lemma client_reply:
  assumes "command_tag V command tag"
    and "authorize V G env (JStr (json_to_hex (request_json req))) tag (authCount s) = (r, n)"
  shows "requestAuthorization G (post_to G (app_server V G D) env origin lost s) now_ms req command =
    requestAuthorization G (\<lambda>_. case r of Inl e \<Rightarrow> Inl lost
       | Inr x \<Rightarrow> Inr (200, json_stringify (action_result VERSION
           (action_data (data_fixed (js ''STREAM'') command (request_json req) now_ms))
           (data_fixed (js ''STREAM'') command (request_json req) now_ms) x))) now_ms req command"
proof -
  have st: "OP_TYPE_STREAM = js ''STREAM''" by (simp add: OP_TYPE_STREAM_def)
  have "plain_lookup (js ''STREAM'') command (app_regs V G D) = Some (stream_handler V G tag)"
    using assms(1) plain_lookup_app by (auto simp: command_tag_def simp flip: st)
  moreover have "ident_ok (js ''STREAM'')" "ident_ok command"
    using assms(1) by (auto simp: command_tag_def simp flip: st)
  ultimately show ?thesis
    by (subst requestAuthorization_post)
      (simp add: post_client processAction_client [OF app_server_simps(1) app_regs_ok] stream_handler_def
        assms(2) send_def Let_def split: sum.splits)
qed

lemma client_refused:
  assumes "request_ok req" "command_tag V command tag"
    and "authorize V G env (JStr (json_to_hex (request_json req))) tag (authCount s) = (Inr (None, st, er), n)"
  shows "\<exists>m. er = Some m \<and>
    requestAuthorization G (post_to G (app_server V G D) env origin lost s) now_ms req command = Inr (Rejected m)"
proof -
  from refusal_parts [OF assms(3)] decode_request_json [OF assms(1), of G]
  obtain m where m: "er = Some m" "m \<in> refusal_texts" "st = 0" by auto
  then have "(None, st, er) = fail m" by (simp add: fail_def)
  with client_reply [OF assms(2,3)] refused_reply [OF m(2)] m(1) show ?thesis by simp
qed

lemma client_ok:
  assumes "request_ok req" "command_tag V command tag" "units_ok signature"
    and "authorize V G env (JStr (json_to_hex (request_json req))) tag (authCount s) =
      (Inr (Some (json_to_hex (auth_response req accrued deadline signature (bytesToHex plain))), 1, None), n)"
  shows "requestAuthorization G (post_to G (app_server V G D) env origin lost s) now_ms req command
      = Inr (AuthOk (auth_response req accrued deadline signature (bytesToHex plain)))"
proof -
  define ms where "ms = [(js ''streamId'', JStr (r_streamId req)),
       (js ''cumulativeAccrued'', JStr (js_of_int accrued)), (js ''deadline'', JStr (js_of_int deadline)),
       (js ''signature'', JStr signature), (js ''terms'', JStr (bytesToHex plain))]"
  then have ms: "auth_response req accrued deadline signature (bytesToHex plain) = JObj ms" "json_ok (JObj ms)"
    using assms(1,3) by (simp_all add: auth_response_def request_ok_def ascii_units_ok ascii_js_of_int)
  with client_reply [OF assms(2,4)] granted_reply [OF ms(2)] show ?thesis by (simp del: json_ok.simps)
qed

lemma client_granted:
  assumes "request_ok req" "command_tag V command tag" "\<And>k d sig. v_sign V k d = Inr sig \<Longrightarrow> units_ok sig"
    and "authorize V G env (JStr (json_to_hex (request_json req))) tag (authCount s) = (Inr (Some d, st, er), n)"
  obtains plain terms caller signature where
    "granted V G env (JStr (json_to_hex (request_json req))) tag req plain terms caller signature"
    "d = json_to_hex (auth_response req (accruedAt terms (now_seconds env)) (now_seconds env + 600)
           signature (bytesToHex plain))"
    "requestAuthorization G (post_to G (app_server V G D) env origin lost s) now_ms req command
      = Inr (AuthOk (auth_response req (accruedAt terms (now_seconds env)) (now_seconds env + 600)
          signature (bytesToHex plain)))"
proof -
  from assms(4) obtain req' plain terms caller signature where
    g: "granted V G env (JStr (json_to_hex (request_json req))) tag req' plain terms caller signature"
    and d: "d = json_to_hex (auth_response req' (accruedAt terms (now_seconds env)) (now_seconds env + 600)
         signature (bytesToHex plain))" and st: "st = 1" "er = None"
    by (rule authorize_data)
  have [simp]: "req' = req" using g decode_request_json [OF assms(1), of G] by (simp add: granted_def)
  have "units_ok signature" using granted_signature [OF g] assms(3) by blast
  with client_ok [OF assms(1,2), of signature] assms(4) d st g that [of plain terms caller signature]
  show thesis by simp
qed

text \<open>C18: an authorization survives the whole way back.  For a well formed request and either command,
  whatever the enclave's handler answers reaches the page unchanged: data comes back as the very JSON
  object the handler encoded, a refusal as its text, without the \<^verbatim>\<open>error:\<close> prefix, and a handler that
  rejects as an unreachable enclave.  (Signatures are assumed to be printable text.)\<close>

theorem authorization_roundtrip:
  assumes "request_ok req" "command_tag V command tag"
    and "\<And>k d sig. v_sign V k d = Inr sig \<Longrightarrow> units_ok sig"
  shows "case fst (authorize V G env (JStr (json_to_hex (request_json req))) tag (authCount s)) of
      Inl e \<Rightarrow> requestAuthorization G (post_to G (app_server V G D) env origin lost s) now_ms req command
                 = Inr (Unreachable (exn_message lost))
    | Inr (Some d, _, _) \<Rightarrow> \<exists>ms. d = json_to_hex (JObj ms) \<and>
        requestAuthorization G (post_to G (app_server V G D) env origin lost s) now_ms req command
          = Inr (AuthOk (JObj ms))
    | Inr (None, _, er) \<Rightarrow> \<exists>m. er = Some m \<and>
        requestAuthorization G (post_to G (app_server V G D) env origin lost s) now_ms req command
          = Inr (Rejected m)"
proof -
  obtain r n where run: "authorize V G env (JStr (json_to_hex (request_json req))) tag (authCount s) = (r, n)"
    by fastforce
  show ?thesis
  proof (cases r)
    case (Inl e)
    with client_reply [OF assms(2) run] show ?thesis by (simp add: run) (simp add: requestAuthorization_def)
  next
    case (Inr x)
    obtain data st er where x: "x = (data, st, er)" by (cases x) auto
    show ?thesis
    proof (cases data)
      case None
      from client_refused [OF assms(1,2) run [unfolded Inr x None]] show ?thesis by (simp add: run Inr x None)
    next
      case (Some d)
      obtain plain terms caller signature where
        "d = json_to_hex (auth_response req (accruedAt terms (now_seconds env)) (now_seconds env + 600)
           signature (bytesToHex plain))"
        "requestAuthorization G (post_to G (app_server V G D) env origin lost s) now_ms req command
          = Inr (AuthOk (auth_response req (accruedAt terms (now_seconds env)) (now_seconds env + 600)
              signature (bytesToHex plain)))"
        by (rule client_granted [OF assms(1-3) run [unfolded Inr x Some]])
      then show ?thesis by (simp add: run Inr x Some) (simp add: auth_response_def)
    qed
  qed
qed

text \<open>The withdrawal and the stranger's refusal, seen from the browser.\<close>

lemma demo_sign_units: "v_sign demo_viem k d = Inr sig \<Longrightarrow> units_ok sig"
  by (auto simp: ascii_units_ok ascii_bytesToHex)

theorem authorization_roundtrip_witness:
  "\<exists>ms. requestAuthorization demo_engine
       (post_to demo_engine demo_server demo_env None (Error []) init_state)
       1990000 demo_req OP_COMMAND_AUTH_WITHDRAW = Inr (AuthOk (JObj ms))"
proof -
  have c: "command_tag demo_viem OP_COMMAND_AUTH_WITHDRAW (withdraw_tag demo_viem)"
    by (simp add: command_tag_def)
  obtain d where "authorize demo_viem demo_engine demo_env (JStr (json_to_hex (request_json demo_req)))
      (withdraw_tag demo_viem) (authCount init_state) = (Inr (Some d, 1, None), authCount init_state + 1)"
    using demo_granted_withdraw [of demo_engine "authCount init_state"] by blast
  with authorization_roundtrip [OF demo_req_ok c demo_sign_units, where G = demo_engine and env = demo_env
      and s = init_state and D = "\<lambda>_. Inl (Error [])" and origin = None and lost = "Error []" and now_ms = 1990000]
  show ?thesis by (auto simp: demo_server_def)
qed

end
