(* ===== verification/NodeClient.thy ===== *)
theory NodeClient
  imports Wire
begin

text \<open>
  \<^verbatim>\<open>typescript/src/base/node.ts\<close>: the client of tee-node's signing API, whose payloads are
  base64 because Go marshals byte slices so.  \<^verbatim>\<open>fetch\<close> is a parameter, from the URL and the body to
  a status and a text or an exception; an expired timer is its \<^verbatim>\<open>AbortError\<close>.  The port is the
  number \<^verbatim>\<open>Number(signPort)\<close>.
\<close>

section \<open>Base64\<close>

text \<open>\<^verbatim>\<open>Buffer.from(b).toString("base64")\<close>\<close>

definition b64_char :: "nat \<Rightarrow> nat" where
  "b64_char d =
     (if d < 26 then 65 + d else if d < 52 then 71 + d else if d < 62 then d - 4
      else if d = 62 then 43 else 47)"

fun base64_encode :: "bytes \<Rightarrow> jsstr" where
  "base64_encode (a # b # c # s) =
     b64_char (unat a div 4) # b64_char (unat a mod 4 * 16 + unat b div 16) #
     b64_char (unat b mod 16 * 4 + unat c div 64) # b64_char (unat c mod 64) # base64_encode s"
| "base64_encode [a, b] =
     [b64_char (unat a div 4), b64_char (unat a mod 4 * 16 + unat b div 16),
      b64_char (unat b mod 16 * 4), 61]"
| "base64_encode [a] = [b64_char (unat a div 4), b64_char (unat a mod 4 * 16), 61, 61]"
| "base64_encode [] = []"

text \<open>\<^verbatim>\<open>Buffer.from(s, "base64")\<close>: characters outside the alphabet are skipped, the URL-safe ones
  belong to it, and the bits of an incomplete byte are dropped.\<close>

definition b64_val :: "nat \<Rightarrow> nat option" where
  "b64_val c =
     (if 65 \<le> c \<and> c \<le> 90 then Some (c - 65)
      else if 97 \<le> c \<and> c \<le> 122 then Some (c - 71)
      else if 48 \<le> c \<and> c \<le> 57 then Some (c + 4)
      else if c = 43 \<or> c = 45 then Some 62
      else if c = 47 \<or> c = 95 then Some 63
      else None)"

fun b64_bytes :: "nat list \<Rightarrow> bytes" where
  "b64_bytes (p # q # r # t # s) =
     of_nat (p * 4 + q div 16) # of_nat (q mod 16 * 16 + r div 4) # of_nat (r mod 4 * 64 + t) # b64_bytes s"
| "b64_bytes [p, q, r] = [of_nat (p * 4 + q div 16), of_nat (q mod 16 * 16 + r div 4)]"
| "b64_bytes [p, q] = [of_nat (p * 4 + q div 16)]"
| "b64_bytes _ = []"

definition base64_decode :: "jsstr \<Rightarrow> bytes" where
  "base64_decode s = b64_bytes (concat (map (\<lambda>c. case b64_val c of None \<Rightarrow> [] | Some d \<Rightarrow> [d]) s))"

section \<open>The client\<close>

record node_client =
  nc_signPort :: nat
  nc_timeoutMs :: nat

definition DEFAULT_TIMEOUT_MS :: nat where
  "DEFAULT_TIMEOUT_MS = 30000"

definition baseUrl :: "node_client \<Rightarrow> jsstr" where
  "baseUrl nc = js ''http://localhost:'' @ js_of_nat (nc_signPort nc)"

type_synonym node_fetch = "jsstr \<Rightarrow> jsstr \<Rightarrow> (nat \<times> jsstr) result"

definition node_post :: "engine \<Rightarrow> node_fetch \<Rightarrow> node_client \<Rightarrow> jsstr \<Rightarrow> json \<Rightarrow> json result" where
  "node_post G fetch nc path payload =
     (let attempt =
        (case fetch (baseUrl nc @ path) (json_stringify payload) of
           Inl e \<Rightarrow> Inl e
         | Inr (status, text) \<Rightarrow>
             if \<not> (200 \<le> status \<and> status \<le> 299) then
               Inl (Error (js ''node returned '' @ js_of_nat status @ js '' for '' @ path @ js '': '' @ text))
             else parse_json (g_syntax G) text)
      in case attempt of
        Inl e \<Rightarrow>
          if exn_name e = js ''AbortError'' then
            Inl (Error (js ''node request to '' @ path @ js '' timed out after ''
                        @ js_of_nat (nc_timeoutMs nc) @ js ''ms''))
          else Inl e
      | Inr v \<Rightarrow> Inr v)"

text \<open>\<open>B\<close> is \<^verbatim>\<open>Buffer.from\<close> at a value that is not a string.\<close>

definition decrypt ::
    "engine \<Rightarrow> (json \<Rightarrow> bytes result) \<Rightarrow> node_fetch \<Rightarrow> node_client \<Rightarrow> bytes \<Rightarrow> bytes result" where
  "decrypt G B fetch nc ciphertext =
     (case node_post G fetch nc (js ''/decrypt'')
             (JObj [(js ''encryptedMessage'', JStr (base64_encode ciphertext))]) of
        Inl e \<Rightarrow> Inl e
      | Inr resp \<Rightarrow>
          if resp = JNull then Inl (JsExn (js ''TypeError'') (g_type G))
          else case get_prop resp (js ''decryptedMessage'') of
            None \<Rightarrow> Inl (Error (js ''node response missing decryptedMessage''))
          | Some (JStr s) \<Rightarrow> Inr (base64_decode s)
          | Some v \<Rightarrow> B v)"

section \<open>Round trip\<close>

lemma b64_val_char [simp]: "d < 64 \<Longrightarrow> b64_val (b64_char d) = Some d"
  by (auto simp: b64_val_def b64_char_def)

lemma b64_val_pad [simp]: "b64_val 61 = None"
  by (simp add: b64_val_def)

lemma unat_byte_bounds: "unat (b :: byte) div 4 < 64" "unat b div 16 < 16" "unat b div 64 < 4"
  using unat_byte_less [of b] by linarith+

lemma sextets:
  fixes a b :: nat
  assumes "b < 16"
  shows "a mod 4 * 16 + b < 64" "(a mod 4 * 16 + b) div 16 = a mod 4" "(a mod 4 * 16 + b) mod 16 = b"
proof -
  show "a mod 4 * 16 + b < 64" using assms mod_less_divisor [of 4 a] by linarith
  show "(a mod 4 * 16 + b) div 16 = a mod 4" "(a mod 4 * 16 + b) mod 16 = b" using assms by simp_all
qed

lemma quads:
  fixes a b :: nat
  assumes "b < 4"
  shows "a mod 16 * 4 + b < 64" "(a mod 16 * 4 + b) div 4 = a mod 16" "(a mod 16 * 4 + b) mod 4 = b"
proof -
  show "a mod 16 * 4 + b < 64" using assms mod_less_divisor [of 16 a] by linarith
  show "(a mod 16 * 4 + b) div 4 = a mod 16" "(a mod 16 * 4 + b) mod 4 = b" using assms by simp_all
qed

lemma byte_parts [simp]:
  "of_nat (unat (a :: byte) div 4 * 4 + unat a mod 4) = a"
  "of_nat (unat a div 16 * 16 + unat a mod 16) = a"
  "of_nat (unat a div 64 * 64 + unat a mod 64) = a"
  by (simp_all only: div_mult_mod_eq of_nat_unat_byte)

lemma base64_decode_encode: "base64_decode (base64_encode bs) = bs"
proof (induction bs rule: base64_encode.induct)
  case (1 a b c s)
  note r = unat_byte_bounds(1) [of a] unat_byte_bounds(2) [of b] unat_byte_bounds(3) [of c]
  from 1 show ?case
    by (simp add: base64_decode_def r sextets [OF r(2)] quads [OF r(3)] del: of_nat_add of_nat_mult)
next
  case (2 a b)
  note r = unat_byte_bounds(1) [of a] unat_byte_bounds(2) [of b]
  show ?case
    using quads [of 0 "unat b"]
    by (simp add: base64_decode_def r sextets [OF r(2)] del: of_nat_add of_nat_mult)
next
  case (3 a)
  show ?case
    using sextets [of 0 "unat a"] unat_byte_bounds(1) [of a]
    by (simp add: base64_decode_def del: of_nat_add of_nat_mult)
qed (simp add: base64_decode_def)

interpretation b64: codec "\<lambda>_ :: bytes. True" base64_encode "\<lambda>s. Inr (base64_decode s) :: bytes result"
  by unfold_locales (simp add: base64_decode_encode)

lemma ascii_base64: "ascii (base64_encode bs)"
proof -
  have "b64_char d < 128" if "d < 64" for d using that by (auto simp: b64_char_def)
  moreover have "unat b mod 64 < 64" "unat b mod 16 * 4 < 64" "unat b mod 4 * 16 < 64" for b :: byte
    using quads(1) [of 0 "unat b"] sextets(1) [of 0 "unat b"] by simp_all
  ultimately show ?thesis
    by (induction bs rule: base64_encode.induct)
      (auto simp: unat_byte_bounds sextets(1) quads(1))
qed

section \<open>The exchange\<close>

text \<open>A node that speaks the contract: it reads the ciphertext as base64 from the JSON body, and answers
  with the base64 of what it decrypts to.\<close>

definition serves :: "engine \<Rightarrow> node_client \<Rightarrow> (bytes \<Rightarrow> bytes) \<Rightarrow> node_fetch \<Rightarrow> bool" where
  "serves G nc dec fetch \<longleftrightarrow>
     (\<forall>body c. (\<exists>v. parse_json (g_syntax G) body = Inr v \<and>
          (\<exists>s. get_prop v (js ''encryptedMessage'') = Some (JStr s) \<and> base64_decode s = c)) \<longrightarrow>
        fetch (js ''http://localhost:'' @ js_of_nat (nc_signPort nc) @ js ''/decrypt'') body
          = Inr (200, json_stringify (JObj [(js ''decryptedMessage'', JStr (base64_encode (dec c)))])))"

text \<open>C34: what the node decrypts is what the extension gets.  Against a node that reads base64 and answers
  in base64, \<^verbatim>\<open>decrypt\<close> sends exactly the ciphertext's bytes and returns exactly the plaintext's,
  whatever they are.\<close>

theorem decrypt_exchange:
  assumes "serves G nc dec fetch"
  shows "decrypt G B fetch nc ciphertext = Inr (dec ciphertext)"
proof -
  let ?q = "JObj [(js ''encryptedMessage'', JStr (base64_encode ciphertext))]"
  let ?a = "JObj [(js ''decryptedMessage'', JStr (base64_encode (dec ciphertext)))]"
  have ok: "json_ok ?q" "json_ok ?a" by (simp_all add: ascii_units_ok ascii_base64)
  have "parse_json (g_syntax G) (json_stringify ?q) = Inr ?q" "parse_json (g_syntax G) (json_stringify ?a) = Inr ?a"
    using ok by (simp_all add: parse_json_def json_parse_stringify del: json_stringify.simps)
  moreover from this(1) have "fetch (js ''http://localhost:'' @ js_of_nat (nc_signPort nc) @ js ''/decrypt'') (json_stringify ?q)
      = Inr (200, json_stringify ?a)"
    using assms unfolding serves_def by (simp add: get_prop_def base64_decode_encode del: json_stringify.simps)
  ultimately show ?thesis
    by (simp add: decrypt_def node_post_def baseUrl_def get_prop_def base64_decode_encode del: json_stringify.simps)
qed

text \<open>C38: every failure of the node is an exception with its cause: an expired timer names the path and
  the limit, a status outside 200 to 299 is quoted with the node's text, any other exception of the
  transport is passed on, and an answer without the plaintext says so.\<close>

theorem decrypt_failures:
  "(\<forall>e. (\<forall>u b. fetch u b = Inl e) \<longrightarrow>
      decrypt G B fetch nc c = Inl (if exn_name e = js ''AbortError''
        then Error (js ''node request to /decrypt timed out after '' @ js_of_nat (nc_timeoutMs nc) @ js ''ms'')
        else e)) \<and>
   (\<forall>st text. (\<forall>u b. fetch u b = Inr (st, text)) \<and> (st < 200 \<or> 299 < st) \<longrightarrow>
      decrypt G B fetch nc c
        = Inl (Error (js ''node returned '' @ js_of_nat st @ js '' for /decrypt: '' @ text))) \<and>
   (\<forall>text v. (\<forall>u b. fetch u b = Inr (200, text)) \<and> json_parse text = Some v \<and> v \<noteq> JNull \<and>
        get_prop v (js ''decryptedMessage'') = None \<longrightarrow>
      decrypt G B fetch nc c = Inl (Error (js ''node response missing decryptedMessage'')))"
  by (auto simp: decrypt_def node_post_def Error_def parse_json_def js_Cons Let_def)

definition echo_node :: "engine \<Rightarrow> node_fetch" where
  "echo_node G u body =
     (case parse_json (g_syntax G) body of
        Inl e \<Rightarrow> Inl e
      | Inr v \<Rightarrow>
          Inr (200, json_stringify (JObj [(js ''decryptedMessage'', JStr (base64_encode (rev (base64_decode
            (case get_prop v (js ''encryptedMessage'') of Some (JStr s) \<Rightarrow> s | _ \<Rightarrow> [])))))])))"

theorem decrypt_exchange_witness:
  "decrypt demo_engine (\<lambda>_. Inr []) (echo_node demo_engine) \<lparr>nc_signPort = 9090, nc_timeoutMs = DEFAULT_TIMEOUT_MS\<rparr> [1, 2, 255] = Inr [255, 2, 1]"
proof -
  have "serves demo_engine nc rev (echo_node demo_engine)" for nc
    by (auto simp: serves_def echo_node_def simp del: json_stringify.simps)
  from decrypt_exchange [OF this, where ciphertext = "[1, 2, 255]"] show ?thesis by simp
qed

theorem decrypt_failures_witness:
  "decrypt demo_engine (\<lambda>_. Inr []) (\<lambda>u b. Inr (503, js ''busy'')) \<lparr>nc_signPort = 9090, nc_timeoutMs = 30000\<rparr> [1]
     = Inl (Error (js ''node returned '' @ js_of_nat 503 @ js '' for /decrypt: '' @ js ''busy''))"
  using decrypt_failures [of "\<lambda>u b. Inr (503, js ''busy'')" demo_engine "\<lambda>_. Inr []" "\<lparr>nc_signPort = 9090, nc_timeoutMs = 30000\<rparr>" "[1]"] by simp

end
