(* ===== verification/EventLog.thy ===== *)
theory EventLog
  imports VaultContract
begin

text \<open>
  The vault's event log over a run: it only grows, and a stream id is announced once, by the
  transaction that creates the stream.  This is what a client that reads the log through an indexer
  relies on.
\<close>

definition created_id :: "event \<Rightarrow> uint256 option" where
  "created_id e = (case e of StreamCreated i _ _ _ _ _ _ \<Rightarrow> Some i | _ \<Rightarrow> None)"

lemma created_id_simps [simp]:
  "created_id (StreamCreated i a b t c st enc) = Some i" "created_id (StreamFunded i n) = None"
  "created_id (Withdrawn i a p) = None" "created_id (StreamCancelled i p) = None"
  "created_id (TermsRevealed i terms) = None" "created_id (TeeSignerUpdated a) = None"
  by (simp_all add: created_id_def)

text \<open>Events are appended, and the ids they announce are those the call allocated.\<close>

definition log_grows :: "vault \<Rightarrow> vault \<Rightarrow> bool" where
  "log_grows v v' \<longleftrightarrow> v_nextStreamId v \<le> v_nextStreamId v' \<and>
     (\<exists>es. v_events v' = v_events v @ es \<and>
        (\<forall>e \<in> set es. \<forall>i. created_id e = Some i \<longrightarrow> v_nextStreamId v \<le> i \<and> i < v_nextStreamId v'))"

lemma log_grows_refl [simp]: "log_grows v v"
  by (simp add: log_grows_def)

lemma log_grows_trans: "log_grows u v \<Longrightarrow> log_grows v w \<Longrightarrow> log_grows u w"
  unfolding log_grows_def by (force intro: less_le_trans order_trans)

lemma log_grows_upd [simp]:
  "log_grows (v\<lparr>v_entered := n\<rparr>) w \<longleftrightarrow> log_grows v w" "log_grows v (w\<lparr>v_entered := n\<rparr>) \<longleftrightarrow> log_grows v w"
  "log_grows (set_stream i s v) w \<longleftrightarrow> log_grows v w" "log_grows v (set_stream i s w) \<longleftrightarrow> log_grows v w"
  "log_grows v (w\<lparr>v_teeSigner := a\<rparr>) \<longleftrightarrow> log_grows v w"
  by (simp_all add: log_grows_def set_stream_def)

lemma log_grows_emit: "created_id e = None \<Longrightarrow> log_grows v w \<Longrightarrow> log_grows v (emit e w)"
  by (auto simp: log_grows_def)

lemma log_grows_calls:
  "setTeeSigner x a v = Inr v' \<Longrightarrow> log_grows v v'"
  "revealTerms E i terms v = Inr v' \<Longrightarrow> log_grows v v'"
  by (auto simp: setTeeSigner_def revealTerms_def Let_def intro: log_grows_emit split: if_splits)

lemma log_grows_create: "createStream x r t c st enc v = Inr (i, v') \<Longrightarrow> log_grows v v'"
  by (auto simp: createStream_def log_grows_def vault_upd_defs Let_def
      split: if_splits option.splits dest: next_id_less)

lemma log_grows_open1: "log_grows v (open_effect E x c v)"
proof -
  obtain a k where "c = (a, k)" by (cases c)
  then show ?thesis
    by (cases k) (auto split: sum.splits intro: log_grows_calls log_grows_create)
qed

lemma log_grows_open: "log_grows v w \<Longrightarrow> log_grows v (open_effects E x cs w)"
proof (induction cs arbitrary: w)
  case (Cons c cs)
  show ?case using Cons.IH [OF log_grows_trans [OF Cons.prems log_grows_open1]] by simp
qed simp

lemma log_grows_pay:
  "vault_pay E T x m tok to amt (v, w) = Inr (v', w') \<Longrightarrow> v_entered v = 2 \<Longrightarrow> log_grows v v'"
  by (auto simp: pay_Inr log_grows_open split: if_splits)

lemma log_grows_cancel:
  assumes "cancelStream E T x i a d sig (v, w) = Inr (v', w')" "vault_ok v"
  shows "log_grows v v'"
  using assms
proof (rule cancelStream_Inr)
  fix s paid refund wd v1 v2 w1
  assume p: "vault_pay E T x ''transfer failed'' (s_token s) (s_recipient s) paid
       (settled i wd (v\<lparr>v_entered := 2\<rparr>), w) = Inr (v1, w1)" "v_entered v1 = 2"
    "vault_pay E T x ''refund failed'' (s_token (v_streams v1 i)) (s_employer (v_streams v1 i)) refund
       (v1, w1) = Inr (v2, w')"
    "v' = (emit (StreamCancelled i refund) v2)\<lparr>v_entered := 1\<rparr>"
  from log_grows_trans [OF log_grows_pay [OF p(1)] log_grows_pay [OF p(3,2)]]
  show ?thesis by (simp add: p(4) log_grows_emit settled_def)
qed

lemma log_grows_call:
  assumes "vault_call E T x c (v, w) = Inr (v', w')" "vault_ok v"
  shows "log_grows v v'"
proof (cases c)
  case (CFund i n)
  with assms(1) have "fund E T x i n (v, w) = Inr (v', w')" by simp
  then show ?thesis by (rule fund_Inr) (simp add: log_grows_emit log_grows_open)
next
  case (CWithdraw i a d sig)
  with assms(1) have "withdraw E T x i a d sig (v, w) = Inr (v', w')" by simp
  then show ?thesis
    by (rule withdraw_Inr) (simp add: log_grows_emit log_grows_open withdrawn_to_def Let_def)
next
  case (CCancelStream i a d sig)
  with assms log_grows_cancel show ?thesis by simp
qed (use assms(1) in \<open>auto split: sum.splits intro: log_grows_calls log_grows_create\<close>)

lemma log_grows_run:
  "vault_run E T this others vw vw' \<Longrightarrow> vault_inv vw \<Longrightarrow> log_grows (fst vw) (fst vw')"
proof (induction rule: rtranclp_induct)
  case (step y z)
  from vault_run_inv [OF step.hyps(1) step.prems] have "vault_ok (fst y)" by (simp add: vault_inv_def)
  with step.hyps(2) have "log_grows (fst y) (fst z)"
    by cases (auto intro: log_grows_call)
  with step show ?case by (blast intro: log_grows_trans)
qed simp

lemma find_append_None: "find P xs = None \<Longrightarrow> find P (xs @ ys) = find P ys"
  by (induction xs) (auto split: if_splits)

text \<open>Every id that was announced is an id that was given out.\<close>

definition ids_announced :: "vault \<Rightarrow> bool" where
  "ids_announced v \<longleftrightarrow> (\<forall>e \<in> set (v_events v). \<forall>i. created_id e = Some i \<longrightarrow> i < v_nextStreamId v)"

lemma ids_announced_new: "ids_announced (new_vault a b)"
  by (simp add: ids_announced_def new_vault_def)

lemma ids_announced_grows: "log_grows v v' \<Longrightarrow> ids_announced v \<Longrightarrow> ids_announced v'"
  unfolding log_grows_def ids_announced_def by (force intro: less_le_trans)

text \<open>The first announcement of a stream's id, at any later time, is its creation.\<close>

lemma first_announcement:
  assumes "createStream x r t c st enc v = Inr (i, v1)" "ids_announced v" "log_grows v1 v'"
  shows "find (\<lambda>e. created_id e = Some i) (v_events v') = Some (StreamCreated i (tx_sender x) r t c st enc)"
proof -
  have i: "i = v_nextStreamId v" and ev: "v_events v1 = v_events v @ [StreamCreated i (tx_sender x) r t c st enc]"
    using assms(1) by (auto simp: createStream_def Let_def vault_upd_defs split: if_splits option.splits)
  from assms(2) i have "find (\<lambda>e. created_id e = Some i) (v_events v) = None"
    by (auto simp: find_None_iff ids_announced_def)
  then have "find (\<lambda>e. created_id e = Some i) (v_events v @ StreamCreated i (tx_sender x) r t c st enc # es)
      = Some (StreamCreated i (tx_sender x) r t c st enc)" for es
    by (simp add: find_append_None)
  moreover from assms(3) ev obtain es where "v_events v' = v_events v @ StreamCreated i (tx_sender x) r t c st enc # es"
    by (auto simp: log_grows_def)
  ultimately show ?thesis by simp
qed

end
