(* ===== verification/Chain.thy ===== *)
theory Chain
  imports EnclaveClient EventLog VaultTheorems
begin

text \<open>
  \<^verbatim>\<open>frontend/lib/chain.ts\<close>: the pages' read access to the chain.  The RPC client and \<^verbatim>\<open>fetch\<close>
  are a parameter, the record \<open>rpc\<close>: the public getter of a stream, the head of the chain, the
  \<^verbatim>\<open>TermsRevealed\<close> logs of a range of blocks, a token's metadata, the explorer's answer to a URL, and
  \<^verbatim>\<open>decodeAbiParameters\<close> at the non-indexed arguments of \<^verbatim>\<open>StreamCreated\<close>, of which the code
  uses the last.  The explorer's JSON is taken at the type to which the code casts it.

  The contract \<open>indexed\<close> says what the explorer serves: the vault's \<^verbatim>\<open>StreamCreated\<close> events in
  their order.
\<close>

section \<open>Configuration\<close>

record chain_config =
  cc_rpc_url :: jsstr
  cc_explorer :: jsstr
  cc_vault :: jsstr
  cc_demo_stream :: int
  cc_reveal_block :: int

definition env_or :: "(jsstr \<Rightarrow> jsstr option) \<Rightarrow> string \<Rightarrow> string \<Rightarrow> jsstr" where
  "env_or env k d = (case env (js k) of None \<Rightarrow> js d | Some s \<Rightarrow> s)"

definition chain_config_of :: "(jsstr \<Rightarrow> jsstr option) \<Rightarrow> chain_config result" where
  "chain_config_of env =
     (case to_bigint (env_or env ''NEXT_PUBLIC_DEMO_STREAM_ID'' ''3'') of Inl e \<Rightarrow> Inl e
      | Inr demo \<Rightarrow>
       (case to_bigint (env_or env ''NEXT_PUBLIC_DEMO_REVEAL_BLOCK'' ''33546811'') of Inl e \<Rightarrow> Inl e
        | Inr block \<Rightarrow> Inr
          \<lparr>cc_rpc_url = env_or env ''NEXT_PUBLIC_RPC_URL'' ''https://coston2-api.flare.network/ext/C/rpc'',
           cc_explorer = env_or env ''NEXT_PUBLIC_EXPLORER_URL'' ''https://coston2-explorer.flare.network'',
           cc_vault = env_or env ''NEXT_PUBLIC_STREAMVAULT_ADDRESS'' ''0xd235B90dc929f7B061EAefdE0C8f020B3Cff47D7'',
           cc_demo_stream = demo, cc_reveal_block = block\<rparr>))"

section \<open>Reads\<close>

record onchain_stream =
  oc_employer :: jsstr
  oc_recipient :: jsstr
  oc_token :: jsstr
  oc_commitment :: jsstr
  oc_funded :: int
  oc_withdrawn :: int
  oc_startTime :: int
  oc_cancelled :: bool

record explorer_log =
  el_topics :: "jsstr list"
  el_data :: jsstr
  el_blockNumber :: jsstr

record explorer_body =
  eb_status :: jsstr
  eb_result :: "explorer_log list option"

record rpc =
  rpc_streams :: "int \<Rightarrow> (jsstr \<times> jsstr \<times> jsstr \<times> jsstr \<times> int \<times> int \<times> int \<times> bool) result"
  rpc_block :: "int result"
  rpc_revealed :: "int \<Rightarrow> int \<Rightarrow> int \<Rightarrow> jsstr option list result"
  rpc_decimals :: "jsstr \<Rightarrow> nat result"
  rpc_symbol :: "jsstr \<Rightarrow> jsstr result"
  rpc_get :: "jsstr \<Rightarrow> (nat \<times> explorer_body result) result"
  rpc_decode_created :: "jsstr \<Rightarrow> jsstr result"

definition readStream :: "rpc \<Rightarrow> int \<Rightarrow> onchain_stream result" where
  "readStream R streamId =
     (case rpc_streams R streamId of
        Inl e \<Rightarrow> Inl e
      | Inr (employer, recipient, token, commitment, funded, withdrawn, startTime, cancelled) \<Rightarrow>
          Inr \<lparr>oc_employer = employer, oc_recipient = recipient, oc_token = token,
               oc_commitment = commitment, oc_funded = funded, oc_withdrawn = withdrawn,
               oc_startTime = startTime, oc_cancelled = cancelled\<rparr>)"

text \<open>The block window of \<^verbatim>\<open>readRevealedTerms\<close>.\<close>

definition reveal_window :: "int \<Rightarrow> int \<Rightarrow> int \<times> int" where
  "reveal_window revealBlock head =
     (let span = 10;
          anchor = (if revealBlock > 0 \<and> revealBlock \<le> head then revealBlock else head)
      in (if anchor > span then anchor - span else 0,
          if anchor + span > head then head else anchor + span))"

definition readRevealedTerms :: "chain_config \<Rightarrow> rpc \<Rightarrow> int \<Rightarrow> jsstr option result" where
  "readRevealedTerms C R streamId =
     (case rpc_block R of
        Inl e \<Rightarrow> Inl e
      | Inr head \<Rightarrow>
         (case reveal_window (cc_reveal_block C) head of (fromBlock, toBlock) \<Rightarrow>
           (case rpc_revealed R streamId fromBlock toBlock of
              Inl e \<Rightarrow> Inl e
            | Inr logs \<Rightarrow> Inr (if logs = [] then None else last logs))))"

text \<open>\<^verbatim>\<open>Promise.all\<close> of two reads; when both fail the rejection is that of the first.\<close>

definition readTokenMeta :: "rpc \<Rightarrow> jsstr \<Rightarrow> (nat \<times> jsstr) result" where
  "readTokenMeta R token =
     (case rpc_decimals R token of
        Inl e \<Rightarrow> Inl e
      | Inr decimals \<Rightarrow>
         (case rpc_symbol R token of Inl e \<Rightarrow> Inl e | Inr symbol \<Rightarrow> Inr (decimals, symbol)))"

definition short :: "jsstr \<Rightarrow> nat \<Rightarrow> jsstr" where
  "short a n = take (n + 2) a @ [0x2026] @ drop (length a - 4) a"

section \<open>The explorer\<close>

definition STREAM_CREATED_TOPIC :: jsstr where
  "STREAM_CREATED_TOPIC = js ''0x53c8067c6ec448936f0de64df8f0359d0a324be1a35dcf3150a229bf13312a28''"

record created_log =
  cl_streamId :: int
  cl_employer :: jsstr
  cl_recipient :: jsstr
  cl_encryptedTerms :: jsstr
  cl_blockNumber :: "int option"

text \<open>Any exception on the way makes it \<^verbatim>\<open>null\<close>.\<close>

definition decodeCreatedLog :: "rpc \<Rightarrow> explorer_log \<Rightarrow> created_log option" where
  "decodeCreatedLog R l =
     (case rpc_decode_created R (el_data l) of
        Inl _ \<Rightarrow> None
      | Inr encryptedTerms \<Rightarrow>
         (case el_topics l of
            _ # t1 # t2 # t3 # _ \<Rightarrow>
             (case to_bigint t1 of
                Inl _ \<Rightarrow> None
              | Inr streamId \<Rightarrow> Some
                 \<lparr>cl_streamId = streamId, cl_employer = js ''0x'' @ drop 26 t2,
                  cl_recipient = js ''0x'' @ drop 26 t3, cl_encryptedTerms = encryptedTerms,
                  cl_blockNumber = parse_int16 (el_blockNumber l)\<rparr>)
          | _ \<Rightarrow> None))"

definition created_logs_url :: "chain_config \<Rightarrow> jsstr \<Rightarrow> jsstr" where
  "created_logs_url C extraParams =
     cc_explorer C @ js ''/api'' @ js ''?module=logs&action=getLogs&fromBlock=1&toBlock=latest''
     @ js ''&address='' @ cc_vault C @ js ''&topic0='' @ STREAM_CREATED_TOPIC @ extraParams"

definition queryCreatedLogs :: "chain_config \<Rightarrow> rpc \<Rightarrow> jsstr \<Rightarrow> created_log list result" where
  "queryCreatedLogs C R extraParams =
     (case rpc_get R (created_logs_url C extraParams) of
        Inl e \<Rightarrow> Inl e
      | Inr (status, body) \<Rightarrow>
         if \<not> (200 \<le> status \<and> status \<le> 299) then
           Inl (Error (js ''explorer API '' @ js_of_nat status))
         else case body of
           Inl e \<Rightarrow> Inl e
         | Inr b \<Rightarrow>
            (case eb_result b of
               None \<Rightarrow> Inr []
             | Some logs \<Rightarrow>
                if eb_status b \<noteq> js ''1'' then Inr []
                else Inr (List.map_filter (decodeCreatedLog R) logs)))"

definition fetchEncryptedTerms :: "chain_config \<Rightarrow> rpc \<Rightarrow> int \<Rightarrow> jsstr option result" where
  "fetchEncryptedTerms C R streamId =
     (case queryCreatedLogs C R [] of
        Inl e \<Rightarrow> Inl e
      | Inr logs \<Rightarrow> Inr (map_option cl_encryptedTerms (find (\<lambda>l. cl_streamId l = streamId) logs)))"

text \<open>\<^verbatim>\<open>s.padStart(n, "0")\<close>\<close>

definition padStart0 :: "nat \<Rightarrow> jsstr \<Rightarrow> jsstr" where
  "padStart0 n s = replicate (n - length s) 48 @ s"

definition recipient_topic :: "jsstr \<Rightarrow> jsstr" where
  "recipient_topic who = js ''0x'' @ padStart0 64 (drop 2 (to_lower who))"

definition fetchStreamsForRecipient :: "chain_config \<Rightarrow> rpc \<Rightarrow> jsstr \<Rightarrow> created_log list result" where
  "fetchStreamsForRecipient C R who =
     queryCreatedLogs C R (js ''&topic3='' @ recipient_topic who @ js ''&topic0_3_opr=and'')"

section \<open>Hex words as numbers\<close>

definition be_nat :: "bytes \<Rightarrow> nat" where
  "be_nat bs = foldl (\<lambda>n b. n * 256 + unat b) 0 bs"

lemma be_nat_snoc: "be_nat (bs @ [b]) = be_nat bs * 256 + unat b"
  by (simp add: be_nat_def)

lemma be_nat_less: "be_nat bs < 256 ^ length bs"
proof (induction bs rule: rev_induct)
  case (snoc b bs)
  then have "be_nat bs * 256 + 256 \<le> 256 ^ length bs * 256" by simp
  moreover have "be_nat bs * 256 + unat b < be_nat bs * 256 + 256" using unat_byte_less [of b] by simp
  ultimately have "be_nat bs * 256 + unat b < 256 ^ length bs * 256" by (rule less_le_trans [rotated])
  then show ?case by (simp add: be_nat_snoc mult.commute)
qed (simp add: be_nat_def)

lemma be_word_of_nat: "be_word bs = of_nat (be_nat bs)"
proof (induction bs rule: rev_induct)
  case (snoc b bs)
  have "(ucast b :: bytes32) = of_nat (unat b)" by (simp add: unsigned_of_nat)
  with snoc show ?case by (simp add: be_word_snoc be_nat_snoc push_bit_eq_mult)
qed (simp add: be_word_def be_nat_def)

lemma unat_be_word:
  assumes "length bs = 32"
  shows "unat (be_word bs) = be_nat bs"
proof -
  have "be_nat bs < 2 ^ 256" using be_nat_less [of bs] assms by simp
  then show ?thesis by (simp add: be_word_of_nat unat_of_nat take_bit_nat_eq_self)
qed

lemma radix_val_hex:
  "radix_val 16 n (concat (map byte_hex bs) @ s) = radix_val 16 (foldl (\<lambda>n b. n * 256 + unat b) n bs) s"
proof (induction bs arbitrary: n)
  case (Cons b bs)
  have "(n * 16 + x) * 16 + y = n * 256 + (x * 16 + y)" for x y :: nat by simp
  from this [of "unat b div 16" "unat b mod 16"]
  have "(n * 16 + unat b div 16) * 16 + unat b mod 16 = n * 256 + unat b" by (simp only: div_mult_mod_eq)
  with Cons show ?case by (simp add: byte_hex_def ac_simps)
qed simp

lemma hex_no_space: "list_all (\<lambda>c. \<not> is_js_space c) (bytesToHex bs)"
proof -
  have "list_all (\<lambda>c. \<not> is_js_space c) (concat (map byte_hex bs))"
    by (induction bs) (simp_all add: byte_hex_def hex_char_plain)
  then show ?thesis by (simp add: bytesToHex_def js_Cons is_js_space_def)
qed

lemma to_bigint_hex32 [simp]: "to_bigint (hex32 w) = Inr (uint w)"
proof -
  have "be_nat (word_be w) = unat w" using unat_be_word [of "word_be w"] by simp
  then have "radix_val 16 0 (concat (map byte_hex (word_be w))) = Some (unat w)"
    using radix_val_hex [of 0 "word_be w" "[]"] by (simp add: be_nat_def)
  moreover have "trim (hex32 w) = 48 # 120 # concat (map byte_hex (word_be w))"
    using trim_no_space [OF hex_no_space, of "word_be w"] by (simp add: hex32_def bytesToHex_def js_Cons)
  moreover have "concat (map byte_hex (word_be w)) \<noteq> []"
    using length_concat_byte_hex [of "word_be w"] by (metis length_word_be list.size(3) mult_is_0 zero_neq_numeral)
  ultimately show ?thesis
    by (simp add: to_bigint_def bigint_of_string_def)
qed

section \<open>The window\<close>

text \<open>C40: the window of blocks is always legal.  For any head and any pinned block, the range that
  \<^verbatim>\<open>readRevealedTerms\<close> asks for starts at a block from 0 on, ends at most at the head, spans at most
  21 blocks (the RPC's limit is 30), and contains the pinned block if that one exists, else the head.\<close>

theorem reveal_window_legal:
  assumes "0 \<le> head" "reveal_window revealBlock head = (fromBlock, toBlock)"
  shows "0 \<le> fromBlock \<and> fromBlock \<le> toBlock \<and> toBlock \<le> head \<and> toBlock - fromBlock + 1 \<le> 21 \<and>
     (if 0 < revealBlock \<and> revealBlock \<le> head then fromBlock \<le> revealBlock \<and> revealBlock \<le> toBlock
      else toBlock = head)"
  using assms by (auto simp: reveal_window_def Let_def split: if_splits)

theorem reveal_window_legal_witness:
  "reveal_window 33546811 33546815 = (33546801, 33546815) \<and> (33546815 :: int) - 33546801 + 1 \<le> 21"
proof -
  have w: "reveal_window 33546811 33546815 = (33546801, 33546815)" by (simp add: reveal_window_def Let_def)
  from reveal_window_legal [OF _ this] w show ?thesis by simp
qed

section \<open>The sealed terms\<close>

text \<open>How the explorer presents an event, and what it serves: the \<^verbatim>\<open>StreamCreated\<close> events of the log.\<close>

fun presents :: "rpc \<Rightarrow> explorer_log \<Rightarrow> event \<Rightarrow> bool" where
  "presents R l (StreamCreated i employer recipient token commitment start enc) \<longleftrightarrow>
     el_topics l = [STREAM_CREATED_TOPIC, hex32 i, hex32 (ucast employer), hex32 (ucast recipient)] \<and>
     rpc_decode_created R (el_data l) = Inr (bytesToHex enc)"
| "presents R l e \<longleftrightarrow> False"

definition indexed :: "chain_config \<Rightarrow> rpc \<Rightarrow> vault \<Rightarrow> bool" where
  "indexed C R v \<longleftrightarrow>
     (\<exists>logs. rpc_get R (created_logs_url C []) = Inr (200, Inr \<lparr>eb_status = js ''1'', eb_result = Some logs\<rparr>) \<and>
        list_all2 (presents R) logs (filter (\<lambda>e. created_id e \<noteq> None) (v_events v)))"

lemma decode_presented:
  assumes "presents R l e"
  obtains i a r t c st enc log where "e = StreamCreated i a r t c st enc"
    "decodeCreatedLog R l = Some log" "cl_streamId log = uint i" "cl_encryptedTerms log = bytesToHex enc"
  using assms
  by (cases "(R, l, e)" rule: presents.cases) (auto simp: decodeCreatedLog_def)

lemma find_presented:
  "list_all2 (presents R) logs es \<Longrightarrow> find (\<lambda>e. created_id e = Some i) es = Some (StreamCreated i a r t c st enc) \<Longrightarrow>
   \<exists>log. find (\<lambda>l. cl_streamId l = uint i) (List.map_filter (decodeCreatedLog R) logs) = Some log \<and>
     cl_encryptedTerms log = bytesToHex enc"
proof (induction rule: list_all2_induct)
  case (Cons l logs e es)
  obtain j a' r' t' c' st' enc' log where e: "e = StreamCreated j a' r' t' c' st' enc'"
    "decodeCreatedLog R l = Some log" "cl_streamId log = uint j" "cl_encryptedTerms log = bytesToHex enc'"
    using decode_presented [OF Cons.hyps(1)] by metis
  show ?case
  proof (cases "i = j")
    case True
    with e Cons.prems show ?thesis by (auto simp: List.map_filter_simps)
  next
    case False
    then have "uint j \<noteq> uint i" by (simp add: word_uint_eq_iff)
    with False e Cons show ?thesis by (auto simp: List.map_filter_simps)
  qed
qed simp

lemma find_filter: "(\<And>e. P e \<Longrightarrow> Q e) \<Longrightarrow> find P (filter Q es) = find P es"
  by (induction es) auto

lemma fetch_indexed:
  assumes "indexed C R v"
    and "find (\<lambda>e. created_id e = Some i) (v_events v) = Some (StreamCreated i a r t c st enc)"
  shows "fetchEncryptedTerms C R (uint i) = Inr (Some (bytesToHex enc))"
proof -
  obtain logs where l: "rpc_get R (created_logs_url C []) = Inr (200, Inr \<lparr>eb_status = js ''1'', eb_result = Some logs\<rparr>)"
    "list_all2 (presents R) logs (filter (\<lambda>e. created_id e \<noteq> None) (v_events v))"
    using assms(1) by (auto simp: indexed_def)
  have "find (\<lambda>e. created_id e = Some i) (filter (\<lambda>e. created_id e \<noteq> None) (v_events v))
      = Some (StreamCreated i a r t c st enc)"
    using assms(2) by (subst find_filter) auto
  from find_presented [OF l(2) this] l(1) show ?thesis
    by (auto simp: fetchEncryptedTerms_def queryCreatedLogs_def)
qed

text \<open>C26: the sealed terms are found.  A stream that was created on a vault deployed as the code does is
  found by the page at any later time of any run, if the explorer serves the vault's events:
  \<^verbatim>\<open>fetchEncryptedTerms\<close> returns the very ciphertext of the creating call, and \<^verbatim>\<open>null\<close> never
  stands for a stream that exists.\<close>

theorem sealed_terms_found:
  assumes "vault_run E T this others (new_vault owner signer, w0) (v, w)"
    and "createStream x r t c st enc v = Inr (i, v1)"
    and "vault_run E T this others (v1, w) (v', w')" "indexed C R v'"
  shows "fetchEncryptedTerms C R (uint i) = Inr (Some (bytesToHex enc))"
proof -
  have inv: "vault_inv (v, w)" using vault_run_inv [OF assms(1)] by simp
  have ann: "ids_announced v"
    using ids_announced_grows [OF _ ids_announced_new] log_grows_run [OF assms(1)] by auto
  have "vault_inv (v1, w)"
    using inv vault_ok_frame [OF frame_createStream [OF assms(2)]] assms(2)
    by (auto simp: vault_inv_def createStream_def Let_def split: if_splits option.splits)
  then have "log_grows v1 v'" using log_grows_run [OF assms(3)] by simp
  from first_announcement [OF assms(2) ann this] fetch_indexed [OF assms(4)] show ?thesis by blast
qed

definition demo_config :: chain_config where
  "demo_config = \<lparr>cc_rpc_url = [], cc_explorer = js ''x'', cc_vault = js ''0x09'', cc_demo_stream = 3,
     cc_reveal_block = 33546811\<rparr>"

definition demo_rpc :: rpc where
  "demo_rpc = \<lparr>rpc_streams = (\<lambda>_. Inl (Error [])), rpc_block = Inr 0, rpc_revealed = (\<lambda>_ _ _. Inr []),
     rpc_decimals = (\<lambda>_. Inr 6), rpc_symbol = (\<lambda>_. Inr []),
     rpc_get = (\<lambda>_. Inr (200, Inr \<lparr>eb_status = js ''1'', eb_result = Some
       [\<lparr>el_topics = [STREAM_CREATED_TOPIC, hex32 1, hex32 1, hex32 2], el_data = [], el_blockNumber = js ''0x1f''\<rparr>]\<rparr>)),
     rpc_decode_created = (\<lambda>_. Inr (bytesToHex [202, 254]))\<rparr>"

theorem sealed_terms_found_witness:
  "fetchEncryptedTerms demo_config demo_rpc 1 = Inr (Some (bytesToHex [202, 254]))"
proof -
  let ?v = "new_vault 1 5"
  have "createStream (demo_tx 1 0) 2 7 99 0 [202, 254] ?v = Inr (1, emit (StreamCreated 1 1 2 7 99 0 [202, 254])
      (set_stream 1 \<lparr>s_employer = 1, s_recipient = 2, s_token = 7, s_commitment = 99, s_funded = 0,
         s_withdrawn = 0, s_startTime = 0, s_cancelled = False\<rparr> (?v\<lparr>v_nextStreamId := 2\<rparr>)))"
    by (simp add: createStream_def new_vault_def demo_tx_def checked_add_def Let_def)
  note h = sealed_terms_found [OF rtranclp.rtrancl_refl this rtranclp.rtrancl_refl, where C = demo_config and R = demo_rpc]
  have "indexed demo_config demo_rpc (emit (StreamCreated 1 1 2 7 99 0 [202, 254])
      (set_stream 1 \<lparr>s_employer = 1, s_recipient = 2, s_token = 7, s_commitment = 99, s_funded = 0,
         s_withdrawn = 0, s_startTime = 0, s_cancelled = False\<rparr> (?v\<lparr>v_nextStreamId := 2\<rparr>)))"
    by (simp add: indexed_def demo_rpc_def new_vault_def)
  with h show ?thesis by simp
qed

end
