(* ===== verification/Pages.thy ===== *)
theory Pages
  imports Chain ClientServer
begin

text \<open>
  What the pages of \<^verbatim>\<open>frontend/app\<close> share: the wallet, the id in the URL, how an exception becomes a
  message, and the rate per day they display.

  The wallet is a parameter, the record \<open>wallet\<close>; the state \<open>'w\<close> is the chain it writes to.
  \<open>wl_write\<close> takes the address, the names of the functions of the ABI it was given, the function
  and its arguments.  \<open>checks_abi\<close> is viem's documented behaviour: a function that is not in the ABI
  is refused before anything is sent.
\<close>

section \<open>The wallet\<close>

text \<open>A log of a transaction: the contract, the topics, the data.\<close>

type_synonym tx_log = "jsstr \<times> jsstr list \<times> jsstr"

record receipt =
  rc_status :: jsstr
  rc_logs :: "tx_log list"

record 'w wallet =
  wl_sign :: "jsstr \<Rightarrow> jsstr result"
  wl_write :: "jsstr \<Rightarrow> string list \<Rightarrow> string \<Rightarrow> abi_value list \<Rightarrow> 'w \<Rightarrow> jsstr result \<times> 'w"
  wl_receipt :: "jsstr \<Rightarrow> 'w \<Rightarrow> receipt result"

definition VAULT_ABI :: "string list" where
  "VAULT_ABI = [''streams'', ''teeSigner'']"

definition ERC20_ABI :: "string list" where
  "ERC20_ABI = [''decimals'', ''symbol'', ''balanceOf'']"

definition checks_abi :: "'w wallet \<Rightarrow> bool" where
  "checks_abi W \<longleftrightarrow> (\<forall>addr abi fn args w. fn \<notin> set abi \<longrightarrow>
     (\<exists>e. wl_write W addr abi fn args w = (Inl e, w)))"

text \<open>\<^verbatim>\<open>writeContract\<close>, then \<^verbatim>\<open>waitForTransactionReceipt\<close>.\<close>

definition write_wait ::
    "'w wallet \<Rightarrow> jsstr \<Rightarrow> string list \<Rightarrow> string \<Rightarrow> abi_value list \<Rightarrow> 'w \<Rightarrow> (jsstr \<times> receipt) result \<times> 'w" where
  "write_wait W addr abi fn args w =
     (case wl_write W addr abi fn args w of
        (Inl e, w1) \<Rightarrow> (Inl e, w1)
      | (Inr hash, w1) \<Rightarrow>
         (case wl_receipt W hash w1 of Inl e \<Rightarrow> (Inl e, w1) | Inr rcpt \<Rightarrow> (Inr (hash, rcpt), w1)))"

lemma write_wait_unknown:
  assumes "checks_abi W" "fn \<notin> set abi"
  shows "\<exists>e. write_wait W addr abi fn args w = (Inl e, w)"
  using assms unfolding checks_abi_def write_wait_def by (metis (mono_tags, lifting) old.sum.simps(5) split_conv)

text \<open>viem's \<^verbatim>\<open>isHex\<close> and \<^verbatim>\<open>parseUnits\<close>, eciesjs's \<^verbatim>\<open>encrypt\<close>, and the query of a URL.\<close>

record tools =
  tl_isHex :: "jsstr \<Rightarrow> bool"
  tl_parseUnits :: "jsstr \<Rightarrow> nat \<Rightarrow> int result"
  tl_encrypt :: "jsstr \<Rightarrow> bytes \<Rightarrow> bytes result"
  tl_set_param :: "jsstr \<Rightarrow> jsstr \<Rightarrow> jsstr \<Rightarrow> jsstr"

section \<open>Common parts\<close>

text \<open>\<^verbatim>\<open>BigInt(params.id)\<close>, \<^verbatim>\<open>null\<close> when it throws.\<close>

definition stream_id_of :: "jsstr \<Rightarrow> int option" where
  "stream_id_of s = (case to_bigint s of Inl _ \<Rightarrow> None | Inr i \<Rightarrow> Some i)"

text \<open>\<^verbatim>\<open>e.message.split("\n")[0]\<close>\<close>

definition first_line :: "js_exn \<Rightarrow> jsstr" where
  "first_line e = takeWhile (\<lambda>c. c \<noteq> 10) (exn_message e)"

definition ZERO_ADDRESS :: jsstr where
  "ZERO_ADDRESS = js ''0x'' @ replicate 40 48"

definition now_bigint :: "int \<Rightarrow> int" where
  "now_bigint now_ms = now_ms div 1000"

text \<open>The RPC client serves the vault's storage.  Addresses come with a checksum, in mixed case, but
  the zero address has no letters.\<close>

definition reads_vault :: "rpc \<Rightarrow> vault \<Rightarrow> bool" where
  "reads_vault R v \<longleftrightarrow> (\<forall>i. \<exists>employer recipient token.
     rpc_streams R (uint i) = Inr (employer, recipient, token, hex32 (s_commitment (v_streams v i)),
        uint (s_funded (v_streams v i)), uint (s_withdrawn (v_streams v i)),
        uint (s_startTime (v_streams v i)), s_cancelled (v_streams v i)) \<and>
     hex_address employer = Some (s_employer (v_streams v i)) \<and>
     hex_address recipient = Some (s_recipient (v_streams v i)) \<and>
     (employer = ZERO_ADDRESS \<longleftrightarrow> s_employer (v_streams v i) = 0))"

text \<open>The rate per day that the pages print, in the token's smallest unit.\<close>

definition per_day :: "stream_terms \<Rightarrow> int" where
  "per_day t = (t_ratePerSecond t * 86400 + RATE_SCALE sdiv 2) sdiv RATE_SCALE"

section \<open>Reading a stream\<close>

lemma hex32_iff [simp]: "hex32 v = hex32 w \<longleftrightarrow> v = w"
  using hex32_inj by blast

lemma to_lower_hex32 [simp]: "to_lower (hex32 w) = hex32 w"
  using to_lower_bytesToHex [of "word_be w"] by (simp add: hex32_def)

lemma readStream_vault:
  assumes "reads_vault R v"
  obtains s where "readStream R (uint i) = Inr s"
    "oc_employer s = ZERO_ADDRESS \<longleftrightarrow> s_employer (v_streams v i) = 0"
    "hex_address (oc_employer s) = Some (s_employer (v_streams v i))"
    "hex_address (oc_recipient s) = Some (s_recipient (v_streams v i))"
    "oc_commitment s = hex32 (s_commitment (v_streams v i))"
    "oc_funded s = uint (s_funded (v_streams v i))" "oc_withdrawn s = uint (s_withdrawn (v_streams v i))"
proof -
  obtain a b c where "rpc_streams R (uint i) = Inr (a, b, c, hex32 (s_commitment (v_streams v i)),
      uint (s_funded (v_streams v i)), uint (s_withdrawn (v_streams v i)),
      uint (s_startTime (v_streams v i)), s_cancelled (v_streams v i))"
    "hex_address a = Some (s_employer (v_streams v i))" "hex_address b = Some (s_recipient (v_streams v i))"
    "a = ZERO_ADDRESS \<longleftrightarrow> s_employer (v_streams v i) = 0"
    using assms unfolding reads_vault_def by meson
  then show thesis by (intro that [of "\<lparr>oc_employer = a, oc_recipient = b, oc_token = c,
      oc_commitment = hex32 (s_commitment (v_streams v i)), oc_funded = uint (s_funded (v_streams v i)),
      oc_withdrawn = uint (s_withdrawn (v_streams v i)), oc_startTime = uint (s_startTime (v_streams v i)),
      oc_cancelled = s_cancelled (v_streams v i)\<rparr>"]) (simp_all add: readStream_def)
qed

text \<open>A client that serves a given vault.\<close>

definition addr_text :: "address \<Rightarrow> jsstr" where
  "addr_text a = bytesToHex (drop 12 (word_be (ucast a)))"

definition vault_rpc :: "vault \<Rightarrow> rpc" where
  "vault_rpc v = demo_rpc\<lparr>rpc_streams := (\<lambda>i. let s = v_streams v (word_of_int i) in
     Inr (addr_text (s_employer s), addr_text (s_recipient s), addr_text (s_token s), hex32 (s_commitment s),
       uint (s_funded s), uint (s_withdrawn s), uint (s_startTime s), s_cancelled s))\<rparr>"

lemma word_be_address: "word_be (ucast (a :: address)) = replicate 12 0 @ drop 12 (word_be (ucast a))"
proof -
  have "take 12 (word_be (ucast a)) = replicate 12 0"
  proof (rule nth_equalityI)
    fix i assume "i < length (take 12 (word_be (ucast a)))"
    then have i: "i < 12" by simp
    have "(ucast (drop_bit (8 * (31 - i)) (ucast a :: uint256)) :: byte) = 0"
      using i by (intro bit_word_eqI) (auto simp: bit_ucast_iff bit_drop_bit_eq dest: bit_imp_le_length)
    with i show "take 12 (word_be (ucast a)) ! i = replicate 12 0 ! i" by (simp add: word_be_def)
  qed simp
  then show ?thesis by (metis append_take_drop_id)
qed

lemma be_word_replicate: "be_word (replicate n 0 @ bs) = be_word bs"
  by (simp add: be_word_def foldl_append be_word_zeros [unfolded be_word_def])

lemma hex_address_text [simp]: "hex_address (addr_text a) = Some a"
proof -
  have "be_word (drop 12 (word_be (ucast a))) = ucast a"
    using be_word_replicate [of 12 "drop 12 (word_be (ucast a))"] word_be_address [of a] by simp
  moreover have "ucast (ucast a :: uint256) = a"
    by (intro bit_word_eqI) (auto simp: bit_ucast_iff dest: bit_imp_le_length)
  ultimately show ?thesis by (simp add: hex_address_def addr_text_def)
qed

lemma addr_text_inj: "addr_text a = addr_text b \<longleftrightarrow> a = b"
  by (metis hex_address_text option.inject)

lemma word_be_zero: "word_be 0 = replicate 32 0"
  by (rule nth_equalityI) (simp_all add: word_be_def)

lemma concat_pairs: "concat (replicate n [c, c]) = replicate (2 * n) c"
  by (induction n) simp_all

lemma addr_text_zero [simp]: "addr_text 0 = ZERO_ADDRESS"
  using concat_pairs [of 20 48]
  by (simp add: addr_text_def ZERO_ADDRESS_def bytesToHex_def byte_hex_def word_be_zero hex_char_def)

lemma reads_vault_rpc: "reads_vault (vault_rpc v) v"
proof -
  have z: "addr_text a = ZERO_ADDRESS \<longleftrightarrow> a = 0" for a
    using addr_text_inj [of a 0] by simp
  show ?thesis by (auto simp: reads_vault_def vault_rpc_def Let_def z)
qed

section \<open>The rate per day\<close>

lemma per_day_eq:
  assumes "0 \<le> d" "t_ratePerSecond t = ratePerDayToScaled d"
  shows "per_day t = d"
proof -
  define S :: int where "S = RATE_SCALE"
  have S: "S = 1000000000000" by (simp add: S_def RATE_SCALE_def)
  define r where "r = (d * S) div 86400"
  have r: "t_ratePerSecond t = r"
    using assms by (simp add: ratePerDayToScaled_def r_def S_def sdiv_nonneg)
  have "0 \<le> r" using assms(1) S by (simp add: r_def pos_imp_zdiv_nonneg_iff)
  have b: "r * 86400 \<le> d * S" "d * S < r * 86400 + 86400"
    using floor_bounds [of "d * S" 86400] by (auto simp: r_def algebra_simps)
  have "(r * 86400 + 500000000000) div S = d"
    by (rule int_div_pos_eq [where r = "r * 86400 + 500000000000 - S * d"])
      (use b S in \<open>simp_all add: algebra_simps\<close>)
  moreover have "RATE_SCALE sdiv 2 = 500000000000" by (simp add: RATE_SCALE_def sdiv_nonneg)
  ultimately show ?thesis
    using \<open>0 \<le> r\<close> by (simp add: per_day_def r sdiv_nonneg S_def)
qed

text \<open>The displayed rate is the agreed one.  The fixed-point rate loses up to a unit in its last
  place, but the rounding conversion back undoes it: for every rate per day in the token's smallest
  unit, the pages print exactly what the employer typed, not 0.249999 for 0.25.\<close>

theorem per_day_display_exact:
  assumes "0 \<le> rawUnitsPerDay" "t_ratePerSecond terms = ratePerDayToScaled rawUnitsPerDay"
  shows "per_day terms = rawUnitsPerDay"
  by (rule per_day_eq [OF assms])

theorem per_day_display_exact_witness:
  "per_day (demo_stream_terms\<lparr>t_ratePerSecond := ratePerDayToScaled 250000\<rparr>) = 250000"
  using per_day_display_exact [of 250000 "demo_stream_terms\<lparr>t_ratePerSecond := ratePerDayToScaled 250000\<rparr>"]
  by simp

end
