(* ===== verification/RecipientPage.thy ===== *)
theory RecipientPage
  imports Pages
begin

text \<open>
  \<^verbatim>\<open>frontend/app/stream/[id]/page.tsx\<close>: the recipient's dashboard.  The state is what the page keeps
  in \<^verbatim>\<open>useState\<close>; each callback is a function from the state when it is called to the state when it
  is done.  The RPC client is a function of the chain's state \<open>'w\<close>.  The \<^verbatim>\<open>Authorization\<close> is the JSON
  value the enclave's client returned, unchecked; its fields are read as strings, and a field that is
  not one makes the call fail.

  Of the rendering, what decides something is here: which buttons are enabled, what is available, which
  message a failure shows.  The elements are in \<open>RecipientView\<close>.
\<close>

section \<open>State\<close>

record rpage =
  p_stream :: "onchain_stream option"
  p_meta :: "(nat \<times> jsstr) option"
  p_sealed :: "jsstr option"
  p_chainError :: "jsstr option"
  p_terms :: "stream_terms option"
  p_auth :: "json option"
  p_status :: "jsstr option"
  p_failure :: "(jsstr \<times> jsstr) option"
  p_busy :: bool
  p_withdrawTx :: "jsstr option"

definition init_rpage :: rpage where
  "init_rpage = \<lparr>p_stream = None, p_meta = None, p_sealed = None, p_chainError = None, p_terms = None,
     p_auth = None, p_status = None, p_failure = None, p_busy = False, p_withdrawTx = None\<rparr>"

section \<open>loadChain\<close>

definition loadChain :: "chain_config \<Rightarrow> rpc \<Rightarrow> int option \<Rightarrow> rpage \<Rightarrow> rpage" where
  "loadChain C R streamId p =
     (case streamId of
        None \<Rightarrow> p
      | Some i \<Rightarrow>
         (case readStream R i of
            Inl e \<Rightarrow> p\<lparr>p_chainError := Some (exn_message e)\<rparr>
          | Inr s \<Rightarrow>
             if oc_employer s = ZERO_ADDRESS then
               p\<lparr>p_chainError := Some (js ''Stream #'' @ js_of_int i @ js '' does not exist.'')\<rparr>
             else
              (let p1 = p\<lparr>p_stream := Some s\<rparr> in
               case readTokenMeta R (oc_token s) of
                 Inl e \<Rightarrow> p1\<lparr>p_chainError := Some (exn_message e)\<rparr>
               | Inr m \<Rightarrow>
                  (let p2 = p1\<lparr>p_meta := Some m\<rparr> in
                   case fetchEncryptedTerms C R i of
                     Inl e \<Rightarrow> p2\<lparr>p_chainError := Some (exn_message e)\<rparr>
                   | Inr enc \<Rightarrow> p2\<lparr>p_sealed := enc, p_chainError := None\<rparr>))))"

definition isParty :: "jsstr option \<Rightarrow> rpage \<Rightarrow> bool" where
  "isParty address p =
     (case (address, p_stream p) of
        (Some (c # a), Some s) \<Rightarrow>
          to_lower (c # a) = to_lower (oc_recipient s) \<or> to_lower (c # a) = to_lower (oc_employer s)
      | _ \<Rightarrow> False)"

section \<open>unlock\<close>

definition unlock_request ::
    "viem \<Rightarrow> chain_config \<Rightarrow> int \<Rightarrow> (jsstr \<Rightarrow> jsstr result) \<Rightarrow> int \<Rightarrow> int \<Rightarrow> jsstr \<Rightarrow> jsstr \<Rightarrow> auth_request result" where
  "unlock_request V C chainId sign issuedAt streamId commitment encrypted =
     (case buildCallerChallenge V \<lparr>c_chainId = chainId, c_vault = cc_vault C, c_streamId = streamId,
             c_commitment = commitment, c_purpose = withdraw_tag V, c_issuedAt = issuedAt\<rparr> of
        Inl e \<Rightarrow> Inl e
      | Inr challenge \<Rightarrow>
         (case sign challenge of
            Inl e \<Rightarrow> Inl e
          | Inr callerSignature \<Rightarrow> Inr
             \<lparr>r_streamId = js_of_int streamId, r_vault = cc_vault C, r_chainId = js_of_int chainId,
              r_commitment = commitment, r_encryptedTerms = encrypted,
              r_issuedAt = js_of_int issuedAt, r_callerSignature = callerSignature\<rparr>))"

text \<open>The check of the returned terms against the chain.\<close>

definition check_terms :: "viem \<Rightarrow> engine \<Rightarrow> jsstr \<Rightarrow> json \<Rightarrow> (jsstr \<times> jsstr) + (stream_terms \<times> json)" where
  "check_terms V G commitment auth =
     (case (if auth = JNull then None else str_prop auth (js ''terms'')) of
        None \<Rightarrow> Inl (js ''rejected'', first_line (type_error G))
      | Some h \<Rightarrow>
          if to_lower (v_keccak_hex V h) \<noteq> to_lower commitment then
            Inl (js ''rejected'', js ''Enclave returned terms that do not match the on-chain commitment.'')
          else case decodeTerms V h of
            Inl e \<Rightarrow> Inl (js ''rejected'', first_line e)
          | Inr t \<Rightarrow> Inr (t, auth))"

text \<open>The \<^verbatim>\<open>try\<close> block of \<^verbatim>\<open>unlock\<close>: the failure it sets, or the terms and the authorization.\<close>

definition unlock_body ::
    "viem \<Rightarrow> engine \<Rightarrow> chain_config \<Rightarrow> int \<Rightarrow> (jsstr \<Rightarrow> fetch_outcome) \<Rightarrow> (jsstr \<Rightarrow> jsstr result) \<Rightarrow>
     int \<Rightarrow> int \<Rightarrow> int \<Rightarrow> jsstr \<Rightarrow> jsstr \<Rightarrow> (jsstr \<times> jsstr) + (stream_terms \<times> json)" where
  "unlock_body V G C chainId post sign now_ms send_ms streamId commitment encrypted =
     (case unlock_request V C chainId sign (now_bigint now_ms) streamId commitment encrypted of
        Inl e \<Rightarrow> Inl (js ''rejected'', first_line e)
      | Inr req \<Rightarrow>
         (case requestAuthorization G post send_ms req OP_COMMAND_AUTH_WITHDRAW of
            Inl e \<Rightarrow> Inl (js ''rejected'', first_line e)
          | Inr (Unreachable d) \<Rightarrow> Inl (js ''unreachable'', d)
          | Inr (Rejected d) \<Rightarrow> Inl (js ''rejected'', d)
          | Inr (AuthOk auth) \<Rightarrow> check_terms V G commitment auth))"

definition unlock ::
    "viem \<Rightarrow> engine \<Rightarrow> chain_config \<Rightarrow> int \<Rightarrow> (jsstr \<Rightarrow> fetch_outcome) \<Rightarrow> 'w wallet option \<Rightarrow>
     int \<Rightarrow> int \<Rightarrow> int option \<Rightarrow> rpage \<Rightarrow> rpage" where
  "unlock V G C chainId post wl now_ms send_ms streamId p =
     (case (wl, p_stream p, p_sealed p, streamId) of
        (Some W, Some s, Some (c # enc), Some i) \<Rightarrow>
          (let p1 = p\<lparr>p_busy := True, p_failure := None\<rparr>;
               p2 = (case unlock_body V G C chainId post (wl_sign W) now_ms send_ms i (oc_commitment s) (c # enc) of
                       Inl f \<Rightarrow> p1\<lparr>p_failure := Some f\<rparr>
                     | Inr (t, auth) \<Rightarrow> p1\<lparr>p_terms := Some t, p_auth := Some auth\<rparr>)
           in p2\<lparr>p_status := None, p_busy := False\<rparr>)
      | _ \<Rightarrow> p)"

section \<open>withdraw\<close>

definition withdraw_args :: "int \<Rightarrow> json \<Rightarrow> abi_value list result" where
  "withdraw_args streamId auth =
     (case (str_prop auth (js ''cumulativeAccrued''), str_prop auth (js ''deadline''),
            str_prop auth (js ''signature'')) of
        (Some a, Some d, Some sig) \<Rightarrow>
         (case to_bigint a of Inl e \<Rightarrow> Inl e
          | Inr accrued \<Rightarrow>
             (case to_bigint d of Inl e \<Rightarrow> Inl e
              | Inr deadline \<Rightarrow> Inr [ABig streamId, ABig accrued, ABig deadline, AHex sig]))
      | _ \<Rightarrow> Inl (JsExn (js ''TypeError'') []))"

text \<open>The transaction: the hash once it is mined, or an exception.\<close>

definition withdraw_tx :: "chain_config \<Rightarrow> 'w wallet \<Rightarrow> int \<Rightarrow> json \<Rightarrow> 'w \<Rightarrow> jsstr result \<times> 'w" where
  "withdraw_tx C W streamId auth w =
     (case withdraw_args streamId auth of
        Inl e \<Rightarrow> (Inl e, w)
      | Inr args \<Rightarrow>
         (case write_wait W (cc_vault C) VAULT_ABI ''withdraw'' args w of
            (Inl e, w1) \<Rightarrow> (Inl e, w1)
          | (Inr (hash, rcpt), w1) \<Rightarrow>
              if rc_status rcpt \<noteq> js ''success'' then (Inl (Error (js ''withdraw reverted'')), w1)
              else (Inr hash, w1)))"

definition withdraw_page ::
    "chain_config \<Rightarrow> ('w \<Rightarrow> rpc) \<Rightarrow> 'w wallet option \<Rightarrow> int option \<Rightarrow> rpage \<times> 'w \<Rightarrow> rpage \<times> 'w" where
  "withdraw_page C R wl streamId pw =
     (case pw of (p, w) \<Rightarrow>
       (case (wl, p_auth p, streamId) of
          (Some W, Some auth, Some i) \<Rightarrow>
            (let p1 = p\<lparr>p_busy := True, p_failure := None\<rparr> in
             case withdraw_tx C W i auth w of
               (Inl e, w1) \<Rightarrow>
                 (p1\<lparr>p_failure := Some (js ''rejected'', first_line e), p_status := None, p_busy := False\<rparr>, w1)
             | (Inr hash, w1) \<Rightarrow>
                 ((loadChain C (R w1) (Some i)
                    (p1\<lparr>p_withdrawTx := Some hash, p_auth := None, p_status := None\<rparr>))\<lparr>p_busy := False\<rparr>, w1))
        | _ \<Rightarrow> (p, w)))"

section \<open>What is shown\<close>

definition page_accrued :: "rpage \<Rightarrow> int \<Rightarrow> int option" where
  "page_accrued p now = map_option (\<lambda>t. accruedAt t now) (p_terms p)"

definition available :: "rpage \<Rightarrow> int \<Rightarrow> int option" where
  "available p now =
     (case (page_accrued p now, p_stream p) of
        (Some accrued, Some s) \<Rightarrow>
          Some ((if accrued > oc_funded s then oc_funded s else accrued) - oc_withdrawn s)
      | _ \<Rightarrow> None)"

definition unlock_disabled :: "bool \<Rightarrow> jsstr option \<Rightarrow> rpage \<Rightarrow> bool" where
  "unlock_disabled isConnected address p \<longleftrightarrow>
     \<not> isConnected \<or> \<not> isParty address p \<or> p_busy p \<or> (case p_sealed p of Some (c # s) \<Rightarrow> False | _ \<Rightarrow> True)"

definition withdraw_disabled :: "rpage \<Rightarrow> int \<Rightarrow> bool" where
  "withdraw_disabled p now \<longleftrightarrow>
     p_auth p = None \<or> p_busy p \<or> (case available p now of None \<Rightarrow> 0 | Some a \<Rightarrow> a) \<le> 0"

definition failure_title :: "jsstr \<times> jsstr \<Rightarrow> jsstr" where
  "failure_title f =
     (if fst f = js ''unreachable'' then js ''The confidential compute extension is unreachable.''
      else js ''The enclave refused this request.'')"

end
