(* ===== verification/EmployerPage.thy ===== *)
theory EmployerPage
  imports Pages
begin

text \<open>
  \<^verbatim>\<open>frontend/app/app/page.tsx\<close>: the employer's form.  The state is what the page keeps in
  \<^verbatim>\<open>useState\<close>; \<open>submit\<close> is the callback, from the state when it is called to the state when it
  is done, with the chain's state threaded through the wallet's writes.  The elements are in
  \<open>EmployerView\<close>.
\<close>

section \<open>State\<close>

datatype phase = Idle | Sealing | Creating | Approving | Funding | Done | Failed

record epage =
  e_recipient :: jsstr
  e_token :: jsstr
  e_perDay :: jsstr
  e_totalCap :: jsstr
  e_fundAmount :: jsstr
  e_phase :: phase
  e_message :: "jsstr option"
  e_result :: "(jsstr \<times> jsstr) option"
  e_salt :: jsstr

definition TEE_ECIES_PUBKEY :: "(jsstr \<Rightarrow> jsstr option) \<Rightarrow> jsstr" where
  "TEE_ECIES_PUBKEY env = env_or env ''NEXT_PUBLIC_TEE_ECIES_PUBKEY''
     ''0307d72d503f4f09a323aeccd1740715537af9e471d9f4d172524d6f6cc431c2e1''"

definition TOKENS :: "(jsstr \<times> jsstr) list" where
  "TOKENS = [(js ''FXRP'', js ''0x0b6a3645c240605887a5532109323a3e12273dc7''),
     (js ''USDT0'', js ''0xc1a5b41512496b80903d1f32d6dea3a73212e71f'')]"

definition page_decimals :: nat where
  "page_decimals = 6"

text \<open>\<open>rnd\<close> is the text of \<^verbatim>\<open>Math.random()\<close>.\<close>

definition init_epage :: "viem \<Rightarrow> int \<Rightarrow> jsstr \<Rightarrow> epage" where
  "init_epage V now_ms rnd =
     \<lparr>e_recipient = [], e_token = snd (TOKENS ! 1), e_perDay = js ''0.25'', e_totalCap = js ''100'',
      e_fundAmount = js ''8'', e_phase = Idle, e_message = None, e_result = None,
      e_salt = v_keccak_bytes V (v_toBytes V (js ''sw-'' @ js_of_int now_ms @ js ''-'' @ rnd))\<rparr>"

section \<open>The draft\<close>

definition or_zero :: "jsstr \<Rightarrow> jsstr" where
  "or_zero s = (if s = [] then js ''0'' else s)"

definition recipientValid :: "epage \<Rightarrow> bool" where
  "recipientValid p =
     (let s = trim (e_recipient p) in length s = 42 \<and> starts_with s (js ''0x'') \<and> is_hex (drop 2 s))"

definition draft_of :: "tools \<Rightarrow> jsstr option \<Rightarrow> int \<Rightarrow> epage \<Rightarrow> stream_terms option" where
  "draft_of X address now_ms p =
     (case address of
        Some (c # a) \<Rightarrow>
          if \<not> recipientValid p then None
          else (case tl_parseUnits X (or_zero (e_perDay p)) page_decimals of
             Inl _ \<Rightarrow> None
           | Inr perDay \<Rightarrow>
              (case tl_parseUnits X (or_zero (e_totalCap p)) page_decimals of
                 Inl _ \<Rightarrow> None
               | Inr cap \<Rightarrow> Some
                  \<lparr>t_employer = c # a, t_recipient = trim (e_recipient p), t_token = e_token p,
                   t_ratePerSecond = ratePerDayToScaled perDay, t_total = cap,
                   t_startTime = now_bigint now_ms, t_salt = e_salt p\<rparr>))
      | _ \<Rightarrow> None)"

text \<open>Computed while rendering, outside any \<^verbatim>\<open>try\<close>: an exception here is one of the page.\<close>

definition commitment_of :: "viem \<Rightarrow> stream_terms option \<Rightarrow> jsstr option result" where
  "commitment_of V draft =
     (case draft of
        None \<Rightarrow> Inr None
      | Some t \<Rightarrow> (case commitTo V t of Inl e \<Rightarrow> Inl e | Inr h \<Rightarrow> Inr (Some h)))"

section \<open>submit\<close>

definition seal_terms :: "viem \<Rightarrow> engine \<Rightarrow> tools \<Rightarrow> jsstr \<Rightarrow> stream_terms \<Rightarrow> jsstr result" where
  "seal_terms V G X pubkey t =
     (case encodeTerms V t of
        Inl e \<Rightarrow> Inl e
      | Inr termsHex \<Rightarrow>
         (case hex_slice_bytes G termsHex of
            Inl e \<Rightarrow> Inl e
          | Inr bs \<Rightarrow>
             (case tl_encrypt X pubkey bs of Inl e \<Rightarrow> Inl e | Inr c \<Rightarrow> Inr (bytesToHex c))))"

text \<open>The first log of the vault whose second topic is a number; \<^verbatim>\<open>""\<close> if there is none.\<close>

fun find_stream_id :: "jsstr \<Rightarrow> tx_log list \<Rightarrow> jsstr" where
  "find_stream_id vault [] = []"
| "find_stream_id vault ((addr, topics, _) # logs) =
     (case topics of
        (c # t0) # t1 # _ \<Rightarrow>
          if to_lower addr = to_lower vault then
            (case to_bigint t1 of Inl _ \<Rightarrow> find_stream_id vault logs | Inr i \<Rightarrow> js_of_int i)
          else find_stream_id vault logs
      | _ \<Rightarrow> find_stream_id vault logs)"

text \<open>The two transactions of the funding; the receipts' statuses are not looked at.\<close>

definition approve_and_fund ::
    "chain_config \<Rightarrow> 'w wallet \<Rightarrow> jsstr \<Rightarrow> jsstr \<Rightarrow> int \<Rightarrow> 'w \<Rightarrow> unit result \<times> 'w" where
  "approve_and_fund C W token streamId amount w =
     (case write_wait W token ERC20_ABI ''approve'' [AHex (cc_vault C), ABig amount] w of
        (Inl e, w1) \<Rightarrow> (Inl e, w1)
      | (Inr _, w1) \<Rightarrow>
         (case to_bigint streamId of
            Inl e \<Rightarrow> (Inl e, w1)
          | Inr i \<Rightarrow>
             (case write_wait W (cc_vault C) VAULT_ABI ''fund'' [ABig i, ABig amount] w1 of
                (Inl e, w2) \<Rightarrow> (Inl e, w2)
              | (Inr _, w2) \<Rightarrow> (Inr (), w2))))"

text \<open>The \<^verbatim>\<open>try\<close> block: the id and the transaction of the new stream, or the exception.\<close>

definition submit_tx ::
    "viem \<Rightarrow> engine \<Rightarrow> tools \<Rightarrow> chain_config \<Rightarrow> jsstr \<Rightarrow> 'w wallet \<Rightarrow> stream_terms \<Rightarrow> jsstr \<Rightarrow> jsstr \<Rightarrow> 'w
       \<Rightarrow> (jsstr \<times> jsstr) result \<times> 'w" where
  "submit_tx V G X C pubkey W t commitment fundAmount w =
     (case seal_terms V G X pubkey t of
        Inl e \<Rightarrow> (Inl e, w)
      | Inr encryptedTerms \<Rightarrow>
         (case write_wait W (cc_vault C) VAULT_ABI ''createStream''
                 [AHex (t_recipient t), AHex (t_token t), AHex commitment, ABig (t_startTime t),
                  AHex encryptedTerms] w of
            (Inl e, w1) \<Rightarrow> (Inl e, w1)
          | (Inr (createHash, rcpt), w1) \<Rightarrow>
              if rc_status rcpt \<noteq> js ''success'' then (Inl (Error (js ''createStream reverted'')), w1)
              else
               (let streamId = find_stream_id (cc_vault C) (rc_logs rcpt) in
                case tl_parseUnits X (or_zero fundAmount) page_decimals of
                  Inl e \<Rightarrow> (Inl e, w1)
                | Inr amount \<Rightarrow>
                    if amount > 0 \<and> streamId \<noteq> [] then
                      (case approve_and_fund C W (t_token t) streamId amount w1 of
                         (Inl e, w2) \<Rightarrow> (Inl e, w2)
                       | (Inr _, w2) \<Rightarrow> (Inr (streamId, createHash), w2))
                    else (Inr (streamId, createHash), w1))))"

definition submit ::
    "viem \<Rightarrow> engine \<Rightarrow> tools \<Rightarrow> chain_config \<Rightarrow> jsstr \<Rightarrow> 'w wallet option \<Rightarrow> stream_terms option \<Rightarrow>
     jsstr option \<Rightarrow> epage \<times> 'w \<Rightarrow> epage \<times> 'w" where
  "submit V G X C pubkey wl draft commitment pw =
     (case pw of (p, w) \<Rightarrow>
       (case (wl, draft, commitment) of
          (Some W, Some t, Some (c # h)) \<Rightarrow>
            (case submit_tx V G X C pubkey W t (c # h) (e_fundAmount p) w of
               (Inl e, w1) \<Rightarrow> (p\<lparr>e_result := None, e_phase := Failed, e_message := Some (first_line e)\<rparr>, w1)
             | (Inr r, w1) \<Rightarrow> (p\<lparr>e_result := Some r, e_phase := Done, e_message := None\<rparr>, w1))
        | _ \<Rightarrow> (p, w)))"

section \<open>The button\<close>

definition employer_busy :: "epage \<Rightarrow> bool" where
  "employer_busy p \<longleftrightarrow> e_phase p \<in> {Sealing, Creating, Approving, Funding}"

definition wrongChain :: "bool \<Rightarrow> int option \<Rightarrow> int \<Rightarrow> bool" where
  "wrongChain isConnected chainId expected \<longleftrightarrow> isConnected \<and> chainId \<noteq> Some expected"

definition submit_disabled :: "bool \<Rightarrow> int option \<Rightarrow> int \<Rightarrow> stream_terms option \<Rightarrow> epage \<Rightarrow> bool" where
  "submit_disabled isConnected chainId expected draft p \<longleftrightarrow>
     \<not> isConnected \<or> draft = None \<or> employer_busy p \<or> wrongChain isConnected chainId expected"

section \<open>Exceptions while rendering\<close>

text \<open>The form accepts amounts and recipients that the encoding refuses: then the page throws while it
  is rendered.\<close>

lemma commitment_throws:
  assumes "viem_abi V E" "\<not> v_isAddress V (t_recipient t) \<or> t_ratePerSecond t < 0 \<or> t_total t < 0"
  shows "\<exists>e. commitment_of V (Some t) = Inl e"
proof (cases "encodeTerms V t")
  case (Inr h)
  then have "list_all2 (encodable (v_isAddress V)) TERMS_ABI (terms_values t)"
    unfolding encodeTerms_def by (rule viem_abi.encode_checks [OF assms(1)])
  with assms(2) show ?thesis by (auto simp: TERMS_ABI_def terms_values_def)
qed (simp add: commitment_of_def commitTo_def)

lemma negative_rate: "d < 0 \<Longrightarrow> ratePerDayToScaled d < 0"
  by (simp add: ratePerDayToScaled_def RATE_SCALE_def signed_divide_int_def pos_imp_zdiv_pos_iff)

end
