(* ===== verification/VerifyPage.thy ===== *)
theory VerifyPage
  imports Pages
begin

text \<open>
  \<^verbatim>\<open>frontend/app/verify/[id]/page.tsx\<close>: the public audit record.  The state is what the page keeps
  in \<^verbatim>\<open>useState\<close>; the two effects are functions on it, and what the page derives at each rendering
  are functions of it; the elements are in \<open>VerifyView\<close>.

  The page compares a hash with the chain; \<open>verdict_is_reveal\<close> relates its verdict to what the
  contract would do with the same bytes.
\<close>

section \<open>State\<close>

datatype verdict = Match | Mismatch | Absent

record vpage =
  vp_stream :: "onchain_stream option"
  vp_meta :: "(nat \<times> jsstr) option"
  vp_termsHex :: jsstr
  vp_error :: "jsstr option"
  vp_loading :: bool

definition init_vpage :: vpage where
  "init_vpage = \<lparr>vp_stream = None, vp_meta = None, vp_termsHex = [], vp_error = None, vp_loading = True\<rparr>"

section \<open>Effects\<close>

text \<open>The on-chain record.\<close>

definition load_verify :: "rpc \<Rightarrow> int option \<Rightarrow> vpage \<Rightarrow> vpage" where
  "load_verify R streamId p =
     (case streamId of
        None \<Rightarrow> p\<lparr>vp_error := Some (js ''Not a valid stream id.''), vp_loading := False\<rparr>
      | Some i \<Rightarrow>
         (let p1 =
            (case readStream R i of
               Inl e \<Rightarrow> p\<lparr>vp_error := Some (exn_message e)\<rparr>
             | Inr s \<Rightarrow>
                if oc_employer s = ZERO_ADDRESS then
                  p\<lparr>vp_error := Some (js ''Stream #'' @ js_of_int i @ js '' does not exist in this vault.''),
                    vp_stream := None\<rparr>
                else
                  (case readTokenMeta R (oc_token s) of
                     Inl e \<Rightarrow> p\<lparr>vp_stream := Some s, vp_error := Some (exn_message e)\<rparr>
                   | Inr m \<Rightarrow> p\<lparr>vp_stream := Some s, vp_meta := Some m\<rparr>))
          in p1\<lparr>vp_loading := False\<rparr>))"

text \<open>The terms box: the URL's parameter first, then the pinned reveal of the demo stream.\<close>

definition seed_terms :: "chain_config \<Rightarrow> rpc \<Rightarrow> jsstr option \<Rightarrow> int option \<Rightarrow> vpage \<Rightarrow> vpage" where
  "seed_terms C R fromUrl streamId p =
     (case fromUrl of
        Some (c # t) \<Rightarrow> p\<lparr>vp_termsHex := c # t\<rparr>
      | _ \<Rightarrow>
          if streamId = Some (cc_demo_stream C) then
            (case readRevealedTerms C R (cc_demo_stream C) of
               Inr (Some (c # t)) \<Rightarrow> p\<lparr>vp_termsHex := c # t\<rparr>
             | _ \<Rightarrow> p)
          else p)"

section \<open>The verdict\<close>

definition termsValid :: "tools \<Rightarrow> vpage \<Rightarrow> bool" where
  "termsValid X p \<longleftrightarrow> length (trim (vp_termsHex p)) > 2 \<and> tl_isHex X (trim (vp_termsHex p))"

definition computed :: "viem \<Rightarrow> tools \<Rightarrow> vpage \<Rightarrow> jsstr option" where
  "computed V X p = (if termsValid X p then Some (v_keccak_hex V (trim (vp_termsHex p))) else None)"

definition verdict_of :: "viem \<Rightarrow> tools \<Rightarrow> vpage \<Rightarrow> verdict" where
  "verdict_of V X p =
     (case computed V X p of
        Some (c # h) \<Rightarrow>
          (case vp_stream p of
             Some s \<Rightarrow> if to_lower (c # h) = to_lower (oc_commitment s) then Match else Mismatch
           | None \<Rightarrow> Mismatch)
      | _ \<Rightarrow> Absent)"

definition decoded_of :: "viem \<Rightarrow> tools \<Rightarrow> vpage \<Rightarrow> stream_terms option" where
  "decoded_of V X p =
     (if verdict_of V X p \<noteq> Match then None
      else case decodeTerms V (trim (vp_termsHex p)) of Inl _ \<Rightarrow> None | Inr t \<Rightarrow> Some t)"

definition shareUrl :: "tools \<Rightarrow> jsstr option \<Rightarrow> vpage \<Rightarrow> jsstr" where
  "shareUrl X href p =
     (case href of
        None \<Rightarrow> []
      | Some u \<Rightarrow> if termsValid X p then tl_set_param X u (js ''terms'') (trim (vp_termsHex p)) else [])"

section \<open>The verdict is the contract's\<close>

lemma verdict_supplied:
  assumes "viem_abi V E" "tl_isHex X (bytesToHex bs)" "bs \<noteq> []" "trim (vp_termsHex p) = bytesToHex bs"
  shows "verdict_of V X p = (case vp_stream p of
      Some s \<Rightarrow> if hex32 (keccak E bs) = to_lower (oc_commitment s) then Match else Mismatch
    | None \<Rightarrow> Mismatch)"
proof -
  have k: "v_keccak_hex V (bytesToHex bs) = hex32 (keccak E bs)" by (rule viem_abi.keccak_hex [OF assms(1)])
  obtain c h where h: "hex32 (keccak E bs) = c # h"
    by (cases "hex32 (keccak E bs)") (simp_all add: hex32_def bytesToHex_def)
  have low: "to_lower (c # h) = c # h" using to_lower_hex32 [of "keccak E bs"] by (simp add: h)
  have "length (bytesToHex bs) > 2" using assms(3) by simp
  with assms(2,4) have "computed V X p = Some (c # h)" by (simp add: computed_def termsValid_def k h)
  then show ?thesis by (simp add: verdict_of_def h low split: option.splits)
qed

lemma load_verify_vault:
  assumes "reads_vault R v"
  shows "case vp_stream (load_verify R (Some (uint i)) init_vpage) of
      None \<Rightarrow> s_employer (v_streams v i) = 0
    | Some s \<Rightarrow> s_employer (v_streams v i) \<noteq> 0 \<and> oc_commitment s = hex32 (s_commitment (v_streams v i))"
proof -
  obtain s where "readStream R (uint i) = Inr s" "oc_employer s = ZERO_ADDRESS \<longleftrightarrow> s_employer (v_streams v i) = 0"
    "oc_commitment s = hex32 (s_commitment (v_streams v i))"
    using assms by (rule readStream_vault)
  then show ?thesis by (simp add: load_verify_def init_vpage_def Let_def split: sum.splits)
qed

text \<open>C22: the page's verdict is the contract's.  When the RPC serves the vault's storage, the verdict on
  any non-empty bytes, pasted with spaces around or taken from a link, is \<open>match\<close> exactly if
  \<^verbatim>\<open>revealTerms\<close> with those bytes would succeed in the same state, and \<open>mismatch\<close> exactly if it
  would revert; for a stream that does not exist no record is shown.\<close>

theorem verdict_is_reveal:
  assumes "viem_abi V E" "reads_vault R v"
    and "bs \<noteq> []" "trim txt = bytesToHex bs" "tl_isHex X (bytesToHex bs)"
  shows "verdict_of V X (load_verify R (Some (uint i)) init_vpage\<lparr>vp_termsHex := txt\<rparr>) =
      (case revealTerms E i bs v of Inl _ \<Rightarrow> Mismatch | Inr _ \<Rightarrow> Match) \<and>
    (vp_stream (load_verify R (Some (uint i)) init_vpage) = None \<longleftrightarrow>
      revealTerms E i bs v = Inl (Revert ''no stream''))"
proof -
  let ?p = "load_verify R (Some (uint i)) init_vpage"
  have v: "verdict_of V X (?p\<lparr>vp_termsHex := txt\<rparr>) = (case vp_stream ?p of
      Some s \<Rightarrow> if hex32 (keccak E bs) = to_lower (oc_commitment s) then Match else Mismatch
    | None \<Rightarrow> Mismatch)"
    using verdict_supplied [OF assms(1,5,3), of "?p\<lparr>vp_termsHex := txt\<rparr>"] assms(4) by simp
  show ?thesis
  proof (cases "vp_stream ?p")
    case None
    with load_verify_vault [OF assms(2), of i] show ?thesis unfolding v by (simp add: revealTerms_def)
  next
    case (Some s)
    with load_verify_vault [OF assms(2), of i]
    have "s_employer (v_streams v i) \<noteq> 0" "oc_commitment s = hex32 (s_commitment (v_streams v i))" by auto
    with Some show ?thesis unfolding v by (simp add: revealTerms_def)
  qed
qed

definition demo_tools :: tools where
  "demo_tools = \<lparr>tl_isHex = (\<lambda>s. starts_with s (js ''0x'') \<and> is_hex (drop 2 s)),
     tl_parseUnits = (\<lambda>_ _. Inr 0), tl_encrypt = (\<lambda>_ bs. Inr bs), tl_set_param = (\<lambda>u _ _. u)\<rparr>"

lemma isHex_demo: "tl_isHex demo_tools (bytesToHex bs)"
  by (simp add: demo_tools_def starts_with_bytesToHex) (simp add: bytesToHex_def)

text \<open>A bare byte is no record of the demo stream.\<close>

theorem verdict_is_reveal_witness:
  "verdict_of demo_viem demo_tools
     (load_verify (vault_rpc demo_vault) (Some (uint (1 :: uint256))) init_vpage\<lparr>vp_termsHex := bytesToHex [1]\<rparr>)
   = Mismatch"
proof -
  have "revealTerms demo_evm 1 [1] demo_vault = Inl (Revert ''terms do not match commitment'')"
    by (simp add: revealTerms_def demo_defs)
  with verdict_is_reveal [OF demo.viem_abi_axioms reads_vault_rpc, of "[1]" "bytesToHex [1]" demo_tools demo_vault 1]
  show ?thesis by (simp add: isHex_demo trim_no_space [OF hex_no_space])
qed

end
