(* ===== verification/LandingPage.thy ===== *)
theory LandingPage
  imports Pages
begin

text \<open>
  \<^verbatim>\<open>frontend/app/page.tsx\<close>: the landing page's live panel.  \<open>load\<close> is what runs at the start and
  every 15 seconds; of the rendering, what is accrued and the line that states the proof; the elements are
  in \<open>LandingView\<close>.
\<close>

record loaded =
  ld_stream :: onchain_stream
  ld_terms :: "stream_terms option"
  ld_commitmentVerified :: bool
  ld_decimals :: nat
  ld_symbol :: jsstr

record lpage =
  l_data :: "loaded option"
  l_error :: "jsstr option"

definition init_lpage :: lpage where
  "init_lpage = \<lparr>l_data = None, l_error = None\<rparr>"

text \<open>The revealed terms, checked: whether they are the committed ones, and if so their fields.\<close>

definition checked_terms :: "viem \<Rightarrow> jsstr \<Rightarrow> jsstr option \<Rightarrow> (bool \<times> stream_terms option) result" where
  "checked_terms V commitment termsHex =
     (case termsHex of
        Some (c # h) \<Rightarrow>
          if to_lower (v_keccak_hex V (c # h)) = to_lower commitment then
            (case decodeTerms V (c # h) of Inl e \<Rightarrow> Inl e | Inr t \<Rightarrow> Inr (True, Some t))
          else Inr (False, None)
      | _ \<Rightarrow> Inr (False, None))"

text \<open>When both reads of \<^verbatim>\<open>Promise.all\<close> fail, the rejection is that of the first.\<close>

definition load_data :: "viem \<Rightarrow> chain_config \<Rightarrow> rpc \<Rightarrow> loaded result" where
  "load_data V C R =
     (case readStream R (cc_demo_stream C) of
        Inl e \<Rightarrow> Inl e
      | Inr s \<Rightarrow>
         (case readTokenMeta R (oc_token s) of
            Inl e \<Rightarrow> Inl e
          | Inr (decimals, symbol) \<Rightarrow>
             (case readRevealedTerms C R (cc_demo_stream C) of
                Inl e \<Rightarrow> Inl e
              | Inr termsHex \<Rightarrow>
                 (case checked_terms V (oc_commitment s) termsHex of
                    Inl e \<Rightarrow> Inl e
                  | Inr (verified, terms) \<Rightarrow> Inr
                     \<lparr>ld_stream = s, ld_terms = terms, ld_commitmentVerified = verified,
                      ld_decimals = decimals, ld_symbol = symbol\<rparr>))))"

definition load :: "viem \<Rightarrow> chain_config \<Rightarrow> rpc \<Rightarrow> lpage \<Rightarrow> lpage" where
  "load V C R p =
     (case load_data V C R of
        Inl e \<Rightarrow> p\<lparr>l_error := Some (exn_message e)\<rparr>
      | Inr d \<Rightarrow> p\<lparr>l_data := Some d, l_error := None\<rparr>)"

definition landing_accrued :: "lpage \<Rightarrow> int \<Rightarrow> int option" where
  "landing_accrued p now =
     (case l_data p of
        None \<Rightarrow> None
      | Some d \<Rightarrow> map_option (\<lambda>t. accruedAt t now) (ld_terms d))"

definition landing_proof :: "lpage \<Rightarrow> jsstr" where
  "landing_proof p =
     (case l_data p of
        None \<Rightarrow> [0x2026]
      | Some d \<Rightarrow>
          if ld_commitmentVerified d then js ''keccak256(terms) == commitment '' @ [0x2713]
          else js ''terms not revealed'')"

section \<open>The right column\<close>

text \<open>The panel never shows terms that the stream's commitment does not bind: whatever the RPC returned
  as the revealed bytes.\<close>

lemma checked_terms_bound:
  assumes "checked_terms V commitment h = Inr (verified, terms)"
  shows "(verified \<longleftrightarrow> terms \<noteq> None) \<and>
    (\<forall>t. terms = Some t \<longrightarrow> (\<exists>x. h = Some x \<and> to_lower (v_keccak_hex V x) = to_lower commitment \<and> decodeTerms V x = Inr t))"
  using assms by (auto simp: checked_terms_def split: option.splits list.splits if_splits sum.splits)

lemma load_shows_bound:
  assumes "load_data V C R = Inr d" "ld_terms d = Some t"
  shows "ld_commitmentVerified d \<and>
    (\<exists>x. to_lower (v_keccak_hex V x) = to_lower (oc_commitment (ld_stream d)) \<and> decodeTerms V x = Inr t)"
proof -
  obtain h where "checked_terms V (oc_commitment (ld_stream d)) h = Inr (ld_commitmentVerified d, Some t)"
    using assms by (auto simp: load_data_def split: sum.splits)
  note b = checked_terms_bound [OF this]
  from conjunct1 [OF b] have "ld_commitmentVerified d" by simp
  moreover obtain x where "to_lower (v_keccak_hex V x) = to_lower (oc_commitment (ld_stream d))"
      "decodeTerms V x = Inr t"
    using mp [OF spec [OF conjunct2 [OF b], of t] refl] by (elim exE conjE)
  ultimately show ?thesis by (intro conjI exI [of _ x])
qed

end
