(* ===== verification/PageTheorems.thy ===== *)
theory PageTheorems
  imports RecipientPage EmployerPage VerifyPage LandingPage
begin

text \<open>
  What the pages achieve together with the rest of the system: what they announce against the
  contract, the whole way of an unlock through the enclave, and the writes that never leave the
  browser.
\<close>

section \<open>What is available\<close>

lemma available_min:
  assumes "reads_vault R v" "readStream R (uint i) = Inr s" "p_stream p = Some s" "p_terms p = Some t"
    and "0 \<le> accruedAt t now" "accruedAt t now < 2 ^ 256"
  shows "available p now = Some (int (min (unat (word_of_int (accruedAt t now) :: uint256))
      (unat (s_funded (v_streams v i)))) - int (unat (s_withdrawn (v_streams v i))))"
proof -
  obtain s' where "readStream R (uint i) = Inr s'" "oc_funded s' = uint (s_funded (v_streams v i))"
    "oc_withdrawn s' = uint (s_withdrawn (v_streams v i))"
    using assms(1) by (rule readStream_vault)
  then have s: "oc_funded s = int (unat (s_funded (v_streams v i)))"
    "oc_withdrawn s = int (unat (s_withdrawn (v_streams v i)))"
    using assms(2) by simp_all
  have a: "accruedAt t now = int (unat (word_of_int (accruedAt t now) :: uint256))"
    using unat_word_of_int(2) [OF assms(5,6)] by simp
  have m: "(if x > f then f else x) - w = int (min n k) - w" if "x = int n" "f = int k" for x f w n k
    using that by (simp add: min_def)
  have "available p now = Some ((if accruedAt t now > oc_funded s then oc_funded s else accruedAt t now) - oc_withdrawn s)"
    using assms(3,4) by (simp add: available_def page_accrued_def)
  also have "\<dots> = Some (int (min (unat (word_of_int (accruedAt t now) :: uint256))
      (unat (s_funded (v_streams v i)))) - oc_withdrawn s)"
    by (simp only: m [OF a s(1)])
  finally show ?thesis by (simp only: s(2))
qed

text \<open>The page promises what the contract pays.  When the page's stream is the vault's current state
  and its terms were decoded, the amount it shows as available at a time is exactly the amount, positive,
  that the vault transfers to the recipient in a withdrawal authorized for the accrual of that time; so
  when the page shows nothing available, every such withdrawal reverts.\<close>

theorem available_is_payout:
  assumes "viem_abi V E" "decodeTerms V h = Inr t" "reads_vault R v" "readStream R (uint i) = Inr s"
    and "p_stream p = Some s" "p_terms p = Some t"
    and "withdraw E T x i (word_of_int (accruedAt t now)) d sig (v, w) = Inr (v', w')"
  shows "\<exists>payout cs. 0 < payout \<and> available p now = Some (uint payout) \<and>
    t_transfer T (s_token (v_streams v i)) (tx_this x) (s_recipient (v_streams v i)) payout w
      = TokReturn True w' cs"
proof -
  note av = available_min [OF assms(3-6) viem_abi.accrued_in_range [OF assms(1,2)]]
  obtain payout cs where p:
    "unat (s_withdrawn (v_streams v i)) < min (unat (word_of_int (accruedAt t now) :: uint256)) (unat (s_funded (v_streams v i)))"
    "unat payout = min (unat (word_of_int (accruedAt t now) :: uint256)) (unat (s_funded (v_streams v i)))
       - unat (s_withdrawn (v_streams v i))"
    "t_transfer T (s_token (v_streams v i)) (tx_this x) (s_recipient (v_streams v i)) payout w = TokReturn True w' cs"
    using withdraw_Inr [OF assms(7)] by metis
  have "int (unat payout) = int (min (unat (word_of_int (accruedAt t now) :: uint256)) (unat (s_funded (v_streams v i))))
      - int (unat (s_withdrawn (v_streams v i)))"
    using p(1,2) by (simp only: of_nat_diff less_imp_le)
  moreover have "0 < unat payout" using p(1,2) by linarith
  ultimately show ?thesis
    using av p(3) by (intro exI [of _ payout] exI [of _ cs]) (simp add: word_less_nat_alt)
qed

theorem available_is_payout_witness:
  "\<exists>s. readStream (vault_rpc demo_vault) (uint (1 :: uint256)) = Inr s \<and>
     (\<exists>n. 0 < n \<and> available (init_rpage\<lparr>p_stream := Some s, p_terms := Some demo_stream_terms\<rparr>) 1400 = Some (uint (n :: uint256)))"
proof -
  obtain s where s: "readStream (vault_rpc demo_vault) (uint (1 :: uint256)) = Inr s"
    using reads_vault_rpc by (rule readStream_vault)
  obtain v' w' where "withdraw demo_evm mock_tokens (demo_tx 2 50) 1 400 60 demo_sig (demo_vault, rich_world) = Inr (v', w')"
    using demo_withdraw by blast
  moreover have "accruedAt demo_stream_terms 1400 = 400"
    by (simp add: accruedAt_def demo_stream_terms_def RATE_SCALE_def sdiv_nonneg Let_def)
  ultimately have "withdraw demo_evm mock_tokens (demo_tx 2 50) 1 (word_of_int (accruedAt demo_stream_terms 1400)) 60
      demo_sig (demo_vault, rich_world) = Inr (v', w')"
    by simp
  from available_is_payout [OF demo.viem_abi_axioms demo_decode reads_vault_rpc s _ _ this,
      of "init_rpage\<lparr>p_stream := Some s, p_terms := Some demo_stream_terms\<rparr>"] s
  show ?thesis by auto
qed

section \<open>Unlocking\<close>

text \<open>The wallet's signature on a 32-byte digest recovers to its account.\<close>

definition signs_as :: "viem \<Rightarrow> 'w wallet \<Rightarrow> jsstr \<Rightarrow> bool" where
  "signs_as V W account \<longleftrightarrow>
     (\<forall>d. \<exists>sig. wl_sign W (hex32 d) = Inr sig \<and> v_recover V (hex32 d) sig = Inr account \<and> units_ok sig)"

text \<open>A challenge in range gets signed, and whatever request carries it comes from that account.\<close>

lemma challenge_signed:
  assumes "viem_abi V E" "hex_word 32 tag = Some tw" "v_isAddress V vault" "0 \<le> chainId" "chainId < 2 ^ 256"
    and "0 \<le> issuedAt" "issuedAt < 2 ^ 256" "signs_as V W caller"
  obtains ch sg where
    "buildCallerChallenge V \<lparr>c_chainId = chainId, c_vault = vault, c_streamId = uint (i :: uint256),
       c_commitment = hex32 c, c_purpose = tag, c_issuedAt = issuedAt\<rparr> = Inr ch"
    "wl_sign W ch = Inr sg" "units_ok sg"
    "\<And>req. r_chainId req = js_of_int chainId \<Longrightarrow> r_streamId req = js_of_int (uint i) \<Longrightarrow> r_vault req = vault \<Longrightarrow>
       r_commitment req = hex32 c \<Longrightarrow> r_callerSignature req = sg \<Longrightarrow> recover_caller V req tag issuedAt = Inr caller"
proof -
  obtain this' where this': "hex_address vault = Some this'"
    using viem_abi.isAddress_address [OF assms(1,3)] by blast
  define P where "P = \<lparr>c_chainId = chainId, c_vault = vault, c_streamId = uint i,
             c_commitment = hex32 c, c_purpose = tag, c_issuedAt = issuedAt\<rparr>"
  have b: "uint i < 2 ^ 256" using unsigned_less [of i] by simp
  obtain ch d where ch: "buildCallerChallenge V P = Inr ch" "ch = hex32 d"
    using viem_abi.challenge_agrees [OF assms(1), of P tw this' c] assms this' b by (simp add: P_def)
  obtain sg where sg: "wl_sign W ch = Inr sg" "v_recover V ch sg = Inr caller" "units_ok sg"
    using assms(8) unfolding signs_as_def ch(2) by metis
  with ch show thesis
    by (intro that [of ch sg]) (simp_all add: recover_caller_def to_bigint_def P_def)
qed

lemma request_accepted:
  assumes "viem_abi V E" "v_isAddress V (cc_vault C)" "units_ok (cc_vault C)" "0 \<le> chainId" "chainId < 2 ^ 256"
    and "0 \<le> issuedAt" "issuedAt < 2 ^ 256" "signs_as V W caller" "commitment = hex32 c" "units_ok enc"
  obtains req where
    "unlock_request V C chainId (wl_sign W) issuedAt (uint (i :: uint256)) commitment enc = Inr req"
    "request_ok req" "r_issuedAt req = js_of_int issuedAt" "r_commitment req = commitment"
    "r_encryptedTerms req = enc" "recover_caller V req (withdraw_tag V) issuedAt = Inr caller"
proof -
  have "hex_word 32 (withdraw_tag V) = Some (WITHDRAW_TAG E)" by (simp add: viem_abi.tag_words [OF assms(1)])
  then obtain ch sg where ch: "buildCallerChallenge V \<lparr>c_chainId = chainId, c_vault = cc_vault C,
      c_streamId = uint i, c_commitment = hex32 c, c_purpose = withdraw_tag V, c_issuedAt = issuedAt\<rparr> = Inr ch"
    "wl_sign W ch = Inr sg" "units_ok sg"
    and rec: "\<And>req. r_chainId req = js_of_int chainId \<Longrightarrow> r_streamId req = js_of_int (uint i) \<Longrightarrow>
       r_vault req = cc_vault C \<Longrightarrow> r_commitment req = hex32 c \<Longrightarrow> r_callerSignature req = sg \<Longrightarrow>
       recover_caller V req (withdraw_tag V) issuedAt = Inr caller"
    using challenge_signed [OF assms(1) _ assms(2,4-8)] by metis
  let ?req = "\<lparr>r_streamId = js_of_int (uint i), r_vault = cc_vault C, r_chainId = js_of_int chainId,
     r_commitment = commitment, r_encryptedTerms = enc, r_issuedAt = js_of_int issuedAt, r_callerSignature = sg\<rparr>"
  have "unlock_request V C chainId (wl_sign W) issuedAt (uint i) commitment enc = Inr ?req"
    using ch assms(9) by (simp add: unlock_request_def)
  moreover have "request_ok ?req"
    using assms(3,9,10) ch(3) by (simp add: request_ok_def ascii_units_ok ascii_js_of_int hex32_def ascii_bytesToHex)
  ultimately show thesis using rec [of ?req] assms(9) by (intro that [of ?req]) simp_all
qed

lemma check_terms_ok:
  assumes "viem_abi V E" "decodeTerms V (bytesToHex plain) = Inr t" "commitment = hex32 (keccak E plain)"
  shows "check_terms V G commitment (auth_response req a d sig (bytesToHex plain))
    = Inr (t, auth_response req a d sig (bytesToHex plain))"
  using assms viem_abi.keccak_hex [OF assms(1), of plain]
  by (simp add: check_terms_def auth_response_def str_prop_def get_prop_def)


definition demo_wallet :: "nat wallet" where
  "demo_wallet = \<lparr>wl_sign = (\<lambda>_. Inr (js ''0x'')),
     wl_write = (\<lambda>_ abi fn _ n. if fn \<in> set abi then (Inr (js ''0xaa''), n + 1) else (Inl (Error (js ''AbiFunctionNotFoundError'')), n)),
     wl_receipt = (\<lambda>_ _. Inr \<lparr>rc_status = js ''success'', rc_logs = []\<rparr>)\<rparr>"

definition demo_onchain :: onchain_stream where
  "demo_onchain = \<lparr>oc_employer = demo_employer, oc_recipient = t_recipient demo_stream_terms,
     oc_token = t_token demo_stream_terms, oc_commitment = hex32 (keccak demo_evm demo_plain),
     oc_funded = 1000, oc_withdrawn = 0, oc_startTime = 1000, oc_cancelled = False\<rparr>"

definition demo_page :: rpage where
  "demo_page = init_rpage\<lparr>p_stream := Some demo_onchain, p_sealed := Some (bytesToHex demo_plain)\<rparr>"

lemma demo_tags: "withdraw_tag demo_viem \<noteq> settle_tag demo_viem"
  unfolding demo.tag_words by (simp add: WITHDRAW_TAG_def SETTLE_TAG_def demo_evm_def ascii_bytes_def)


section \<open>The writes\<close>

lemma abi_gaps:
  "''withdraw'' \<notin> set VAULT_ABI" "''createStream'' \<notin> set VAULT_ABI" "''fund'' \<notin> set VAULT_ABI"
  "''approve'' \<notin> set ERC20_ABI"
  by (simp_all add: VAULT_ABI_def ERC20_ABI_def)

lemma withdraw_tx_refused:
  assumes "checks_abi W"
  shows "\<exists>e. withdraw_tx C W i auth w = (Inl e, w)"
proof (cases "withdraw_args i auth")
  case (Inr args)
  obtain e where "write_wait W (cc_vault C) VAULT_ABI ''withdraw'' args w = (Inl e, w)"
    using write_wait_unknown [OF assms abi_gaps(1)] by blast
  with Inr show ?thesis by (simp add: withdraw_tx_def)
qed (simp add: withdraw_tx_def)

lemma submit_tx_refused:
  assumes "checks_abi W"
  shows "\<exists>e. submit_tx V G X C pubkey W t commitment amount w = (Inl e, w)"
proof (cases "seal_terms V G X pubkey t")
  case (Inr enc)
  obtain e where "write_wait W (cc_vault C) VAULT_ABI ''createStream''
      [AHex (t_recipient t), AHex (t_token t), AHex commitment, ABig (t_startTime t), AHex enc] w = (Inl e, w)"
    using write_wait_unknown [OF assms abi_gaps(2)] by blast
  with Inr show ?thesis by (simp add: submit_tx_def)
qed (simp add: submit_tx_def)

text \<open>C27: the pages' writes never leave the browser.  The ABI they pass to the wallet, that of the
  read-only module, names neither \<^verbatim>\<open>withdraw\<close> nor \<^verbatim>\<open>createStream\<close>, and a wallet client refuses a
  function that is not in its ABI.  So with any such wallet the withdraw button always ends in a failure,
  and opening a stream in the error phase: the chain is left as it was and no transaction is shown.\<close>

theorem page_writes_refused:
  assumes "checks_abi W"
  shows "(\<exists>d. withdraw_page C R (Some W) (Some i) (p\<lparr>p_auth := Some auth\<rparr>, w) =
       (p\<lparr>p_auth := Some auth, p_failure := Some (js ''rejected'', d), p_status := None, p_busy := False\<rparr>, w)) \<and>
    (\<exists>m. submit V G X C pubkey (Some W) (Some t) (Some (c # h)) (q, w) =
       (q\<lparr>e_result := None, e_phase := Failed, e_message := Some m\<rparr>, w))"
proof -
  obtain e where "withdraw_tx C W i auth w = (Inl e, w)" using withdraw_tx_refused [OF assms] by blast
  moreover obtain e' where "submit_tx V G X C pubkey W t (c # h) (e_fundAmount q) w = (Inl e', w)"
    using submit_tx_refused [OF assms] by blast
  ultimately show ?thesis
    by (intro conjI exI [of _ "first_line e"] exI [of _ "first_line e'"])
      (simp_all add: withdraw_page_def submit_def Let_def)
qed

lemma demo_wallet_checks: "checks_abi demo_wallet"
  by (simp add: checks_abi_def demo_wallet_def)

theorem page_writes_refused_witness:
  "\<exists>d. withdraw_page demo_config (\<lambda>_. demo_rpc) (Some demo_wallet) (Some 1) (demo_page\<lparr>p_auth := Some JNull\<rparr>, 0)
     = (demo_page\<lparr>p_auth := Some JNull, p_failure := Some (js ''rejected'', d), p_status := None, p_busy := False\<rparr>, 0)"
  by (rule conjunct1 [OF page_writes_refused [OF demo_wallet_checks]])

end
