(* ===== verification/Envelopes.thy ===== *)
theory Envelopes
  imports EnclaveClient
begin

text \<open>
  The two other builders of the POST body: \<^verbatim>\<open>buildActionBody\<close> of
  \<^verbatim>\<open>typescript/scripts/e2e-coston2.ts\<close>, which pads identifiers with the server's own
  \<^verbatim>\<open>stringToBytes32Hex\<close>, and \<^verbatim>\<open>actionBody\<close> of \<^verbatim>\<open>typescript/scripts/test-settle.ts\<close>, which
  cuts them at 32 bytes.  The comment of \<^verbatim>\<open>frontend/scripts/check-enclave-client.ts\<close> asks that
  the envelopes be byte-identical; \<open>envelopes_agree\<close> shows it.
\<close>

section \<open>The end-to-end script's builder\<close>

definition e2e_dataFixed :: "jsstr \<Rightarrow> jsstr \<Rightarrow> json \<Rightarrow> int \<Rightarrow> json result" where
  "e2e_dataFixed opType opCommand payload now_ms =
     (case stringToBytes32Hex opType of
        Inl e \<Rightarrow> Inl e
      | Inr t \<Rightarrow>
         (case stringToBytes32Hex opCommand of
            Inl e \<Rightarrow> Inl e
          | Inr c \<Rightarrow> Inr (JObj
             [(js ''instructionId'', JStr (js ''0x'' @ repeat_str 32 (js ''11''))),
              (js ''teeId'', JStr (js ''0x'' @ repeat_str 20 (js ''22''))),
              (js ''timestamp'', JNum (now_ms div 1000) 0),
              (js ''rewardEpochId'', JNum 0 0),
              (js ''opType'', JStr t),
              (js ''opCommand'', JStr c),
              (js ''cosigners'', JArr []),
              (js ''cosignersThreshold'', JNum 0 0),
              (js ''originalMessage'', JStr (bytesToHex (utf8_encode (json_stringify payload)))),
              (js ''additionalFixedMessage'', JStr (js ''0x''))])))"

definition node_envelope :: "json \<Rightarrow> jsstr" where
  "node_envelope dataFixed = json_stringify (JObj
     [(js ''data'', JObj
        [(js ''id'', JStr (js ''0x'' @ repeat_str 32 (js ''11''))),
         (js ''type'', JStr (js ''instruction'')),
         (js ''submissionTag'', JStr (js ''submit'')),
         (js ''message'', JStr (bytesToHex (utf8_encode (json_stringify dataFixed))))]),
      (js ''additionalVariableMessages'', JArr []),
      (js ''timestamps'', JArr []),
      (js ''additionalActionData'', JStr (js ''0x'')),
      (js ''signatures'', JArr [])])"

definition e2e_buildActionBody :: "jsstr \<Rightarrow> jsstr \<Rightarrow> json \<Rightarrow> int \<Rightarrow> jsstr result" where
  "e2e_buildActionBody opType opCommand payload now_ms =
     (case e2e_dataFixed opType opCommand payload now_ms of
        Inl e \<Rightarrow> Inl e | Inr df \<Rightarrow> Inr (node_envelope df))"

section \<open>The settlement script's builder\<close>

definition settle_bytes32 :: "jsstr \<Rightarrow> jsstr" where
  "settle_bytes32 s =
     (let b = take 32 (utf8_encode s) in bytesToHex (b @ replicate (32 - length b) 0))"

definition settle_actionBody :: "jsstr \<Rightarrow> json \<Rightarrow> int \<Rightarrow> jsstr" where
  "settle_actionBody opCommand payload now_ms = node_envelope (JObj
     [(js ''instructionId'', JStr (js ''0x'' @ repeat_str 32 (js ''11''))),
      (js ''teeId'', JStr (js ''0x'' @ repeat_str 20 (js ''22''))),
      (js ''timestamp'', JNum (now_ms div 1000) 0),
      (js ''rewardEpochId'', JNum 0 0),
      (js ''opType'', JStr (settle_bytes32 (js ''STREAM''))),
      (js ''opCommand'', JStr (settle_bytes32 opCommand)),
      (js ''cosigners'', JArr []),
      (js ''cosignersThreshold'', JNum 0 0),
      (js ''originalMessage'', JStr (bytesToHex (utf8_encode (json_stringify payload)))),
      (js ''additionalFixedMessage'', JStr (js ''0x''))])"

section \<open>They agree\<close>

lemma settle_bytes32_eq: "settle_bytes32 = toBytes32Hex"
  by (rule ext) (simp add: settle_bytes32_def toBytes32Hex_def toHex_eq Let_def)

lemma node_envelope_client: "node_envelope (data_fixed t c payload now) = buildActionBody t c payload now"
  by (simp add: node_envelope_def buildActionBody_def action_json_def action_data_def action_id_def toHex_eq
      del: json_stringify.simps)

lemma settle_actionBody_client: "settle_actionBody = buildActionBody (js ''STREAM'')"
  by (intro ext) (simp add: settle_actionBody_def settle_bytes32_eq data_fixed_def action_id_def toHex_eq
      flip: node_envelope_client del: json_stringify.simps)

lemma e2e_dataFixed_fits:
  assumes "length (utf8_encode t) \<le> 32" "length (utf8_encode c) \<le> 32"
  shows "e2e_dataFixed t c payload now = Inr (data_fixed t c payload now)"
proof -
  have "stringToBytes32Hex s = Inr (toBytes32Hex s)" if "length (utf8_encode s) \<le> 32" for s
    using that by (simp only: stringToBytes32Hex_ok toBytes32Hex_eq)
  then show ?thesis
    using assms by (simp add: e2e_dataFixed_def data_fixed_def action_id_def toHex_eq del: json_stringify.simps)
qed

text \<open>C35: the three builders of the request envelope agree byte for byte.  For identifiers of at most 32
  bytes, any payload and any time, the end-to-end script, with the server's own padding, builds the body
  the browser builds by hand, and so does the settlement script for its type; for a longer identifier
  the end-to-end script throws, where the browser cuts it.\<close>

theorem envelopes_agree:
  "(case e2e_buildActionBody opType opCommand payload now_ms of
      Inr body \<Rightarrow> body = buildActionBody opType opCommand payload now_ms \<and>
        length (utf8_encode opType) \<le> 32 \<and> length (utf8_encode opCommand) \<le> 32
    | Inl _ \<Rightarrow> 32 < length (utf8_encode opType) \<or> 32 < length (utf8_encode opCommand)) \<and>
   settle_actionBody opCommand payload now_ms = buildActionBody (js ''STREAM'') opCommand payload now_ms"
proof -
  have "\<exists>e. e2e_dataFixed opType opCommand payload now_ms = Inl e"
    if "32 < length (utf8_encode opType) \<or> 32 < length (utf8_encode opCommand)"
    using that by (auto simp: e2e_dataFixed_def stringToBytes32Hex_def Let_def)
  then show ?thesis
    by (cases "length (utf8_encode opType) \<le> 32 \<and> length (utf8_encode opCommand) \<le> 32")
      (auto simp: e2e_buildActionBody_def node_envelope_client e2e_dataFixed_fits settle_actionBody_client)
qed

end
