(* ===== verification/TeeKeys.thy ===== *)
theory TeeKeys
  imports EnclaveClient
begin

text \<open>
  \<^verbatim>\<open>typescript/scripts/gen-tee-keys.ts\<close>: the script that puts the enclave's two private keys into
  the \<^verbatim>\<open>.env\<close> files.  The files are a function from names; the random keys and the libraries that
  derive public material are arguments.  The regular expressions are all of one form, a key at the start
  of a line; a line ends where JavaScript's \<^verbatim>\<open>m\<close> flag says.
\<close>

section \<open>Lines of an env file\<close>

text \<open>\<^verbatim>\<open>^KEY=\<close> with the \<^verbatim>\<open>m\<close> flag: what precedes the first match, and what follows it.\<close>

fun find_line :: "jsstr \<Rightarrow> bool \<Rightarrow> jsstr \<Rightarrow> (jsstr \<times> jsstr) option" where
  "find_line k at_start [] = None"
| "find_line k at_start (c # s) =
     (if at_start \<and> starts_with (c # s) (k @ [61]) then Some ([], drop (length k + 1) (c # s))
      else map_option (\<lambda>(b, a). (c # b, a)) (find_line k (is_line_end c) s))"

text \<open>The replacement text of \<^verbatim>\<open>String.prototype.replace\<close>, for a pattern without groups: before the
  match, the match, after it.\<close>

fun get_substitution :: "jsstr \<Rightarrow> jsstr \<Rightarrow> jsstr \<Rightarrow> jsstr \<Rightarrow> jsstr" where
  "get_substitution b m a [] = []"
| "get_substitution b m a (c # t) =
     (if c \<noteq> 36 then c # get_substitution b m a t
      else case t of
        [] \<Rightarrow> [36]
      | d # u \<Rightarrow>
          if d = 36 then 36 # get_substitution b m a u
          else if d = 38 then m @ get_substitution b m a u
          else if d = 96 then b @ get_substitution b m a u
          else if d = 39 then a @ get_substitution b m a u
          else 36 # get_substitution b m a t)"

definition trimEnd :: "jsstr \<Rightarrow> jsstr" where
  "trimEnd s = rev (dropWhile is_js_space (rev s))"

definition rest_of_line :: "jsstr \<Rightarrow> jsstr" where
  "rest_of_line s = takeWhile (\<lambda>c. \<not> is_line_end c) s"

definition env_line :: "jsstr \<Rightarrow> jsstr \<Rightarrow> jsstr" where
  "env_line k v = k @ [61, 34] @ v @ [34]"

definition upsert :: "jsstr \<Rightarrow> jsstr \<Rightarrow> jsstr \<Rightarrow> jsstr" where
  "upsert body key val =
     (case find_line key True body of
        Some (before, rest) \<Rightarrow>
          (let after = dropWhile (\<lambda>c. \<not> is_line_end c) rest in
           before @ get_substitution before (key @ [61] @ rest_of_line rest) after (env_line key val) @ after)
      | None \<Rightarrow> trimEnd body @ [10] @ env_line key val @ [10])"

text \<open>\<^verbatim>\<open>^KEY="?.+"?$\<close>: a line of the key with anything after the sign.\<close>

fun hasKey_from :: "bool \<Rightarrow> jsstr \<Rightarrow> jsstr \<Rightarrow> bool" where
  "hasKey_from at_start [] k \<longleftrightarrow> False"
| "hasKey_from at_start (c # s) k \<longleftrightarrow>
     at_start \<and> starts_with (c # s) (k @ [61]) \<and> rest_of_line (drop (length k + 1) (c # s)) \<noteq> []
     \<or> hasKey_from (is_line_end c) s k"

definition hasKey :: "jsstr \<Rightarrow> jsstr \<Rightarrow> bool" where
  "hasKey body k = hasKey_from True body k"

section \<open>The script\<close>

definition ECIES_KEY :: jsstr where
  "ECIES_KEY = js ''TEE_ECIES_PRIVKEY''"

definition SIGNER_KEY :: jsstr where
  "SIGNER_KEY = js ''TEE_SIGNER_PRIVKEY''"

definition ENV_FILES :: "jsstr list" where
  "ENV_FILES = [js ''.env'', js ''.env.coston2'']"

definition already_set :: "(jsstr \<Rightarrow> jsstr option) \<Rightarrow> bool" where
  "already_set files =
     (let existing = (case files (hd ENV_FILES) of None \<Rightarrow> [] | Some s \<Rightarrow> s)
      in hasKey existing ECIES_KEY \<and> hasKey existing SIGNER_KEY)"

definition write_keys :: "jsstr \<Rightarrow> jsstr \<Rightarrow> jsstr \<Rightarrow> jsstr" where
  "write_keys ecies signer body = upsert (upsert body ECIES_KEY ecies) SIGNER_KEY signer"

text \<open>The files after a run; \<open>ecies\<close> and \<open>signer\<close> are the freshly generated keys.\<close>

definition gen_tee_keys :: "bool \<Rightarrow> jsstr \<Rightarrow> jsstr \<Rightarrow> (jsstr \<Rightarrow> jsstr option) \<Rightarrow> (jsstr \<Rightarrow> jsstr option)" where
  "gen_tee_keys force ecies signer files =
     (if already_set files \<and> \<not> force then files
      else foldl (\<lambda>fs f. case fs f of None \<Rightarrow> fs | Some body \<Rightarrow> fs(f \<mapsto> write_keys ecies signer body))
             files ENV_FILES)"

section \<open>Lines\<close>

text \<open>Some line of a text has a property: the form in which the two expressions are compared.\<close>

fun some_line :: "bool \<Rightarrow> (jsstr \<Rightarrow> bool) \<Rightarrow> jsstr \<Rightarrow> bool" where
  "some_line st Q [] \<longleftrightarrow> False"
| "some_line st Q (c # s) \<longleftrightarrow> st \<and> Q (rest_of_line (c # s)) \<or> some_line (is_line_end c) Q s"

definition one_line :: "jsstr \<Rightarrow> bool" where
  "one_line s \<longleftrightarrow> s \<noteq> [] \<and> list_all (\<lambda>c. \<not> is_line_end c) s"

text \<open>A place where a line starts, after \<open>b\<close>, and one where it ends, before \<open>a\<close>.\<close>

definition line_after :: "bool \<Rightarrow> jsstr \<Rightarrow> bool" where
  "line_after st b \<longleftrightarrow> (if b = [] then st else is_line_end (last b))"

definition line_before :: "jsstr \<Rightarrow> bool" where
  "line_before a \<longleftrightarrow> a = [] \<or> is_line_end (hd a)"

lemma line_after_Cons [simp]: "line_after st (c # b) = line_after (is_line_end c) b"
  by (simp add: line_after_def)

lemma line_after_Nil [simp]: "line_after st [] = st"
  by (simp add: line_after_def)

lemma rest_of_line_app: "list_all (\<lambda>c. \<not> is_line_end c) u \<Longrightarrow> rest_of_line (u @ s) = u @ rest_of_line s"
  by (induction u) (simp_all add: rest_of_line_def)

lemma rest_of_line_before [simp]: "line_before a \<Longrightarrow> rest_of_line a = []"
  by (cases a) (simp_all add: line_before_def rest_of_line_def)

lemma line_before_drop [simp]: "line_before (dropWhile (\<lambda>c. \<not> is_line_end c) s)"
  by (induction s) (simp_all add: line_before_def)

lemma rest_of_line_ends: "\<exists>c \<in> set b. is_line_end c \<Longrightarrow> rest_of_line (b @ s) = rest_of_line b"
  by (auto simp: rest_of_line_def takeWhile_append1)

lemma some_line_skip: "list_all (\<lambda>c. \<not> is_line_end c) u \<Longrightarrow> some_line False Q (u @ s) = some_line False Q s"
  by (induction u) simp_all

lemma some_line_first:
  assumes "one_line u" "line_before a"
  shows "some_line True Q (u @ a) \<longleftrightarrow> Q u \<or> some_line False Q a"
proof -
  have "rest_of_line (u @ a) = u" using assms by (simp add: one_line_def rest_of_line_app)
  with assms(1) some_line_skip [of "tl u" Q a] show ?thesis by (cases u) (auto simp: one_line_def)
qed

lemma line_after_end: "line_after st (c # b) \<Longrightarrow> \<exists>d \<in> set (c # b). is_line_end d"
  by (cases "b = []") (auto simp: line_after_def)

lemma some_line_replace:
  assumes "some_line st Q (b @ u @ a)" "one_line u" "one_line x" "\<not> Q u" "line_before a" "line_after st b"
  shows "some_line st Q (b @ x @ a)"
  using assms(1,6)
proof (induction b arbitrary: st)
  case Nil
  with assms some_line_first show ?case by auto
next
  case (Cons c b)
  have "rest_of_line ((c # b) @ s) = rest_of_line (c # b)" for s
    by (rule rest_of_line_ends [OF line_after_end [OF Cons.prems(2)]])
  from this [of "u @ a"] this [of "x @ a"] Cons show ?case by auto
qed

lemma some_line_insert:
  assumes "one_line x" "Q x" "line_before a"
  shows "line_after st b \<Longrightarrow> some_line st Q (b @ x @ a)"
  using assms some_line_first by (induction b arbitrary: st) auto

lemma some_line_split:
  "some_line st Q s \<Longrightarrow> \<exists>b l a. s = b @ l @ a \<and> Q l \<and> line_after st b \<and> line_before a"
proof (induction s arbitrary: st)
  case (Cons c s)
  show ?case
  proof (cases "st \<and> Q (rest_of_line (c # s))")
    case True
    let ?a = "dropWhile (\<lambda>c. \<not> is_line_end c) (c # s)"
    have "c # s = [] @ rest_of_line (c # s) @ ?a" by (simp only: rest_of_line_def takeWhile_dropWhile_id append_Nil)
    moreover have "line_before ?a" by (rule line_before_drop)
    ultimately show ?thesis using True by (metis line_after_Nil)
  next
    case False
    with Cons.prems have "some_line (is_line_end c) Q s" by auto
    from Cons.IH [OF this] obtain b l a where "s = b @ l @ a" "Q l" "line_after (is_line_end c) b" "line_before a"
      by blast
    then show ?thesis by (intro exI [of _ "c # b"] exI [of _ l] exI [of _ a]) simp
  qed
qed simp

section \<open>Keys and values\<close>

definition plain_value :: "jsstr \<Rightarrow> bool" where
  "plain_value v \<longleftrightarrow> list_all (\<lambda>c. c \<noteq> 36 \<and> \<not> is_line_end c) v"

definition plain_key :: "jsstr \<Rightarrow> bool" where
  "plain_key k \<longleftrightarrow> list_all (\<lambda>c. c \<noteq> 36 \<and> c \<noteq> 61 \<and> \<not> is_line_end c) k"

lemma plain_key_line: "plain_key k \<Longrightarrow> list_all (\<lambda>c. \<not> is_line_end c) k"
  by (simp add: plain_key_def list_all_iff)

lemma rest_no_end: "list_all (\<lambda>c. \<not> is_line_end c) (rest_of_line s)"
  by (induction s) (simp_all add: rest_of_line_def)

lemma get_substitution_plain: "36 \<notin> set t \<Longrightarrow> get_substitution b m a t = t"
  by (induction b m a t rule: get_substitution.induct) auto

lemma env_line_plain:
  "plain_value v \<Longrightarrow> plain_key k \<Longrightarrow> get_substitution b m a (env_line k v) = env_line k v"
  by (intro get_substitution_plain) (auto simp: env_line_def plain_value_def plain_key_def list_all_iff)

lemma one_line_env: "plain_value v \<Longrightarrow> plain_key k \<Longrightarrow> one_line (env_line k v)"
  by (auto simp: one_line_def env_line_def plain_value_def plain_key_def is_line_end_def list_all_iff)

lemma key_unique: "plain_key k \<Longrightarrow> plain_key k' \<Longrightarrow> k @ 61 # x = k' @ 61 # y \<Longrightarrow> k = k'"
  by (induction k arbitrary: k'; case_tac k') (auto simp: plain_key_def)

lemma starts_with_append: "starts_with (p @ s) p"
  by (simp add: starts_with_def)

lemma starts_with_drop: "starts_with s p \<Longrightarrow> s = p @ drop (length p) s"
  unfolding starts_with_def by (metis append_take_drop_id)

lemma find_line_Some: "find_line k st body = Some (b, r) \<Longrightarrow> body = b @ k @ [61] @ r \<and> line_after st b"
proof (induction k st body arbitrary: b rule: find_line.induct)
  case (2 k st c s)
  show ?case
  proof (cases "st \<and> starts_with (c # s) (k @ [61])")
    case True
    with 2(2) starts_with_drop [of "c # s" "k @ [61]"] show ?thesis by auto
  next
    case False
    then obtain b' where "find_line k (is_line_end c) s = Some (b', r)" "b = c # b'"
      using 2(2) by (auto split: if_splits)
    with 2(1) [OF False this(1)] show ?thesis by auto
  qed
qed simp

lemma hasKey_line:
  assumes "plain_key k" "some_line st (\<lambda>l. \<exists>v. l = env_line k v) s"
  shows "hasKey_from st s k"
  using assms(2)
proof (induction s arbitrary: st)
  case (Cons c s)
  have "starts_with (c # s) (k @ [61]) \<and> rest_of_line (drop (length k + 1) (c # s)) \<noteq> []"
    if "rest_of_line (c # s) = env_line k v" for v
  proof -
    define t where "t = dropWhile (\<lambda>c. \<not> is_line_end c) (c # s)"
    have t: "c # s = (k @ [61]) @ 34 # v @ [34] @ t"
      using takeWhile_dropWhile_id [of "\<lambda>c. \<not> is_line_end c" "c # s"] that
      by (simp add: t_def env_line_def rest_of_line_def)
    have "drop (length (k @ [61])) ((k @ [61]) @ u) = u" for u by simp
    then have "drop (length (k @ [61])) (c # s) = 34 # v @ [34] @ t" by (simp only: t)
    then have "rest_of_line (drop (length k + 1) (c # s)) \<noteq> []" by (simp add: rest_of_line_def is_line_end_def)
    moreover have "starts_with (c # s) (k @ [61])" unfolding t by (rule starts_with_append)
    ultimately show ?thesis by blast
  qed
  with Cons show ?case by auto
qed simp

section \<open>What upsert does\<close>

lemma upsert_found:
  assumes "find_line k True body = Some (b, r)" "plain_value v" "plain_key k"
  obtains a where "body = b @ (k @ [61] @ rest_of_line r) @ a" "upsert body k v = b @ env_line k v @ a"
    "line_after True b" "line_before a" "one_line (k @ [61] @ rest_of_line r)"
proof -
  let ?a = "dropWhile (\<lambda>c. \<not> is_line_end c) r"
  have "r = rest_of_line r @ ?a" by (simp add: rest_of_line_def)
  then have "body = b @ (k @ [61] @ rest_of_line r) @ ?a"
    using find_line_Some [OF assms(1)] by (metis append.assoc)
  moreover have "upsert body k v = b @ env_line k v @ ?a"
    using assms by (simp add: upsert_def env_line_plain Let_def)
  moreover have "line_before ?a" by (rule line_before_drop)
  moreover have "one_line (k @ [61] @ rest_of_line r)"
    using plain_key_line [OF assms(3)] rest_no_end [of r] by (simp add: one_line_def) (simp add: is_line_end_def)
  ultimately show thesis using find_line_Some [OF assms(1)] that by blast
qed

lemma upsert_sets:
  assumes "plain_value v" "plain_key k"
  shows "some_line True (\<lambda>l. l = env_line k v) (upsert body k v)"
proof (cases "find_line k True body")
  case None
  have "some_line True (\<lambda>l. l = env_line k v) ((trimEnd body @ [10]) @ env_line k v @ [10])"
    by (intro some_line_insert one_line_env assms) (simp_all add: line_before_def line_after_def is_line_end_def)
  with None show ?thesis by (simp add: upsert_def)
next
  case (Some br)
  then obtain b r where "find_line k True body = Some (b, r)" by (cases br) auto
  then obtain a where "upsert body k v = b @ env_line k v @ a" "line_after True b" "line_before a"
    using upsert_found assms by blast
  then show ?thesis using some_line_insert [OF one_line_env [OF assms]] by auto
qed

lemma trimEnd_app:
  assumes "u \<noteq> []" "\<not> is_js_space (last u)"
  shows "trimEnd (b @ u @ a) = b @ u @ trimEnd a"
proof -
  obtain x y where u: "u = x @ [y]" using assms(1) by (metis rev_exhaust)
  have "dropWhile is_js_space (rev a @ y # z) = dropWhile is_js_space (rev a) @ y # z" for z
    using assms(2) u by (induction "rev a" rule: list.induct) (auto simp: dropWhile_append)
  then show ?thesis by (simp add: trimEnd_def u)
qed

lemma trimEnd_before: "line_before a \<Longrightarrow> line_before (trimEnd a @ [10] @ s)"
proof -
  assume a: "line_before a"
  have "\<exists>t. a = trimEnd a @ t"
    unfolding trimEnd_def by (metis rev_append rev_rev_ident takeWhile_dropWhile_id)
  with a show ?thesis by (cases "trimEnd a") (auto simp: line_before_def is_line_end_def)
qed

lemma upsert_keeps:
  assumes "plain_value v" "plain_key k" "plain_value v'" "plain_key k'" "k \<noteq> k'"
    and "some_line True (\<lambda>l. l = env_line k' v') body"
  shows "some_line True (\<lambda>l. l = env_line k' v') (upsert body k v)"
proof (cases "find_line k True body")
  case None
  obtain b a where s: "body = b @ env_line k' v' @ a" "line_after True b" "line_before a"
    using some_line_split [OF assms(6)] by blast
  have "\<not> is_js_space (last (env_line k' v'))" by (simp add: env_line_def is_js_space_def)
  then have "trimEnd body = b @ env_line k' v' @ trimEnd a"
    unfolding s(1) by (intro trimEnd_app) (simp_all add: env_line_def)
  with None have "upsert body k v = b @ env_line k' v' @ (trimEnd a @ [10] @ env_line k v @ [10])"
    by (simp add: upsert_def)
  then show ?thesis
    using some_line_insert [where Q = "\<lambda>l. l = env_line k' v'", OF one_line_env [OF assms(3,4)] refl
        trimEnd_before [OF s(3)] s(2)] by simp
next
  case (Some br)
  then obtain b r where f: "find_line k True body = Some (b, r)" by (cases br) auto
  obtain a where s: "body = b @ (k @ [61] @ rest_of_line r) @ a" "upsert body k v = b @ env_line k v @ a"
    "line_after True b" "line_before a" "one_line (k @ [61] @ rest_of_line r)"
    using upsert_found [OF f assms(1,2)] by blast
  have "k @ [61] @ rest_of_line r \<noteq> env_line k' v'"
    using key_unique [OF assms(2,4)] assms(5) by (auto simp: env_line_def)
  then show ?thesis
    using some_line_replace [OF assms(6) [unfolded s(1)] s(5) one_line_env [OF assms(1,2)] _ s(4,3)] s(2) by simp
qed

section \<open>The script is idempotent\<close>

lemma keys_plain: "plain_key ECIES_KEY" "plain_key SIGNER_KEY" "ECIES_KEY \<noteq> SIGNER_KEY"
  by (simp_all add: plain_key_def ECIES_KEY_def SIGNER_KEY_def js_Cons is_line_end_def)

lemma some_line_weaken: "some_line st Q s \<Longrightarrow> (\<And>l. Q l \<Longrightarrow> Q' l) \<Longrightarrow> some_line st Q' s"
  by (induction s arbitrary: st) auto

lemma write_keys_lines:
  assumes "plain_value ecies" "plain_value signer"
  shows "some_line True (\<lambda>l. l = env_line ECIES_KEY ecies) (write_keys ecies signer body)"
    "some_line True (\<lambda>l. l = env_line SIGNER_KEY signer) (write_keys ecies signer body)"
proof -
  show "some_line True (\<lambda>l. l = env_line ECIES_KEY ecies) (write_keys ecies signer body)"
    unfolding write_keys_def using keys_plain
    by (intro upsert_keeps upsert_sets assms keys_plain) simp_all
  show "some_line True (\<lambda>l. l = env_line SIGNER_KEY signer) (write_keys ecies signer body)"
    unfolding write_keys_def by (intro upsert_sets assms keys_plain)
qed

lemma gen_writes:
  assumes "\<not> (already_set files \<and> \<not> force)" "f \<in> set ENV_FILES"
  shows "gen_tee_keys force ecies signer files f = map_option (write_keys ecies signer) (files f)"
proof -
  have "js ''.env'' \<noteq> js ''.env.coston2''" by simp
  then show ?thesis
    using assms by (auto simp: gen_tee_keys_def ENV_FILES_def split: option.splits)
qed

lemma written_hasKey:
  assumes "plain_value ecies" "plain_value signer"
  shows "hasKey (write_keys ecies signer body) ECIES_KEY" "hasKey (write_keys ecies signer body) SIGNER_KEY"
  unfolding hasKey_def
  by (intro hasKey_line keys_plain some_line_weaken [OF write_keys_lines(1) [OF assms]]; blast)
    (intro hasKey_line keys_plain some_line_weaken [OF write_keys_lines(2) [OF assms]]; blast)

text \<open>Generating the keys is idempotent, once there is an \<^verbatim>\<open>.env\<close>.  A run that generates leaves in
  every env file that exists one line for each of the two keys, with the new value; and after any run,
  forced or not, a further one without \<^verbatim>\<open>--force\<close> changes no file, whatever keys it would have
  drawn.\<close>

theorem keys_idempotent:
  assumes "files (js ''.env'') = Some body" "plain_value ecies" "plain_value signer"
  shows "gen_tee_keys False e2 s2 (gen_tee_keys force ecies signer files) = gen_tee_keys force ecies signer files \<and>
    (force \<or> \<not> already_set files \<longrightarrow> (\<forall>f \<in> set ENV_FILES. files f \<noteq> None \<longrightarrow>
      (\<exists>new. gen_tee_keys force ecies signer files f = Some new \<and>
        some_line True (\<lambda>l. l = env_line ECIES_KEY ecies) new \<and>
        some_line True (\<lambda>l. l = env_line SIGNER_KEY signer) new)))"
proof (cases "already_set files \<and> \<not> force")
  case True
  then show ?thesis by (simp add: gen_tee_keys_def)
next
  case False
  note w = gen_writes [OF False]
  have "already_set (gen_tee_keys force ecies signer files)"
    using w [of "js ''.env''"] assms written_hasKey [OF assms(2,3)]
    by (simp add: already_set_def ENV_FILES_def Let_def)
  then have "gen_tee_keys False e2 s2 (gen_tee_keys force ecies signer files) = gen_tee_keys force ecies signer files"
    by (subst gen_tee_keys_def) simp
  moreover have "\<exists>new. gen_tee_keys force ecies signer files f = Some new \<and>
      some_line True (\<lambda>l. l = env_line ECIES_KEY ecies) new \<and> some_line True (\<lambda>l. l = env_line SIGNER_KEY signer) new"
    if "f \<in> set ENV_FILES" "files f \<noteq> None" for f
    using w [OF that(1)] that(2) write_keys_lines [OF assms(2,3)] by auto
  ultimately show ?thesis by blast
qed

theorem keys_idempotent_witness:
  "gen_tee_keys False [49] [50] (gen_tee_keys True (js ''0a'') (js ''0b'') [js ''.env'' \<mapsto> js ''A=1''])
   = gen_tee_keys True (js ''0a'') (js ''0b'') [js ''.env'' \<mapsto> js ''A=1'']"
  by (rule conjunct1 [OF keys_idempotent [where body = "js ''A=1''"]])
    (simp_all add: plain_value_def js_Cons is_line_end_def)

text \<open>Without an \<^verbatim>\<open>.env\<close> every run rotates the keys of the other file, forced or not.\<close>

lemma rotates_without_env:
  assumes "files (js ''.env'') = None" "files (js ''.env.coston2'') = Some body"
  shows "gen_tee_keys False ecies signer files (js ''.env.coston2'') = Some (write_keys ecies signer body)"
proof -
  have "\<not> already_set files" using assms(1) by (simp add: already_set_def ENV_FILES_def hasKey_def Let_def)
  with gen_writes [of files False "js ''.env.coston2''"] assms(2) show ?thesis by (simp add: ENV_FILES_def)
qed

end
