(* ===== verification/Scripts.thy ===== *)
theory Scripts
  imports Envelopes Pages
begin

text \<open>
  What the scripts of \<^verbatim>\<open>typescript/scripts\<close> and \<^verbatim>\<open>frontend/scripts\<close> share.  A script is a state
  transformer over the world \<open>'w\<close> (the chain, the enclave's server, the clock) that may stop: with
  \<^verbatim>\<open>process.exit(1)\<close> after a failed \<^verbatim>\<open>must\<close>, or because an exception reached \<^verbatim>\<open>main\<close>'s handler;
  \<open>Inl\<close> carries the text it prints then.  What it prints on the way is not modelled.

  The world's side is the record \<open>node\<close>: the wallet client of the deployer, reads at the current state,
  \<^verbatim>\<open>decodeEventLog\<close> at the vault's ABI (the id, if the log is a \<^verbatim>\<open>StreamCreated\<close>), \<^verbatim>\<open>fetch\<close> of
  the enclave, which may change its state, the clock and the timer.
\<close>

section \<open>Scripts\<close>

type_synonym ('w, 'a) script = "'w \<Rightarrow> (jsstr + 'a) \<times> 'w"

definition s_return :: "'a \<Rightarrow> ('w, 'a) script" where
  "s_return x = (\<lambda>w. (Inr x, w))"

definition s_bind :: "('w, 'a) script \<Rightarrow> ('a \<Rightarrow> ('w, 'b) script) \<Rightarrow> ('w, 'b) script" where
  "s_bind m f = (\<lambda>w. case m w of (Inl e, w1) \<Rightarrow> (Inl e, w1) | (Inr x, w1) \<Rightarrow> f x w1)"

text \<open>\<^verbatim>\<open>must(cond, msg)\<close>\<close>

definition must :: "bool \<Rightarrow> jsstr \<Rightarrow> ('w, unit) script" where
  "must c m = (\<lambda>w. if c then (Inr (), w) else (Inl (js ''FAILED: '' @ m), w))"

text \<open>An exception nobody catches but the handler of \<^verbatim>\<open>main\<close>.\<close>

definition s_result :: "'a result \<Rightarrow> ('w, 'a) script" where
  "s_result r = (\<lambda>w. case r of Inl e \<Rightarrow> (Inl (js ''FATAL: '' @ exn_message e), w) | Inr x \<Rightarrow> (Inr x, w))"

definition s_read :: "('w \<Rightarrow> 'a) \<Rightarrow> ('w, 'a) script" where
  "s_read f = (\<lambda>w. (Inr (f w), w))"

definition s_step :: "('w \<Rightarrow> 'a result \<times> 'w) \<Rightarrow> ('w, 'a) script" where
  "s_step f = (\<lambda>w. case f w of (Inl e, w1) \<Rightarrow> (Inl (js ''FATAL: '' @ exn_message e), w1) | (Inr x, w1) \<Rightarrow> (Inr x, w1))"

lemma s_bind_run: "m w = (Inr x, w1) \<Longrightarrow> s_bind m f w = f x w1"
  by (simp add: s_bind_def)

lemma s_bind_stop: "m w = (Inl e, w1) \<Longrightarrow> s_bind m f w = (Inl e, w1)"
  by (simp add: s_bind_def)

lemma s_bind_Inr:
  assumes "s_bind m f w = (Inr y, w2)"
  obtains x w1 where "m w = (Inr x, w1)" "f x w1 = (Inr y, w2)"
  using assms by (auto simp: s_bind_def split: prod.splits sum.splits)

lemma must_run [simp]: "c \<Longrightarrow> must c m w = (Inr (), w)"
  by (simp add: must_def)

lemma s_return_run [simp]: "s_return x w = (Inr x, w)"
  by (simp add: s_return_def)

lemma s_result_run [simp]: "s_result (Inr x) w = (Inr x, w)"
  by (simp add: s_result_def)

lemma s_read_run [simp]: "s_read f w = (Inr (f w), w)"
  by (simp add: s_read_def)

lemma s_step_run [simp]: "f w = (Inr x, w1) \<Longrightarrow> s_step f w = (Inr x, w1)"
  by (simp add: s_step_def)

lemma s_bind_steps [simp]:
  "s_bind (s_result (Inr x)) f w = f x w" "s_bind (s_return x) f w = f x w" "s_bind (s_read g) f w = f (g w) w"
  "c \<Longrightarrow> s_bind (must c m) f' w = f' () w"
  by (simp_all add: s_bind_def)

section \<open>The world's side\<close>

record 'w node =
  nd_wallet :: "'w wallet"
  nd_rpc :: "'w \<Rightarrow> rpc"
  nd_balanceOf :: "jsstr \<Rightarrow> jsstr \<Rightarrow> 'w \<Rightarrow> int result"
  nd_created :: "tx_log \<Rightarrow> int option"
  nd_post :: "jsstr \<Rightarrow> 'w \<Rightarrow> fetch_outcome \<times> 'w"
  nd_now :: "'w \<Rightarrow> int"
  nd_sleep :: "nat \<Rightarrow> 'w \<Rightarrow> 'w"

text \<open>The ERC20 interface of the scripts; the vault's is that of the compiled contract.\<close>

definition SCRIPT_ERC20 :: "string list" where
  "SCRIPT_ERC20 = [''approve'', ''balanceOf'', ''decimals'', ''symbol'']"

definition SETTLE_ERC20 :: "string list" where
  "SETTLE_ERC20 = [''approve'', ''balanceOf'', ''decimals'']"

text \<open>\<^verbatim>\<open>Buffer.from(s, "hex")\<close>, which stops at the first pair that is not two digits.\<close>

fun buffer_hex :: "jsstr \<Rightarrow> bytes" where
  "buffer_hex (a # b # s) =
     (case (hex_digit_val a, hex_digit_val b) of
        (Some x, Some y) \<Rightarrow> of_nat (x * 16 + y) # buffer_hex s
      | _ \<Rightarrow> [])"
| "buffer_hex _ = []"

lemma buffer_hex_concat: "buffer_hex (concat (map byte_hex bs)) = bs"
proof (induction bs)
  case (Cons b bs)
  have "unat b div 16 < 16" "unat b mod 16 < 16" by simp_all
  moreover have "of_nat (unat b div 16 * 16 + unat b mod 16) = b" by (simp only: div_mult_mod_eq) simp
  ultimately show ?case using Cons by (simp add: byte_hex_def del: of_nat_add of_nat_mult)
qed simp

lemma buffer_hex_bytesToHex [simp]: "buffer_hex (drop 2 (bytesToHex bs)) = bs"
  by (simp add: bytesToHex_def buffer_hex_concat)

section \<open>Steps of several scripts\<close>

text \<open>\<^verbatim>\<open>writeContract\<close> and the receipt, whose status is checked, or not.\<close>

definition send_tx :: "'w node \<Rightarrow> jsstr \<Rightarrow> string list \<Rightarrow> string \<Rightarrow> abi_value list \<Rightarrow> ('w, jsstr \<times> receipt) script" where
  "send_tx N addr abi fn args = s_step (write_wait (nd_wallet N) addr abi fn args)"

definition send_checked ::
    "'w node \<Rightarrow> jsstr \<Rightarrow> string list \<Rightarrow> string \<Rightarrow> abi_value list \<Rightarrow> (jsstr \<Rightarrow> jsstr) \<Rightarrow> ('w, receipt) script" where
  "send_checked N addr abi fn args msg =
     s_bind (send_tx N addr abi fn args) (\<lambda>(hash, rcpt).
     s_bind (must (rc_status rcpt = js ''success'') (msg hash)) (\<lambda>_.
     s_return rcpt))"

text \<open>The id of the new stream: the last \<^verbatim>\<open>StreamCreated\<close> among the logs, 0 without one.\<close>

definition created_stream :: "'w node \<Rightarrow> tx_log list \<Rightarrow> int" where
  "created_stream N logs =
     foldl (\<lambda>i l. case nd_created N l of None \<Rightarrow> i | Some j \<Rightarrow> j) 0 logs"

text \<open>The ciphertext of the terms, to the public half of the enclave's key.\<close>

definition seal_hex :: "tools \<Rightarrow> jsstr \<Rightarrow> jsstr \<Rightarrow> jsstr result" where
  "seal_hex X pubkey termsHex =
     (case tl_encrypt X pubkey (buffer_hex (drop 2 termsHex)) of
        Inl e \<Rightarrow> Inl e | Inr c \<Rightarrow> Inr (bytesToHex c))"

text \<open>\<^verbatim>\<open>res.json()\<close>\<close>

definition response_json :: "engine \<Rightarrow> fetch_outcome \<Rightarrow> (nat \<times> json) result" where
  "response_json G r =
     (case r of Inl e \<Rightarrow> Inl e
      | Inr (status, body) \<Rightarrow>
         (case parse_json (g_syntax G) body of Inl e \<Rightarrow> Inl e | Inr v \<Rightarrow> Inr (status, v)))"

definition status_is_1 :: "json \<Rightarrow> bool" where
  "status_is_1 body = (case get_prop body (js ''status'') of Some (JNum m e) \<Rightarrow> num_is_one m e | _ \<Rightarrow> False)"

text \<open>\<^verbatim>\<open>JSON.parse(Buffer.from(body.data.slice(2), "hex").toString("utf-8"))\<close>\<close>

definition data_json :: "engine \<Rightarrow> json \<Rightarrow> json result" where
  "data_json G body =
     (case str_prop body (js ''data'') of
        None \<Rightarrow> Inl (type_error G)
      | Some d \<Rightarrow> parse_json (g_syntax G) (utf8_decode (buffer_hex (drop 2 d))))"

text \<open>A member the script uses as a string; the enclave's answers have no others.\<close>

definition need_str :: "engine \<Rightarrow> json \<Rightarrow> string \<Rightarrow> jsstr result" where
  "need_str G v k = (case str_prop v (js k) of None \<Rightarrow> Inl (type_error G) | Some s \<Rightarrow> Inr s)"

definition need_big :: "engine \<Rightarrow> json \<Rightarrow> string \<Rightarrow> int result" where
  "need_big G v k = (case need_str G v k of Inl e \<Rightarrow> Inl e | Inr s \<Rightarrow> to_bigint s)"

text \<open>A signed challenge.\<close>

definition sign_challenge ::
    "viem \<Rightarrow> (jsstr \<Rightarrow> jsstr result) \<Rightarrow> int \<Rightarrow> jsstr \<Rightarrow> int \<Rightarrow> jsstr \<Rightarrow> jsstr \<Rightarrow> int \<Rightarrow> jsstr result" where
  "sign_challenge V sign chainId vault streamId commitment purpose issuedAt =
     (case buildCallerChallenge V \<lparr>c_chainId = chainId, c_vault = vault, c_streamId = streamId,
             c_commitment = commitment, c_purpose = purpose, c_issuedAt = issuedAt\<rparr> of
        Inl e \<Rightarrow> Inl e
      | Inr challenge \<Rightarrow> sign challenge)"

end
