(* ===== verification/JsNumber.thy ===== *)
theory JsNumber
  imports JsText "HOL-Library.Log_Nat"
begin

text \<open>
  JavaScript's \<^verbatim>\<open>Number\<close> as far as the pages use it: a double as a sign, a mantissa and an exponent, rounding to
  nearest, \<^verbatim>\<open>Number(string)\<close>, multiplication and \<^verbatim>\<open>toFixed\<close>.  Amounts are rounded when they are shown:
  \<open>shown_close\<close> bounds by how much.
\<close>

section \<open>Doubles\<close>

text \<open>\<open>Finite neg m e\<close> is \<open>m * 2 ^ e\<close>, negated if \<open>neg\<close>.\<close>

datatype jsnum = NaN | Infinite bool | Finite bool nat int

text \<open>The fraction \<open>a / b\<close> divided by \<open>2 ^ e\<close>.\<close>

definition scaled_num :: "nat \<Rightarrow> int \<Rightarrow> nat" where
  "scaled_num a e = a * 2 ^ nat (- e)"

definition scaled_den :: "nat \<Rightarrow> int \<Rightarrow> nat" where
  "scaled_den b e = b * 2 ^ nat e"

text \<open>To nearest, ties to even.\<close>

definition div_even :: "nat \<Rightarrow> nat \<Rightarrow> nat" where
  "div_even a b =
     (let q = a div b; r = a mod b in
      if 2 * r < b then q else if b < 2 * r then q + 1 else if even q then q else q + 1)"

text \<open>The exponent that gives the mantissa 53 bits.\<close>

definition double_exp :: "nat \<Rightarrow> nat \<Rightarrow> int" where
  "double_exp a b =
     (let e = int (floorlog 2 a) - int (floorlog 2 b) - 53 in
      if 2 ^ 53 * scaled_den b e \<le> scaled_num a e then e + 1 else e)"

definition to_double :: "bool \<Rightarrow> nat \<Rightarrow> nat \<Rightarrow> jsnum" where
  "to_double neg a b =
     (if a = 0 then Finite neg 0 0
      else
       (let e = max (-1074) (double_exp a b);
            m = div_even (scaled_num a e) (scaled_den b e);
            n = (if m = 2 ^ 53 then 2 ^ 52 else m);
            x = (if m = 2 ^ 53 then e + 1 else e)
        in if 971 < x then Infinite neg else Finite neg n x))"

definition num_times :: "jsnum \<Rightarrow> jsnum \<Rightarrow> jsnum" where
  "num_times x y =
     (case (x, y) of
        (Finite s m d, Finite t n e) \<Rightarrow> to_double (s \<noteq> t) (scaled_num (m * n) (- (d + e))) (scaled_den 1 (- (d + e)))
      | (Infinite s, Finite t n e) \<Rightarrow> if n = 0 then NaN else Infinite (s \<noteq> t)
      | (Finite s m d, Infinite t) \<Rightarrow> if m = 0 then NaN else Infinite (s \<noteq> t)
      | (Infinite s, Infinite t) \<Rightarrow> Infinite (s \<noteq> t)
      | _ \<Rightarrow> NaN)"

definition num_div :: "jsnum \<Rightarrow> jsnum \<Rightarrow> jsnum" where
  "num_div x y =
     (case (x, y) of
        (Finite s m d, Finite t n e) \<Rightarrow>
          if n = 0 then (if m = 0 then NaN else Infinite (s \<noteq> t))
          else to_double (s \<noteq> t) (scaled_num m (e - d)) (scaled_den n (e - d))
      | (Infinite s, Finite t n e) \<Rightarrow> Infinite (s \<noteq> t)
      | (Finite s m d, Infinite t) \<Rightarrow> Finite (s \<noteq> t) 0 0
      | _ \<Rightarrow> NaN)"

definition num_add :: "jsnum \<Rightarrow> jsnum \<Rightarrow> jsnum" where
  "num_add x y =
     (case (x, y) of
        (Finite s m d, Finite t n e) \<Rightarrow>
          (let k = min d e;
               a = (if s then - 1 else 1) * int (m * 2 ^ nat (d - k)) + (if t then - 1 else 1) * int (n * 2 ^ nat (e - k))
           in if a = 0 then Finite (s \<and> t) 0 0
              else to_double (a < 0) (scaled_num (nat \<bar>a\<bar>) (- k)) (scaled_den 1 (- k)))
      | (Infinite s, Finite t n e) \<Rightarrow> Infinite s
      | (Finite s m d, Infinite t) \<Rightarrow> Infinite t
      | (Infinite s, Infinite t) \<Rightarrow> if s = t then Infinite s else NaN
      | _ \<Rightarrow> NaN)"

text \<open>\<^verbatim>\<open>Number(i)\<close> of a bigint, and \<^verbatim>\<open>BigInt(Math.round(x))\<close>.\<close>

definition number_of_int :: "int \<Rightarrow> jsnum" where
  "number_of_int i = to_double (i < 0) (nat \<bar>i\<bar>) 1"

definition rounded_bigint :: "jsnum \<Rightarrow> int result" where
  "rounded_bigint x =
     (case x of
        Finite neg m e \<Rightarrow>
          (let a = int (scaled_num m (- e)); b = int (scaled_den 1 (- e)) in Inr ((2 * (if neg then - a else a) + b) div (2 * b)))
      | _ \<Rightarrow> Inl (JsExn (js ''RangeError'') (js ''The number cannot be converted to a BigInt because it is not an integer'')))"

section \<open>\<^verbatim>\<open>Number(string)\<close>\<close>

text \<open>A signed exponent, after the \<^verbatim>\<open>e\<close>.\<close>

definition exponent_part :: "jsstr \<Rightarrow> int option" where
  "exponent_part s =
     (case s of
        c # cs \<Rightarrow>
          if c = 43 then map_option int (dec_literal cs)
          else if c = 45 then map_option (\<lambda>n. - int n) (dec_literal cs)
          else map_option int (dec_literal s)
      | [] \<Rightarrow> None)"

text \<open>An unsigned decimal literal, as a fraction.\<close>

definition decimal_literal :: "jsstr \<Rightarrow> (nat \<times> nat) option" where
  "decimal_literal s =
     (let m = takeWhile (\<lambda>c. c \<notin> {69, 101}) s; x = dropWhile (\<lambda>c. c \<notin> {69, 101}) s;
          i = takeWhile (\<lambda>c. c \<noteq> 46) m; f = drop 1 (dropWhile (\<lambda>c. c \<noteq> 46) m)
      in if i @ f = [] \<or> \<not> list_all is_digit (i @ f) then None
         else case (if x = [] then Some 0 else exponent_part (tl x)) of
                None \<Rightarrow> None
              | Some k \<Rightarrow> Some (dec_val (i @ f) * 10 ^ nat k, 10 ^ length f * 10 ^ nat (- k)))"

definition signed_literal :: "bool \<Rightarrow> jsstr \<Rightarrow> jsnum" where
  "signed_literal neg s =
     (if s = js ''Infinity'' then Infinite neg
      else case decimal_literal s of None \<Rightarrow> NaN | Some (a, b) \<Rightarrow> to_double neg a b)"

definition number_of_string :: "jsstr \<Rightarrow> jsnum" where
  "number_of_string s0 =
     (case trim s0 of
        [] \<Rightarrow> Finite False 0 0
      | c # cs \<Rightarrow>
          if c = 43 then signed_literal False cs
          else if c = 45 then signed_literal True cs
          else if c = 48 \<and> cs \<noteq> [] \<and> hd cs \<in> {120, 88, 111, 79, 98, 66} then
            (if tl cs = [] then NaN
             else case radix_val (if hd cs \<in> {120, 88} then 16 else if hd cs \<in> {111, 79} then 8 else 2) 0 (tl cs) of
                    None \<Rightarrow> NaN | Some n \<Rightarrow> to_double False n 1)
          else signed_literal False (c # cs))"

section \<open>\<^verbatim>\<open>toFixed\<close>\<close>

text \<open>The digits of \<open>n / 10 ^ f\<close>, with \<open>f\<close> decimals.\<close>

definition fixed_text :: "nat \<Rightarrow> nat \<Rightarrow> jsstr" where
  "fixed_text n f =
     (let d = dec_digits n; k = replicate (f + 1 - length d) 48 @ d in
      if f = 0 then k else take (length k - f) k @ 46 # drop (length k - f) k)"

definition round_half_up :: "nat \<Rightarrow> nat \<Rightarrow> nat" where
  "round_half_up a b = (2 * a + b) div (2 * b)"

text \<open>From \<open>10 ^ 21\<close> on, \<^verbatim>\<open>toFixed\<close> is \<^verbatim>\<open>toString\<close>: the fewest digits that are read back as the same number.
  Both multiples of a power of ten next to it are tried, the nearer one first.\<close>

definition neighbours :: "nat \<Rightarrow> nat \<Rightarrow> nat list" where
  "neighbours x p = (let q = x div p in if 2 * (x mod p) < p then [q, q + 1] else [q + 1, q])"

definition shortest :: "nat \<Rightarrow> nat \<Rightarrow> (nat \<times> nat) list" where
  "shortest x n =
     concat (map (\<lambda>k. map (\<lambda>s. (s, n - k)) (filter (\<lambda>s. to_double False (s * 10 ^ (n - k)) 1 = to_double False x 1)
       (neighbours x (10 ^ (n - k))))) [1..<18])"

definition big_text :: "nat \<Rightarrow> jsstr" where
  "big_text x =
     (case shortest x (length (dec_digits x)) of
        [] \<Rightarrow> dec_digits x
      | (s, z) # _ \<Rightarrow>
          (let d = rev (dropWhile (\<lambda>c. c = 48) (rev (dec_digits s))); e = length (dec_digits s) + z - 1
           in take 1 d @ (if length d = 1 then [] else 46 # drop 1 d) @ js ''e+'' @ dec_digits e))"

text \<open>\<^verbatim>\<open>x.toFixed(f)\<close> for up to 100 decimals, as everywhere in the repository; beyond that it raises a
  \<^verbatim>\<open>RangeError\<close>.\<close>

definition to_fixed :: "jsnum \<Rightarrow> nat \<Rightarrow> jsstr" where
  "to_fixed x f =
     (case x of
        NaN \<Rightarrow> js ''NaN''
      | Infinite neg \<Rightarrow> (if neg then [45] else []) @ js ''Infinity''
      | Finite neg m e \<Rightarrow>
         (if neg \<and> m \<noteq> 0 then [45] else []) @
         (if 10 ^ 21 * scaled_den 1 (- e) \<le> scaled_num m (- e) then big_text (scaled_num m (- e) div scaled_den 1 (- e))
          else fixed_text (round_half_up (scaled_num m (- e) * 10 ^ f) (scaled_den 1 (- e))) f))"

section \<open>Rounding\<close>

lemma div_even_close:
  assumes "0 < b"
  shows "\<bar>real (div_even a b) - real a / real b\<bar> \<le> 1 / 2"
proof -
  have a: "real a = real (a div b) * real b + real (a mod b)"
    by (metis div_mult_mod_eq of_nat_add of_nat_mult)
  have r: "a mod b < b" using assms by simp
  have q: "real a / real b = real (a div b) + real (a mod b) / real b"
    using assms by (simp add: a add_divide_distrib)
  have "div_even a b = a div b \<and> 2 * (a mod b) \<le> b \<or> div_even a b = a div b + 1 \<and> b \<le> 2 * (a mod b)"
    by (auto simp: div_even_def Let_def)
  then show ?thesis
  proof
    assume d: "div_even a b = a div b \<and> 2 * (a mod b) \<le> b"
    then have "real (2 * (a mod b)) \<le> real b" by (simp only: of_nat_le_iff)
    then have "real (a mod b) / real b \<le> 1 / 2" using assms by (simp add: field_simps)
    moreover have "0 \<le> real (a mod b) / real b" by simp
    ultimately show ?thesis using d q by simp
  next
    assume d: "div_even a b = a div b + 1 \<and> b \<le> 2 * (a mod b)"
    then have "real b \<le> real (2 * (a mod b))" by (simp only: of_nat_le_iff)
    then have "1 / 2 \<le> real (a mod b) / real b" using assms by (simp add: field_simps)
    moreover have "real (a mod b) / real b < 1" using assms r by simp
    ultimately show ?thesis using d q by simp
  qed
qed

lemma scaled_ratio: "real (scaled_num a e) / real (scaled_den b e) = real a / real b * 2 powr - real_of_int e"
proof (cases "0 \<le> e")
  case True
  then have "2 powr - real_of_int e = 1 / 2 ^ nat e" by (simp add: powr_minus_divide powr_real_of_int)
  with True show ?thesis by (simp add: scaled_num_def scaled_den_def)
next
  case False
  then have "2 powr - real_of_int e = 2 ^ nat (- e)" using powr_real_of_int [of 2 "- e"] by simp
  with False show ?thesis by (simp add: scaled_num_def scaled_den_def)
qed

lemma scaled_den_pos [simp]: "0 < b \<Longrightarrow> 0 < scaled_den b e"
  by (simp add: scaled_den_def)

lemma scaled_le:
  assumes "0 < b"
  shows "n * scaled_den b e \<le> scaled_num a e \<longleftrightarrow> real n \<le> real a / real b * 2 powr - real_of_int e"
proof -
  have "real n \<le> real (scaled_num a e) / real (scaled_den b e) \<longleftrightarrow> real (n * scaled_den b e) \<le> real (scaled_num a e)"
    using assms by (simp add: pos_le_divide_eq)
  then show ?thesis by (simp only: scaled_ratio of_nat_le_iff)
qed

lemma ratio_floorlog:
  assumes "0 < a" "0 < b"
  defines "k \<equiv> real (floorlog 2 a) - real (floorlog 2 b)"
  shows "2 powr (k - 1) \<le> real a / real b" "real a / real b < 2 powr (k + 1)"
proof -
  have f: "2 powr (real (floorlog 2 x) - 1) \<le> real x" "real x < 2 powr (real (floorlog 2 x))" if "0 < x" for x
  proof -
    have z: "0 < floorlog 2 x" using that by (simp add: floorlog_def)
    have p: "real (floorlog 2 x) - 1 = real (floorlog 2 x - 1)" using z by simp
    have "2 ^ (floorlog 2 x - 1) \<le> x" "x < 2 ^ floorlog 2 x" using floorlog_bounds [OF that, of 2] by simp_all
    then have "real (2 ^ (floorlog 2 x - 1)) \<le> real x" "real x < real (2 ^ floorlog 2 x)" by (simp_all only: of_nat_le_iff of_nat_less_iff)
    then show "2 powr (real (floorlog 2 x) - 1) \<le> real x" "real x < 2 powr (real (floorlog 2 x))"
      unfolding p by (simp_all add: powr_realpow)
  qed
  have "2 powr (k - 1) = 2 powr (real (floorlog 2 a) - 1) / 2 powr real (floorlog 2 b)"
    by (simp add: k_def powr_diff)
  also have "\<dots> \<le> real a / real b" using f [OF assms(1)] f [OF assms(2)] assms by (intro frac_le) simp_all
  finally show "2 powr (k - 1) \<le> real a / real b" .
  have "real a / real b < 2 powr real (floorlog 2 a) / 2 powr (real (floorlog 2 b) - 1)"
    using f [OF assms(1)] f [OF assms(2)] assms by (intro frac_less) simp_all
  also have "\<dots> = 2 powr (k + 1)" by (simp add: k_def powr_diff powr_add)
  finally show "real a / real b < 2 powr (k + 1)" .
qed

lemma double_exp_range:
  assumes "0 < a" "0 < b"
  shows "2 ^ 52 \<le> real a / real b * 2 powr - real_of_int (double_exp a b)"
    and "real a / real b * 2 powr - real_of_int (double_exp a b) < 2 ^ 53"
proof -
  define e where "e = int (floorlog 2 a) - int (floorlog 2 b) - 53"
  let ?k = "real (floorlog 2 a) - real (floorlog 2 b)" let ?q = "real a / real b" let ?x = "?q * 2 powr - real_of_int e"
  have p: "2 powr - real_of_int e = 2 powr (53 - ?k)" by (simp add: e_def)
  have "2 powr (?k - 1) * 2 powr (53 - ?k) \<le> ?x"
    unfolding p using ratio_floorlog(1) [OF assms] by (intro mult_right_mono) simp_all
  then have lo: "2 ^ 52 \<le> ?x" by (simp flip: powr_add)
  have "?x < 2 powr (?k + 1) * 2 powr (53 - ?k)"
    unfolding p using ratio_floorlog(2) [OF assms] by (intro mult_strict_right_mono) simp_all
  then have hi: "?x < 2 ^ 54" by (simp flip: powr_add)
  have h: "?q * 2 powr - real_of_int (e + 1) = ?x / 2" by (simp add: powr_diff powr_minus_divide)
  have d: "double_exp a b = (if 2 ^ 53 \<le> ?x then e + 1 else e)"
    using scaled_le [OF assms(2), of "2 ^ 53" e a] by (simp add: double_exp_def Let_def e_def)
  have "(if 2 ^ 53 \<le> ?x then ?x / 2 else ?x) = ?q * 2 powr - real_of_int (double_exp a b)"
    unfolding d using h by (simp only: split: if_split) simp
  moreover have "2 ^ 52 \<le> (if 2 ^ 53 \<le> y then y / 2 else y) \<and> (if 2 ^ 53 \<le> y then y / 2 else y) < 2 ^ 53"
    if "2 ^ 52 \<le> y" "y < 2 ^ 54" for y :: real using that by auto
  note this [OF lo hi]
  ultimately show "2 ^ 52 \<le> ?q * 2 powr - real_of_int (double_exp a b)" "?q * 2 powr - real_of_int (double_exp a b) < 2 ^ 53"
    by simp_all
qed

definition double_value :: "nat \<Rightarrow> int \<Rightarrow> real" where
  "double_value m e = real m * 2 powr real_of_int e"

lemma to_double_close:
  assumes "0 < a" "0 < b" "2 powr - 1022 \<le> real a / real b" "real a / real b < 2 powr 1000"
  obtains m e where "to_double neg a b = Finite neg m e" "0 < m"
    "\<bar>double_value m e - real a / real b\<bar> \<le> real a / real b / 2 ^ 53"
proof -
  let ?e = "double_exp a b"
  define q x z where "q = real a / real b" and "x = q * 2 powr - real_of_int ?e" and "z = 2 powr real_of_int ?e"
  have r: "2 ^ 52 \<le> x" "x < 2 ^ 53" using double_exp_range [OF assms(1,2)] by (simp_all add: x_def q_def)
  have z: "0 < z" by (simp add: z_def)
  have q: "q = x * z" by (simp add: x_def z_def flip: powr_add mult.assoc)
  have "2 powr - 1022 < 2 ^ 53 * z"
    using assms(3) mult_strict_right_mono [OF r(2) z] q q_def by linarith
  then have "2 powr - 1022 < 2 powr (53 + real_of_int ?e)" by (simp add: z_def powr_add)
  then have lo: "- 1074 \<le> ?e" by simp
  have "2 ^ 52 * z \<le> q" using mult_right_mono [OF r(1), of z] z q by simp
  then have "2 powr (52 + real_of_int ?e) < 2 powr 1000" using assms(4) q_def by (simp add: z_def powr_add)
  then have "52 + real_of_int ?e < 1000" by (rule powr_less_cancel) simp
  then have hi: "?e < 948" by simp
  define m where "m = div_even (scaled_num a ?e) (scaled_den b ?e)"
  have "\<bar>real m - x\<bar> \<le> 1 / 2"
    using div_even_close [of "scaled_den b ?e" "scaled_num a ?e"] assms(2) by (simp add: m_def scaled_ratio x_def q_def)
  then have c: "\<bar>real m - x\<bar> \<le> x / 2 ^ 53" "0 < m" using r(1) by (cases m; auto)+
  have "\<bar>real m * z - q\<bar> = \<bar>real m - x\<bar> * z"
    using z by (simp add: q abs_mult flip: left_diff_distrib)
  also have "\<dots> \<le> x / 2 ^ 53 * z" using c(1) z by (intro mult_right_mono) simp_all
  also have "\<dots> = q / 2 ^ 53" by (simp add: q)
  finally have v: "\<bar>double_value m ?e - real a / real b\<bar> \<le> real a / real b / 2 ^ 53" by (simp add: double_value_def z_def q_def)
  have n: "double_value (2 ^ 52) (?e + 1) = double_value (2 ^ 53) ?e" by (simp add: double_value_def powr_add)
  have d: "to_double neg a b = (if m = 2 ^ 53 then Finite neg (2 ^ 52) (?e + 1) else Finite neg m ?e)"
    using assms(1) lo hi by (simp add: to_double_def Let_def m_def max_def)
  show thesis
  proof (cases "m = 2 ^ 53")
    case True
    then show thesis using v n d by (intro that [of "2 ^ 52" "?e + 1"]) simp_all
  next
    case False
    then show thesis using v c(2) d by (intro that [of m ?e]) simp_all
  qed
qed

section \<open>Exact numbers\<close>

lemma div_even_exact: "0 < b \<Longrightarrow> div_even (q * b) b = q"
  by (simp add: div_even_def)

lemma double_value_pos: "0 < k \<Longrightarrow> 0 < double_value k j"
  by (simp add: double_value_def)

text \<open>A number with at most 53 significant bits is a double.\<close>

lemma to_double_dyadic:
  assumes "0 < a" "0 < b" "k < 2 ^ 53" "real a / real b = double_value k j" "- 1000 \<le> j" "j \<le> 900"
  obtains m e where "to_double neg a b = Finite neg m e" "double_value m e = double_value k j"
proof -
  let ?e = "double_exp a b"
  have r: "2 ^ 52 \<le> double_value k j * 2 powr - real_of_int ?e" "double_value k j * 2 powr - real_of_int ?e < 2 ^ 53"
    using double_exp_range [OF assms(1,2)] unfolding assms(4) by simp_all
  have v: "double_value k j * 2 powr - real_of_int ?e = real k * 2 powr real_of_int (j - ?e)"
    by (simp add: double_value_def flip: powr_add)
  have k: "real k < 2 ^ 53" using assms(3) by (simp add: of_nat_less_numeral_power_cancel_iff)
  have "j - ?e \<ge> 0"
  proof (rule ccontr)
    assume "\<not> j - ?e \<ge> 0"
    then have "2 powr real_of_int (j - ?e) \<le> 2 powr - 1" by (intro powr_mono) simp_all
    then have "real k * 2 powr real_of_int (j - ?e) \<le> real k * (1 / 2)" by (intro mult_left_mono) (simp_all add: powr_minus_divide)
    with r(1) k show False unfolding v by simp
  qed
  then have p: "2 powr real_of_int (j - ?e) = 2 ^ nat (j - ?e)" using powr_real_of_int [of 2 "j - ?e"] by simp
  have "real (scaled_num a ?e) = real (k * 2 ^ nat (j - ?e)) * real (scaled_den b ?e)"
    using scaled_ratio [of a ?e b] assms(2) scaled_den_pos [OF assms(2), of ?e] unfolding assms(4) v p by (simp add: field_simps)
  then have "real (scaled_num a ?e) = real (k * 2 ^ nat (j - ?e) * scaled_den b ?e)" by simp
  then have q: "scaled_num a ?e = k * 2 ^ nat (j - ?e) * scaled_den b ?e" by (simp only: of_nat_eq_iff)
  have "real (k * 2 ^ nat (j - ?e)) < real (2 ^ 53)" using r(2) unfolding v p by simp
  then have m: "k * 2 ^ nat (j - ?e) < 2 ^ 53" by (simp only: of_nat_less_iff)
  have "0 < k" using assms(1,2,4) by (cases "k = 0") (simp_all add: double_value_def)
  then have "1 * 2 powr real_of_int (j - ?e) \<le> real k * 2 powr real_of_int (j - ?e)" by (intro mult_right_mono) simp_all
  also have "\<dots> < 2 ^ 53" using r(2) unfolding v .
  finally have "2 powr real_of_int (j - ?e) < 2 powr 53" by simp
  then have "real_of_int (j - ?e) < 53" by (rule powr_less_cancel) simp
  then have lo: "- 1074 \<le> ?e" "?e \<le> 971" using assms(5,6) \<open>j - ?e \<ge> 0\<close> by simp_all
  have "to_double neg a b = Finite neg (k * 2 ^ nat (j - ?e)) ?e"
    using assms(1,2) lo m by (simp add: to_double_def Let_def q div_even_exact max_def del: power_numeral)
  moreover have "double_value (k * 2 ^ nat (j - ?e)) ?e = double_value k j"
    using p by (simp add: double_value_def flip: powr_add mult.assoc) (simp flip: powr_add p)
  ultimately show thesis by (rule that)
qed

lemma scaled_value: "real (scaled_num m (- e)) / real (scaled_den 1 (- e)) = double_value m e"
  using scaled_ratio [of m "- e" 1] by (simp add: double_value_def)

lemma rounded_exact:
  assumes "double_value m e = real i"
  shows "rounded_bigint (Finite False m e) = Inr (int i)"
proof -
  let ?a = "scaled_num m (- e)" let ?b = "scaled_den 1 (- e)"
  have "real ?a = real i * real ?b" using scaled_value [of m e] scaled_den_pos [of 1 "- e"] by (simp add: assms field_simps)
  then have "real ?a = real (i * ?b)" by simp
  then have "?a = i * ?b" by (simp only: of_nat_eq_iff)
  then have a: "int ?a = int i * int ?b" by simp
  have h: "(2 * (int i * x) + x) div (2 * x) = int i" if "0 < x" for x :: int
    using div_mult_self1 [of "2 * x" x "int i"] that by (simp add: algebra_simps)
  have "(2 * int ?a + int ?b) div (2 * int ?b) = int i" unfolding a by (rule h) simp
  then show ?thesis unfolding rounded_bigint_def Let_def by (simp only: jsnum.case if_False)
qed

lemma times_value: "real (scaled_num (m * n) (- (d + e))) / real (scaled_den 1 (- (d + e))) = double_value m d * double_value n e"
  using scaled_value [of "m * n" "d + e"] by (simp add: double_value_def powr_add)

lemma div_value:
  "real (scaled_num m (e - d)) / real (scaled_den n (e - d)) = double_value m d / double_value n e"
  using scaled_ratio [of m "e - d" n] by (simp add: double_value_def powr_diff)

section \<open>What is shown\<close>

lemma round_half_up_close:
  assumes "0 < b"
  shows "\<bar>real (round_half_up a b) - real a / real b\<bar> \<le> 1 / 2"
proof -
  let ?n = "round_half_up a b"
  have "?n * (2 * b) \<le> 2 * a + b" "2 * a + b < (?n + 1) * (2 * b)"
    using assms dividend_less_div_times [of "2 * b" "2 * a + b"] by (simp_all add: round_half_up_def)
  then have "real (?n * (2 * b)) \<le> real (2 * a + b)" "real (2 * a + b) < real ((?n + 1) * (2 * b))"
    by (simp_all only: of_nat_le_iff of_nat_less_iff)
  then have "real ?n \<le> real a / real b + 1 / 2" "real a / real b + 1 / 2 < real ?n + 1"
    using assms by (simp_all add: field_simps)
  then show ?thesis by linarith
qed

lemma to_fixed_close:
  assumes "double_value m e < 10 ^ 21"
  obtains n where "to_fixed (Finite neg m e) f = (if neg \<and> m \<noteq> 0 then [45] else []) @ fixed_text n f"
    "\<bar>real n / 10 ^ f - double_value m e\<bar> \<le> 1 / (2 * 10 ^ f)"
proof -
  have v: "real (scaled_num m (- e)) / real (scaled_den 1 (- e)) = double_value m e"
    using scaled_ratio [of m "- e" 1] by (simp add: double_value_def)
  have "\<not> 10 ^ 21 * scaled_den 1 (- e) \<le> scaled_num m (- e)"
    using scaled_le [of 1 "10 ^ 21" "- e" m] assms by (simp add: double_value_def)
  then have t: "to_fixed (Finite neg m e) f = (if neg \<and> m \<noteq> 0 then [45] else []) @
      fixed_text (round_half_up (scaled_num m (- e) * 10 ^ f) (scaled_den 1 (- e))) f"
    by (simp add: to_fixed_def)
  have "\<bar>real (round_half_up (scaled_num m (- e) * 10 ^ f) (scaled_den 1 (- e))) - double_value m e * 10 ^ f\<bar> \<le> 1 / 2"
    using round_half_up_close [of "scaled_den 1 (- e)" "scaled_num m (- e) * 10 ^ f"] by (simp add: v [symmetric])
  then have "\<bar>real (round_half_up (scaled_num m (- e) * 10 ^ f) (scaled_den 1 (- e))) / 10 ^ f - double_value m e\<bar> \<le> 1 / (2 * 10 ^ f)"
    by (simp add: abs_le_iff field_simps)
  with t show thesis by (rule that)
qed

text \<open>viem's \<^verbatim>\<open>formatUnits\<close>, as documented: the number divided by a power of ten, as a plain decimal.\<close>

definition formats_units :: "(int \<Rightarrow> nat \<Rightarrow> jsstr) \<Rightarrow> bool" where
  "formats_units fu \<longleftrightarrow> (\<forall>v d. 0 \<le> v \<longrightarrow> (\<exists>i f. i \<noteq> [] \<and> list_all is_digit (i @ f) \<and>
     fu v d = i @ (if f = [] then [] else 46 # f) \<and> dec_val (i @ f) * 10 ^ d = nat v * 10 ^ length f))"

lemma dot_not_space [simp]: "\<not> is_js_space 46"
  by (simp add: is_js_space_def)

lemma number_of_decimal:
  assumes "i \<noteq> []" "list_all is_digit (i @ f)"
  shows "number_of_string (i @ (if f = [] then [] else 46 # f)) = to_double False (dec_val (i @ f)) (10 ^ length f)"
proof -
  let ?s = "i @ (if f = [] then [] else 46 # f)"
  have dig: "is_digit c" if "c \<in> set (i @ f)" for c using assms(2) that by (auto simp: list_all_iff)
  then have nd: "46 \<notin> set i" by (fastforce simp: is_digit_def)
  have ne: "c \<notin> {69, 101}" if "c \<in> set ?s" for c
    using that dig by (fastforce simp: is_digit_def split: if_splits)
  have m: "takeWhile (\<lambda>c. c \<notin> {69, 101}) ?s = ?s" "dropWhile (\<lambda>c. c \<notin> {69, 101}) ?s = []"
    using ne by (simp_all only: takeWhile_eq_all_conv dropWhile_eq_Nil_conv) auto
  have t: "takeWhile (\<lambda>c. c \<noteq> 46) ?s = i" "drop 1 (dropWhile (\<lambda>c. c \<noteq> 46) ?s) = f"
    using nd by (auto simp: takeWhile_eq_all_conv dropWhile_eq_Nil_conv takeWhile_append dropWhile_append)
  have lit: "decimal_literal ?s = Some (dec_val (i @ f), 10 ^ length f)"
    using assms unfolding decimal_literal_def Let_def m t by simp
  have "is_digit c \<or> c = 46" if "c \<in> set ?s" for c using that dig by (auto split: if_splits)
  then have sp: "list_all (\<lambda>c. \<not> is_js_space c) ?s"
    unfolding list_all_iff by (metis digit_not_space dot_not_space)
  obtain c cs where s: "?s = c # cs" using assms(1) by (cases i) auto
  have c: "is_digit c" using dig s assms(1) by (cases i) auto
  have h: "cs = [] \<or> hd cs = 46 \<or> is_digit (hd cs)"
  proof (cases i)
    case (Cons a j)
    with s dig show ?thesis by (cases j) (auto split: if_splits)
  qed (use assms in simp)
  have k: "\<not> (c = 48 \<and> cs \<noteq> [] \<and> hd cs \<in> {120, 88, 111, 79, 98, 66})" using h by (auto simp: is_digit_def)
  have "signed_literal False (c # cs) = to_double False (dec_val (i @ f)) (10 ^ length f)"
    using lit c unfolding s by (simp add: signed_literal_def js_def is_digit_def)
  moreover have "trim (c # cs) = c # cs" using trim_no_space [OF sp] s by simp
  ultimately show ?thesis using c k unfolding s number_of_string_def by (auto simp: is_digit_def)
qed

lemma shown_close:
  assumes "formats_units fu" "0 \<le> v" "real_of_int v \<le> 10 ^ 20 * 10 ^ d" "d \<le> 255"
  obtains n where "to_fixed (number_of_string (fu v d)) dp = fixed_text n dp"
    "\<bar>real n / 10 ^ dp - v / 10 ^ d\<bar> \<le> 1 / (2 * 10 ^ dp) + v / 10 ^ d / 2 ^ 53"
proof -
  obtain i f where s: "i \<noteq> []" "list_all is_digit (i @ f)" "fu v d = i @ (if f = [] then [] else 46 # f)"
    "dec_val (i @ f) * 10 ^ d = nat v * 10 ^ length f"
    using assms(1,2) unfolding formats_units_def by meson
  let ?a = "dec_val (i @ f)" let ?b = "10 ^ length f :: nat"
  have "real (?a * 10 ^ d) = real (nat v * 10 ^ length f)" by (simp only: s(4))
  then have q: "real ?a / real ?b = v / 10 ^ d" using assms(2) by (simp add: field_simps)
  have num: "number_of_string (fu v d) = to_double False ?a ?b" unfolding s(3) by (rule number_of_decimal [OF s(1,2)])
  show thesis
  proof (cases "?a = 0")
    case True
    then have "v = 0" using q by simp
    have "to_fixed (number_of_string (fu v d)) dp = fixed_text 0 dp"
      using True num by (simp add: to_double_def to_fixed_def scaled_num_def scaled_den_def round_half_up_def)
    then show thesis using \<open>v = 0\<close> by (intro that [of 0]) simp_all
  next
    case False
    then have "v \<noteq> 0" using s(4) by auto
    then have "1 \<le> real_of_int v" using assms(2) by simp
    have hi: "v / 10 ^ d \<le> 10 ^ 20" using assms(3) by (simp add: divide_le_eq)
    have "(10 :: real) ^ d \<le> 10 ^ 255" using assms(4) by (intro power_increasing) simp_all
    then have "(1 :: real) / 10 ^ 255 \<le> v / 10 ^ d" using \<open>1 \<le> real_of_int v\<close> by (intro frac_le) simp_all
    moreover have "2 powr - 1022 \<le> (1 :: real) / 10 ^ 255"
      by (simp add: powr_minus_divide)
    ultimately have lo: "2 powr - 1022 \<le> v / 10 ^ d" by linarith
    have up: "v / 10 ^ d < 2 powr 1000" using hi by (rule le_less_trans) simp
    obtain m e where m: "to_double False ?a ?b = Finite False m e"
      "\<bar>double_value m e - v / 10 ^ d\<bar> \<le> v / 10 ^ d / 2 ^ 53"
      by (rule to_double_close [of ?a ?b False, unfolded q, OF _ _ lo up]) (use False in simp_all)
    have "double_value m e < 10 ^ 21" using m(2) hi by (auto simp: abs_le_iff)
    then obtain n where "to_fixed (Finite False m e) dp = fixed_text n dp"
      "\<bar>real n / 10 ^ dp - double_value m e\<bar> \<le> 1 / (2 * 10 ^ dp)"
      by (rule to_fixed_close [where neg = False and f = dp]) auto
    then show thesis using m num abs_triangle_ineq [of "real n / 10 ^ dp - double_value m e" "double_value m e - v / 10 ^ d"]
      by (intro that [of n]) simp_all
  qed
qed

end
