(* ===== verification/ChainScripts.thy ===== *)
theory ChainScripts
  imports Scripts JsNumber
begin

text \<open>
  The three scripts that drive the whole system against a live chain:
  \<^verbatim>\<open>create-demo-stream.ts\<close>, \<^verbatim>\<open>e2e-coston2.ts\<close> and \<^verbatim>\<open>test-settle.ts\<close>.  Each is its \<^verbatim>\<open>main\<close>, step
  by step, with every \<^verbatim>\<open>must\<close>.  The environment, the derivation of accounts and public keys and the
  random salts are arguments.  Rates go through doubles, as in the scripts.  Of the demo script's text about
  a lacking balance only the first word is kept.  Readings of the clock with no \<^verbatim>\<open>await\<close> between them are one reading.
\<close>

section \<open>Configuration\<close>

record keytools =
  kt_address :: "jsstr \<Rightarrow> jsstr result"
  kt_public :: "jsstr \<Rightarrow> jsstr result"

definition script_vault :: "(jsstr \<Rightarrow> jsstr option) \<Rightarrow> jsstr" where
  "script_vault env = env_or env ''STREAMVAULT_ADDRESS'' ''0xd235B90dc929f7B061EAefdE0C8f020B3Cff47D7''"

definition FXRP :: jsstr where
  "FXRP = js ''0x0b6a3645c240605887a5532109323a3e12273dc7''"

definition DEMO_RECIPIENT_KEY :: "viem \<Rightarrow> jsstr" where
  "DEMO_RECIPIENT_KEY V = v_keccak_bytes V (v_toBytes V (js ''stealthwage-demo-alice-v1''))"

definition SETTLE_AFTER_SECONDS :: nat where
  "SETTLE_AFTER_SECONDS = 45"

definition salt_of :: "viem \<Rightarrow> jsstr \<Rightarrow> jsstr" where
  "salt_of V s = v_keccak_bytes V (v_toBytes V s)"

definition need_env :: "(jsstr \<Rightarrow> jsstr option) \<Rightarrow> string \<Rightarrow> jsstr \<Rightarrow> ('w, jsstr) script" where
  "need_env env k msg =
     (case present (env (js k)) of
        None \<Rightarrow> s_bind (must False msg) (\<lambda>_. s_return [])
      | Some v \<Rightarrow> s_return v)"

section \<open>test-settle.ts\<close>

definition settle_terms :: "viem \<Rightarrow> jsstr \<Rightarrow> jsstr \<Rightarrow> int \<Rightarrow> int \<Rightarrow> stream_terms" where
  "settle_terms V employer recipient unit now_ms =
     \<lparr>t_employer = employer, t_recipient = recipient, t_token = FXRP,
      t_ratePerSecond = ratePerDayToScaled (unit sdiv 10), t_total = 100 * unit,
      t_startTime = now_ms div 1000, t_salt = salt_of V (js ''settle-test-'' @ js_of_int now_ms)\<rparr>"

text \<open>Step 1: create and fund; the stream's id.\<close>

definition settle_open ::
    "viem \<Rightarrow> tools \<Rightarrow> 'w node \<Rightarrow> string list \<Rightarrow> jsstr \<Rightarrow> jsstr result \<Rightarrow> stream_terms \<Rightarrow> int \<Rightarrow>
     ('w, int \<times> jsstr \<times> jsstr) script" where
  "settle_open V X N abi vault public terms amount =
     s_bind (s_result (encodeTerms V terms)) (\<lambda>termsHex.
     s_bind (s_result (commitTo V terms)) (\<lambda>commitment.
     s_bind (s_result public) (\<lambda>pubkey.
     s_bind (s_result (seal_hex X pubkey termsHex)) (\<lambda>sealed.
     s_bind (send_checked N vault abi ''createStream''
               [AHex (t_recipient terms), AHex FXRP, AHex commitment, ABig (t_startTime terms), AHex sealed]
               (\<lambda>_. js ''createStream reverted'')) (\<lambda>r1.
     s_bind (s_return (created_stream N (rc_logs r1))) (\<lambda>streamId.
     s_bind (must (streamId > 0) (js ''StreamCreated not found'')) (\<lambda>_.
     s_bind (send_tx N FXRP SETTLE_ERC20 ''approve'' [AHex vault, ABig amount]) (\<lambda>_.
     s_bind (send_checked N vault abi ''fund'' [ABig streamId, ABig amount] (\<lambda>_. js ''fund reverted'')) (\<lambda>_.
     s_return (streamId, commitment, sealed))))))))))"

text \<open>Step 2: the enclave's authorization to settle: the amount, the deadline, the signature.\<close>

definition settle_ask ::
    "viem \<Rightarrow> engine \<Rightarrow> 'w node \<Rightarrow> int \<Rightarrow> jsstr \<Rightarrow> int \<Rightarrow> jsstr \<Rightarrow> jsstr \<Rightarrow> ('w, int \<times> int \<times> jsstr) script" where
  "settle_ask V G N chainId vault streamId commitment sealed =
     s_bind (s_read (nd_now N)) (\<lambda>now_ms.
     s_bind (s_result (sign_challenge V (wl_sign (nd_wallet N)) chainId vault streamId commitment
               (settle_tag V) (now_ms div 1000))) (\<lambda>callerSignature.
     s_bind (s_read (nd_now N)) (\<lambda>posted_ms.
     s_bind (\<lambda>w. case nd_post N (settle_actionBody (js ''AUTH_SETTLE'') (request_json
               \<lparr>r_streamId = js_of_int streamId, r_vault = vault, r_chainId = js_of_int chainId,
                r_commitment = commitment, r_encryptedTerms = sealed,
                r_issuedAt = js_of_int (now_ms div 1000), r_callerSignature = callerSignature\<rparr>) posted_ms) w of
               (r, w1) \<Rightarrow> s_result (response_json G r) w1) (\<lambda>(_, body).
     s_bind (s_result (if body = JNull then Inl (type_error G) else Inr ())) (\<lambda>_.
     s_bind (must (status_is_1 body) (js ''enclave refused settle: '' @
               (case str_prop body (js ''log'') of None \<Rightarrow> js ''unknown'' | Some l \<Rightarrow> l))) (\<lambda>_.
     s_bind (s_result (data_json G body)) (\<lambda>auth.
     s_bind (s_result (need_big G auth ''cumulativeAccrued'')) (\<lambda>accrued.
     s_bind (s_result (need_big G auth ''deadline'')) (\<lambda>deadline.
     s_bind (s_result (need_str G auth ''signature'')) (\<lambda>signature.
     s_return (accrued, deadline, signature)))))))))))"

text \<open>Step 3: cancel, and check the split against the balances.\<close>

definition settle_cancel ::
    "'w node \<Rightarrow> string list \<Rightarrow> jsstr \<Rightarrow> jsstr \<Rightarrow> jsstr \<Rightarrow> int \<Rightarrow> int \<times> int \<Rightarrow> int \<Rightarrow> int \<times> int \<times> jsstr
       \<Rightarrow> ('w, unit) script" where
  "settle_cancel N abi vault employer recipient amount before streamId auth =
     (case auth of (accrued, deadline, signature) \<Rightarrow>
     s_bind (send_checked N vault abi ''cancelStream''
               [ABig streamId, ABig accrued, ABig deadline, AHex signature] (\<lambda>h. js ''cancelStream reverted ('' @ h @ js '')'')) (\<lambda>_.
     s_bind (s_bind (s_read (nd_balanceOf N FXRP employer)) s_result) (\<lambda>empAfter.
     s_bind (s_bind (s_read (nd_balanceOf N FXRP recipient)) s_result) (\<lambda>recAfter.
     s_bind (must ((empAfter - fst before) + (recAfter - snd before) = amount)
               (js ''split does not reconstruct the funded 1 FXRP'')) (\<lambda>_.
     s_bind (must (recAfter - snd before = accrued) (js ''recipient payment != enclave-signed accrual'')) (\<lambda>_.
     s_bind (s_bind (s_read (\<lambda>w. readStream (nd_rpc N w) streamId)) s_result) (\<lambda>st.
     must (oc_cancelled st) (js ''stream not marked cancelled''))))))))"

definition settle_main ::
    "viem \<Rightarrow> engine \<Rightarrow> tools \<Rightarrow> keytools \<Rightarrow> 'w node \<Rightarrow> string list \<Rightarrow> (jsstr \<Rightarrow> jsstr option) \<Rightarrow> int
       \<Rightarrow> ('w, unit) script" where
  "settle_main V G X K N abi env chainId =
     s_bind (need_env env ''DEPLOYMENT_PRIVATE_KEY'' (js ''DEPLOYMENT_PRIVATE_KEY not set (set -a; . ./.env; set +a)'')) (\<lambda>key.
     s_bind (need_env env ''TEE_ECIES_PRIVKEY'' (js ''TEE_ECIES_PRIVKEY not set'')) (\<lambda>eciesPriv.
     s_bind (s_result (kt_address K key)) (\<lambda>employer.
     s_bind (s_result (kt_address K (DEMO_RECIPIENT_KEY V))) (\<lambda>recipient.
     s_bind (s_bind (s_read (\<lambda>w. rpc_decimals (nd_rpc N w) FXRP)) s_result) (\<lambda>dec.
     s_bind (s_read (nd_now N)) (\<lambda>now_ms.
     s_bind (settle_open V X N abi (script_vault env) (kt_public K eciesPriv)
               (settle_terms V employer recipient (10 ^ dec) now_ms) (10 ^ dec)) (\<lambda>(streamId, commitment, sealed).
     s_bind (s_bind (s_read (nd_balanceOf N FXRP employer)) s_result) (\<lambda>empBefore.
     s_bind (s_bind (s_read (nd_balanceOf N FXRP recipient)) s_result) (\<lambda>recBefore.
     s_bind (\<lambda>w. (Inr (), nd_sleep N SETTLE_AFTER_SECONDS w)) (\<lambda>_.
     s_bind (settle_ask V G N chainId (script_vault env) streamId commitment sealed) (\<lambda>auth.
     settle_cancel N abi (script_vault env) employer recipient (10 ^ dec) (empBefore, recBefore) streamId auth)))))))))))"

section \<open>e2e-coston2.ts\<close>

definition e2e_token :: "(jsstr \<Rightarrow> jsstr option) \<Rightarrow> jsstr" where
  "e2e_token env = env_or env ''FXRP_ADDRESS'' ''0x0b6a3645c240605887a5532109323a3e12273dc7''"

text \<open>The terms are encoded directly.\<close>

definition rate_text :: "int \<Rightarrow> jsstr" where
  "rate_text perDay = to_fixed (num_div (number_of_int perDay) (number_of_int 86400)) 12"

definition e2e_terms ::
    "viem \<Rightarrow> jsstr \<Rightarrow> jsstr \<Rightarrow> jsstr \<Rightarrow> nat \<Rightarrow> int \<Rightarrow> jsstr \<Rightarrow> jsstr result" where
  "e2e_terms V employer recipient token dec startTime salt =
     (let perDay = 10 * 10 ^ dec in
      case toScaledRate (rate_text perDay) of
        Inl e \<Rightarrow> Inl e
      | Inr rate \<Rightarrow>
          v_encode V TERMS_ABI [AHex employer, AHex recipient, AHex token, ABig rate, ABig (perDay * 30),
            ABig startTime, AHex salt])"

text \<open>Steps 1 to 3: encrypt, create, check the stored commitment, fund.\<close>

definition e2e_open ::
    "tools \<Rightarrow> viem \<Rightarrow> 'w node \<Rightarrow> string list \<Rightarrow> jsstr \<Rightarrow> jsstr \<Rightarrow> jsstr \<Rightarrow> jsstr \<Rightarrow> int \<Rightarrow> int \<Rightarrow> jsstr
       \<Rightarrow> ('w, int \<times> jsstr \<times> jsstr) script" where
  "e2e_open X V N abi vault token recipient pubkey startTime fundAmount terms =
     s_bind (s_return (v_keccak_hex V terms)) (\<lambda>commitment.
     s_bind (s_result (seal_hex X pubkey terms)) (\<lambda>encryptedTerms.
     s_bind (send_checked N vault abi ''createStream''
               [AHex recipient, AHex token, AHex commitment, ABig startTime, AHex encryptedTerms]
               (\<lambda>h. js ''createStream reverted ('' @ h @ js '')'')) (\<lambda>r1.
     s_bind (s_return (created_stream N (rc_logs r1))) (\<lambda>streamId.
     s_bind (must (streamId > 0) (js ''StreamCreated event not found'')) (\<lambda>_.
     s_bind (s_bind (s_read (\<lambda>w. readStream (nd_rpc N w) streamId)) s_result) (\<lambda>stored.
     s_bind (must (to_lower (oc_commitment stored) = to_lower commitment) (js ''on-chain commitment mismatch'')) (\<lambda>_.
     s_bind (send_tx N token SCRIPT_ERC20 ''approve'' [AHex vault, ABig fundAmount]) (\<lambda>_.
     s_bind (send_checked N vault abi ''fund'' [ABig streamId, ABig fundAmount] (\<lambda>_. js ''fund reverted'')) (\<lambda>_.
     s_return (streamId, commitment, encryptedTerms))))))))))"

text \<open>Step 4: the authorization.\<close>

definition e2e_ask ::
    "viem \<Rightarrow> engine \<Rightarrow> 'w node \<Rightarrow> int \<Rightarrow> jsstr \<Rightarrow> int \<Rightarrow> jsstr \<Rightarrow> jsstr \<Rightarrow> ('w, int \<times> int \<times> jsstr) script" where
  "e2e_ask V G N chainId vault streamId commitment encryptedTerms =
     s_bind (s_read (nd_now N)) (\<lambda>now_ms.
     s_bind (s_result (sign_challenge V (wl_sign (nd_wallet N)) chainId vault streamId commitment
               (withdraw_tag V) (now_ms div 1000))) (\<lambda>callerSignature.
     s_bind (s_read (nd_now N)) (\<lambda>posted_ms.
     s_bind (s_result (e2e_buildActionBody (js ''STREAM'') (js ''AUTH_WITHDRAW'') (request_json
               \<lparr>r_streamId = js_of_int streamId, r_vault = vault, r_chainId = js_of_int chainId,
                r_commitment = commitment, r_encryptedTerms = encryptedTerms,
                r_issuedAt = js_of_int (now_ms div 1000), r_callerSignature = callerSignature\<rparr>) posted_ms)) (\<lambda>posted.
     s_bind (\<lambda>w. case nd_post N posted w of (r, w1) \<Rightarrow> s_result (response_json G r) w1) (\<lambda>(http, body).
     s_bind (must (200 \<le> http \<and> http \<le> 299) (js ''extension HTTP '' @ js_of_nat http)) (\<lambda>_.
     s_bind (s_result (if body = JNull then Inl (type_error G) else Inr ())) (\<lambda>_.
     s_bind (must (status_is_1 body) (js ''extension returned error: '' @
               (case str_prop body (js ''errorMessage'') of None \<Rightarrow> js ''unknown'' | Some m \<Rightarrow> m))) (\<lambda>_.
     s_bind (s_result (data_json G body)) (\<lambda>auth.
     s_bind (s_result (need_big G auth ''cumulativeAccrued'')) (\<lambda>accrued.
     s_bind (s_result (need_str G auth ''signature'')) (\<lambda>signature.
     s_bind (s_result (need_big G auth ''deadline'')) (\<lambda>deadline.
     s_return (accrued, deadline, signature)))))))))))))"

text \<open>Steps 5 and 6: withdraw, check the recipient's balance, reveal.\<close>

definition e2e_withdraw ::
    "'w node \<Rightarrow> string list \<Rightarrow> jsstr \<Rightarrow> jsstr \<Rightarrow> jsstr \<Rightarrow> int \<Rightarrow> jsstr \<Rightarrow> int \<times> int \<times> jsstr \<Rightarrow> ('w, unit) script" where
  "e2e_withdraw N abi vault token recipient streamId terms auth =
     (case auth of (accrued, deadline, signature) \<Rightarrow>
     s_bind (s_bind (s_read (nd_balanceOf N token recipient)) s_result) (\<lambda>before.
     s_bind (must (before = 0) (js ''fresh recipient should start at zero'')) (\<lambda>_.
     s_bind (send_checked N vault abi ''withdraw''
               [ABig streamId, ABig accrued, ABig deadline, AHex signature] (\<lambda>h. js ''withdraw reverted ('' @ h @ js '')'')) (\<lambda>_.
     s_bind (s_bind (s_read (nd_balanceOf N token recipient)) s_result) (\<lambda>after.
     s_bind (must (after = accrued) (js ''expected '' @ js_of_int accrued @ js '' got '' @ js_of_int after)) (\<lambda>_.
     s_bind (send_checked N vault abi ''revealTerms'' [ABig streamId, AHex terms] (\<lambda>_. js ''revealTerms reverted'')) (\<lambda>_.
     s_return ())))))))"

definition e2e_main ::
    "viem \<Rightarrow> engine \<Rightarrow> tools \<Rightarrow> keytools \<Rightarrow> 'w node \<Rightarrow> string list \<Rightarrow> (jsstr \<Rightarrow> jsstr option) \<Rightarrow> int \<Rightarrow>
     jsstr \<Rightarrow> jsstr \<Rightarrow> ('w, unit) script" where
  "e2e_main V G X K N abi env chainId fresh_key rnd =
     s_bind (need_env env ''DEPLOYMENT_PRIVATE_KEY'' (js ''DEPLOYMENT_PRIVATE_KEY not set (source .env)'')) (\<lambda>key.
     s_bind (need_env env ''TEE_ECIES_PRIVKEY'' (js ''TEE_ECIES_PRIVKEY not set (run: npm run tee-keys)'')) (\<lambda>eciesPriv.
     s_bind (s_result (kt_address K key)) (\<lambda>employer.
     s_bind (s_result (kt_address K fresh_key)) (\<lambda>recipient.
     s_bind (s_bind (s_read (\<lambda>w. readTokenMeta (nd_rpc N w) (e2e_token env))) s_result) (\<lambda>(dec, symbol).
     s_bind (s_read (nd_now N)) (\<lambda>now_ms.
     s_bind (s_result (e2e_terms V employer recipient (e2e_token env) dec (now_ms div 1000 - 3600)
               (salt_of V (js ''salt-'' @ js_of_int now_ms @ js ''-'' @ rnd)))) (\<lambda>terms.
     s_bind (s_result (kt_public K eciesPriv)) (\<lambda>pubkey.
     s_bind (e2e_open X V N abi (script_vault env) (e2e_token env) recipient pubkey (now_ms div 1000 - 3600)
               (5 * 10 ^ dec) terms) (\<lambda>(streamId, commitment, encryptedTerms).
     s_bind (e2e_ask V G N chainId (script_vault env) streamId commitment encryptedTerms) (\<lambda>auth.
     e2e_withdraw N abi (script_vault env) (e2e_token env) recipient streamId terms auth))))))))))"

section \<open>create-demo-stream.ts\<close>

definition demo_token :: "(jsstr \<Rightarrow> jsstr option) \<Rightarrow> jsstr" where
  "demo_token env = env_or env ''DEMO_TOKEN_ADDRESS'' ''0xc1a5b41512496b80903d1f32d6dea3a73212e71f''"

definition FUND_WHOLE :: int where
  "FUND_WHOLE = 8"

definition TOTAL_WHOLE :: int where
  "TOTAL_WHOLE = 100"

definition BACKDATE_DAYS :: int where
  "BACKDATE_DAYS = 3"

definition PER_DAY_WHOLE :: jsstr where
  "PER_DAY_WHOLE = js ''0.25''"

text \<open>\<^verbatim>\<open>BigInt(Math.round(Number(PER_DAY_WHOLE) * Number(unit)))\<close>\<close>

definition demo_per_day :: "nat \<Rightarrow> int result" where
  "demo_per_day dec = rounded_bigint (num_times (number_of_string PER_DAY_WHOLE) (number_of_int (10 ^ dec)))"

definition demo_script_terms :: "viem \<Rightarrow> jsstr \<Rightarrow> jsstr \<Rightarrow> jsstr \<Rightarrow> nat \<Rightarrow> int \<Rightarrow> stream_terms result" where
  "demo_script_terms V employer recipient token dec now_ms =
     (case demo_per_day dec of
        Inl e \<Rightarrow> Inl e
      | Inr perDayRaw \<Rightarrow> Inr
         \<lparr>t_employer = employer, t_recipient = recipient, t_token = token,
          t_ratePerSecond = ratePerDayToScaled perDayRaw, t_total = TOTAL_WHOLE * 10 ^ dec,
          t_startTime = now_ms div 1000 - BACKDATE_DAYS * 86400,
          t_salt = salt_of V (js ''stealthwage-demo-'' @ js_of_int now_ms)\<rparr>)"

text \<open>Create, fund, reveal; the id of the new stream.\<close>

definition demo_publish ::
    "viem \<Rightarrow> tools \<Rightarrow> 'w node \<Rightarrow> string list \<Rightarrow> jsstr \<Rightarrow> jsstr result \<Rightarrow> stream_terms \<Rightarrow> int \<Rightarrow> ('w, int) script" where
  "demo_publish V X N abi vault public terms fundAmount =
     s_bind (s_result (encodeTerms V terms)) (\<lambda>termsHex.
     s_bind (s_result (commitTo V terms)) (\<lambda>commitment.
     s_bind (s_result public) (\<lambda>pubkey.
     s_bind (s_result (seal_hex X pubkey termsHex)) (\<lambda>encryptedTerms.
     s_bind (send_checked N vault abi ''createStream''
               [AHex (t_recipient terms), AHex (t_token terms), AHex commitment, ABig (t_startTime terms),
                AHex encryptedTerms] (\<lambda>_. js ''createStream reverted'')) (\<lambda>r1.
     s_bind (s_return (created_stream N (rc_logs r1))) (\<lambda>streamId.
     s_bind (must (streamId > 0) (js ''StreamCreated not found'')) (\<lambda>_.
     s_bind (send_tx N (t_token terms) SCRIPT_ERC20 ''approve'' [AHex vault, ABig fundAmount]) (\<lambda>_.
     s_bind (send_checked N vault abi ''fund'' [ABig streamId, ABig fundAmount] (\<lambda>_. js ''fund reverted'')) (\<lambda>_.
     s_bind (send_checked N vault abi ''revealTerms'' [ABig streamId, AHex termsHex] (\<lambda>_. js ''revealTerms reverted'')) (\<lambda>_.
     s_return streamId))))))))))"

definition demo_main ::
    "viem \<Rightarrow> tools \<Rightarrow> keytools \<Rightarrow> 'w node \<Rightarrow> string list \<Rightarrow> (jsstr \<Rightarrow> jsstr option) \<Rightarrow> ('w, int) script" where
  "demo_main V X K N abi env =
     s_bind (need_env env ''DEPLOYMENT_PRIVATE_KEY'' (js ''DEPLOYMENT_PRIVATE_KEY not set (source .env)'')) (\<lambda>key.
     s_bind (need_env env ''TEE_ECIES_PRIVKEY'' (js ''TEE_ECIES_PRIVKEY not set (run: npm run tee-keys)'')) (\<lambda>eciesPriv.
     s_bind (s_result (kt_address K key)) (\<lambda>employer.
     s_bind (s_result (kt_address K (DEMO_RECIPIENT_KEY V))) (\<lambda>recipient.
     s_bind (s_bind (s_read (\<lambda>w. readTokenMeta (nd_rpc N w) (demo_token env))) s_result) (\<lambda>(dec, symbol).
     s_bind (s_bind (s_read (nd_balanceOf N (demo_token env) employer)) s_result) (\<lambda>balance.
     s_bind (must (balance \<ge> FUND_WHOLE * 10 ^ dec) (js ''need'')) (\<lambda>_.
     s_bind (s_read (nd_now N)) (\<lambda>now_ms.
     s_bind (s_result (demo_script_terms V employer recipient (demo_token env) dec now_ms)) (\<lambda>terms.
     demo_publish V X N abi (script_vault env) (kt_public K eciesPriv) terms (FUND_WHOLE * 10 ^ dec))))))))))"

end
