(* ===== verification/LiveChain.thy ===== *)
theory LiveChain
  imports ChainScripts ClientServer
begin

text \<open>
  A world for the scripts, put together from the models of the other theories: the vault contract, the
  test token at every token address, the extension's server, and a clock.  A transaction to the vault
  is a \<open>vault_call\<close> with the arguments the wallet was given, mined \<open>le_tick\<close> seconds after it is sent;
  one that would revert is refused when it is sent, as the gas estimate fails.  The logs of a receipt
  are the events the call emitted.
\<close>

section \<open>The world\<close>

record live_env =
  le_viem :: viem
  le_engine :: engine
  le_evm :: evm
  le_goodbye :: "jsstr \<Rightarrow> (jsstr \<times> jsstr) result"
  le_ecies :: jsstr
  le_signer :: jsstr
  le_me :: address
  le_sign :: "jsstr \<Rightarrow> jsstr result"
  le_vault :: address
  le_chain :: uint256
  le_decimals :: nat
  le_tick :: nat
  le_lost :: js_exn

record live =
  lv_vault :: vault
  lv_tokens :: mock_world
  lv_time :: nat
  lv_app :: app_state
  lv_receipt :: receipt

definition live_tx :: "live_env \<Rightarrow> live \<Rightarrow> txenv" where
  "live_tx L w = \<lparr>tx_sender = le_me L, tx_time = of_nat (lv_time w + le_tick L), tx_chain = le_chain L,
     tx_this = le_vault L\<rparr>"

section \<open>Transactions\<close>

definition big_arg :: "int \<Rightarrow> 'a::len word option" where
  "big_arg i = (if 0 \<le> i \<and> i < 2 ^ LENGTH('a) then Some (word_of_int i) else None)"

definition bytes_arg :: "jsstr \<Rightarrow> bytes option" where
  "bytes_arg h = (case hexToBytes (Some h) of Inl _ \<Rightarrow> None | Inr bs \<Rightarrow> Some bs)"

fun create_call :: "abi_value list \<Rightarrow> vcall option" where
  "create_call [AHex r, AHex t, AHex c, ABig st, AHex enc] =
     (case (hex_address r, hex_address t, hex_word 32 c, big_arg st, bytes_arg enc) of
        (Some r', Some t', Some c', Some st', Some enc') \<Rightarrow> Some (CCreateStream r' t' c' st' enc')
      | _ \<Rightarrow> None)"
| "create_call _ = None"

fun fund_call :: "abi_value list \<Rightarrow> vcall option" where
  "fund_call [ABig i, ABig n] =
     (case (big_arg i, big_arg n) of (Some i', Some n') \<Rightarrow> Some (CFund i' n') | _ \<Rightarrow> None)"
| "fund_call _ = None"

fun signed_call :: "(uint256 \<Rightarrow> uint256 \<Rightarrow> uint256 \<Rightarrow> bytes \<Rightarrow> vcall) \<Rightarrow> abi_value list \<Rightarrow> vcall option" where
  "signed_call f [ABig i, ABig a, ABig d, AHex sig] =
     (case (big_arg i, big_arg a, big_arg d, bytes_arg sig) of
        (Some i', Some a', Some d', Some sig') \<Rightarrow> Some (f i' a' d' sig')
      | _ \<Rightarrow> None)"
| "signed_call f _ = None"

fun reveal_call :: "abi_value list \<Rightarrow> vcall option" where
  "reveal_call [ABig i, AHex terms] =
     (case (big_arg i, bytes_arg terms) of (Some i', Some b) \<Rightarrow> Some (CRevealTerms i' b) | _ \<Rightarrow> None)"
| "reveal_call _ = None"

definition vcall_of :: "string \<Rightarrow> abi_value list \<Rightarrow> vcall option" where
  "vcall_of fn args =
     (if fn = ''createStream'' then create_call args
      else if fn = ''fund'' then fund_call args
      else if fn = ''withdraw'' then signed_call CWithdraw args
      else if fn = ''cancelStream'' then signed_call CCancelStream args
      else if fn = ''revealTerms'' then reveal_call args
      else None)"

fun approve_args :: "abi_value list \<Rightarrow> (address \<times> uint256) option" where
  "approve_args [AHex s, ABig n] =
     (case (hex_address s, big_arg n) of (Some s', Some n') \<Rightarrow> Some (s', n') | _ \<Rightarrow> None)"
| "approve_args _ = None"

definition event_log :: "live_env \<Rightarrow> event \<Rightarrow> tx_log" where
  "event_log L e =
     (addr_text (le_vault L),
      (case e of StreamCreated i a r t c st enc \<Rightarrow> [STREAM_CREATED_TOPIC, hex32 i, hex32 (ucast a), hex32 (ucast r)]
       | _ \<Rightarrow> [js ''0x'']), js ''0x'')"

fun created_log_id :: "tx_log \<Rightarrow> int option" where
  "created_log_id (addr, topics, data) =
     (case topics of
        t0 # t1 # _ \<Rightarrow>
          if t0 = STREAM_CREATED_TOPIC then (case to_bigint t1 of Inl _ \<Rightarrow> None | Inr i \<Rightarrow> Some i) else None
      | _ \<Rightarrow> None)"

definition mined :: "live_env \<Rightarrow> vault \<Rightarrow> mock_world \<Rightarrow> live \<Rightarrow> live" where
  "mined L v' t' w = w\<lparr>lv_vault := v', lv_tokens := t', lv_time := lv_time w + le_tick L,
     lv_receipt := \<lparr>rc_status = js ''success'',
       rc_logs = map (event_log L) (drop (length (v_events (lv_vault w))) (v_events v'))\<rparr>\<rparr>"

definition live_hash :: jsstr where
  "live_hash = js ''0x''"

definition live_write ::
    "live_env \<Rightarrow> jsstr \<Rightarrow> string list \<Rightarrow> string \<Rightarrow> abi_value list \<Rightarrow> live \<Rightarrow> jsstr result \<times> live" where
  "live_write L addr abi fn args w =
     (if fn \<notin> set abi then (Inl (Error (js ''AbiFunctionNotFoundError'')), w)
      else case hex_address addr of
        None \<Rightarrow> (Inl (Error (js ''InvalidAddressError'')), w)
      | Some a \<Rightarrow>
          if a = le_vault L then
            (case vcall_of fn args of
               None \<Rightarrow> (Inl (Error (js ''AbiEncodingError'')), w)
             | Some c \<Rightarrow>
                (case vault_call (le_evm L) mock_tokens (live_tx L w) c (lv_vault w, lv_tokens w) of
                   Inl _ \<Rightarrow> (Inl (Error (js ''execution reverted'')), w)
                 | Inr (v', t') \<Rightarrow> (Inr live_hash, mined L v' t' w)))
          else if fn = ''approve'' then
            (case approve_args args of
               None \<Rightarrow> (Inl (Error (js ''AbiEncodingError'')), w)
             | Some (s, n) \<Rightarrow>
                (case mock_approve (le_me L) s n (lv_tokens w a) of
                   None \<Rightarrow> (Inl (Error (js ''execution reverted'')), w)
                 | Some m \<Rightarrow> (Inr live_hash, mined L (lv_vault w) ((lv_tokens w)(a := m)) w)))
          else (Inl (Error (js ''execution reverted'')), w))"

section \<open>The node\<close>

definition live_stream_env :: "live_env \<Rightarrow> live \<Rightarrow> stream_env" where
  "live_stream_env L w = \<lparr>env_ecies = Some (le_ecies L), env_signer = Some (le_signer L),
     env_now_ms = int (lv_time w) * 1000\<rparr>"

definition live_post :: "live_env \<Rightarrow> jsstr \<Rightarrow> live \<Rightarrow> fetch_outcome \<times> live" where
  "live_post L body w =
     (let srv = app_server (le_viem L) (le_engine L) (le_goodbye L); env = live_stream_env L w in
      (post_to (le_engine L) srv env None (le_lost L) (lv_app w) body,
       w\<lparr>lv_app := snd (processAction (le_engine L) srv env body (lv_app w))\<rparr>))"

definition live_node :: "live_env \<Rightarrow> live node" where
  "live_node L =
     \<lparr>nd_wallet = \<lparr>wl_sign = le_sign L, wl_write = live_write L, wl_receipt = (\<lambda>_ w. Inr (lv_receipt w))\<rparr>,
      nd_rpc = (\<lambda>w. (vault_rpc (lv_vault w))\<lparr>rpc_decimals := \<lambda>_. Inr (le_decimals L), rpc_symbol := \<lambda>_. Inr (js ''FXRP'')\<rparr>),
      nd_balanceOf = (\<lambda>tok who w. case (hex_address tok, hex_address who) of
         (Some t, Some a) \<Rightarrow> Inr (uint (e_balanceOf (lv_tokens w t) a))
       | _ \<Rightarrow> Inl (Error (js ''InvalidAddressError''))),
      nd_created = created_log_id,
      nd_post = live_post L,
      nd_now = (\<lambda>w. int (lv_time w) * 1000),
      nd_sleep = (\<lambda>n w. w\<lparr>lv_time := lv_time w + n\<rparr>)\<rparr>"

section \<open>One transaction\<close>

lemma live_send:
  assumes "fn \<in> set abi" "hex_address addr = Some (le_vault L)" "vcall_of fn args = Some c"
    and "vault_call (le_evm L) mock_tokens (live_tx L w) c (lv_vault w, lv_tokens w) = Inr (v', t')"
  shows "send_tx (live_node L) addr abi fn args w = (Inr (live_hash, lv_receipt (mined L v' t' w)), mined L v' t' w)"
  using assms by (simp add: send_tx_def s_step_def write_wait_def live_node_def live_write_def)

lemma live_send_checked:
  assumes "fn \<in> set abi" "hex_address addr = Some (le_vault L)" "vcall_of fn args = Some c"
    and "vault_call (le_evm L) mock_tokens (live_tx L w) c (lv_vault w, lv_tokens w) = Inr (v', t')"
  shows "send_checked (live_node L) addr abi fn args msg w
    = (Inr (lv_receipt (mined L v' t' w)), mined L v' t' w)"
  unfolding send_checked_def s_bind_run [where m = "send_tx (live_node L) addr abi fn args", OF live_send [OF assms]]
  by (simp add: s_bind_def) (simp add: mined_def)

lemma live_approve:
  assumes "''approve'' \<in> set abi" "hex_address addr = Some tok" "tok \<noteq> le_vault L"
    and "hex_address spender = Some s" "0 \<le> n" "n < 2 ^ 256"
    and "w1 = mined L (lv_vault w) ((lv_tokens w)(tok := (lv_tokens w tok)\<lparr>e_allowance :=
       (e_allowance (lv_tokens w tok))(le_me L := (e_allowance (lv_tokens w tok) (le_me L))(s := word_of_int n))\<rparr>)) w"
  shows "send_tx (live_node L) addr abi ''approve'' [AHex spender, ABig n] w = (Inr (live_hash, lv_receipt w1), w1)"
  using assms
  by (simp add: send_tx_def s_step_def write_wait_def live_node_def live_write_def big_arg_def mock_approve_def)

section \<open>Calls of the vault that go through\<close>

lemma createStream_keeps:
  "createStream x r t c st enc v = Inr (i, v') \<Longrightarrow> v_entered v' = v_entered v"
  by (auto simp: createStream_def Let_def vault_upd_defs split: if_splits option.splits)

lemma fund_runs:
  assumes "v_entered v = 1" "s_employer (v_streams v i) \<noteq> 0" "\<not> s_cancelled (v_streams v i)" "n \<noteq> 0"
    and "unat (s_funded (v_streams v i)) + unat n < 2 ^ 128"
    and "t_transferFrom T (s_token (v_streams v i)) (tx_this x) (tx_sender x) (tx_this x) (ucast n) w = TokReturn True w' []"
  shows "\<exists>v'. fund E T x i n (v, w) = Inr (v', w') \<and> v_entered v' = 1 \<and> v_teeSigner v' = v_teeSigner v \<and>
    v_streams v' i = (v_streams v i)\<lparr>s_funded := s_funded (v_streams v i) + n\<rparr>"
  using assms
  by (simp add: fund_def nonReentrant_def fund_body_def after_call_def checked_add_def vault_upd_defs Let_def
      word_neq_0_conv)

lemma cancel_runs:
  fixes a :: uint256
  assumes "v_entered v = 1" "tx_sender x = s_employer (v_streams v i)" "\<not> s_cancelled (v_streams v i)"
    and "tx_time x \<le> d" "tee_signed E (SETTLE_TAG E) x v i a d sig"
    and "s_withdrawn (v_streams v i) = 0" "a \<le> ucast (s_funded (v_streams v i))"
    and "\<And>u. vault_pay E T x ''transfer failed'' (s_token (v_streams v i)) (s_recipient (v_streams v i)) a (u, w) = Inr (u, w1)"
    and "\<And>u. vault_pay E T x ''refund failed'' (s_token (v_streams v i)) (s_employer (v_streams v i))
      (ucast (s_funded (v_streams v i)) - a) (u, w1) = Inr (u, w2)"
  shows "\<exists>v'. cancelStream E T x i a d sig (v, w) = Inr (v', w2) \<and> s_cancelled (v_streams v' i)"
proof -
  have "checked_sub (ucast (s_funded (v_streams v i)) :: uint256) a = Some (ucast (s_funded (v_streams v i)) - a)"
    using assms(7) by (rule checked_sub_Some)
  moreover have "0 < a \<or> a = 0" using word_neq_0_conv [of a] by auto
  moreover have "a < ucast (s_funded (v_streams v i)) \<or> a = ucast (s_funded (v_streams v i))"
    using assms(7) by auto
  ultimately show ?thesis using assms(1-6,8,9)
    by (elim disjE) (simp_all add: cancelStream_def nonReentrant_def cancelStream_body_def checked_sub_Some
      tee_signed_def vault_upd_defs Let_def)
qed

lemma mock_pay:
  assumes "to \<noteq> tx_this x" "unat amt \<le> unat (e_balanceOf (w tok) (tx_this x))"
    and "unat (e_balanceOf (w tok) to) + unat amt < 2 ^ 256"
  shows "pay R mock_tokens x m tok to amt (v, w) = Inr (v, w(tok := (w tok)\<lparr>e_balanceOf :=
     (e_balanceOf (w tok))(tx_this x := e_balanceOf (w tok) (tx_this x) - amt, to := e_balanceOf (w tok) to + amt)\<rparr>))"
proof (cases "amt = 0")
  case True
  have "(w tok)\<lparr>e_balanceOf := (e_balanceOf (w tok))(tx_this x := e_balanceOf (w tok) (tx_this x), to := e_balanceOf (w tok) to)\<rparr> = w tok"
    by simp
  with True show ?thesis by (simp add: pay_def)
next
  case False
  with assms show ?thesis
    by (simp add: pay_def word_neq_0_conv [symmetric] mock_tokens_def mock_reply_def mock_transfer_def mock_move_def
        checked_add_def checked_sub_def word_le_nat_alt after_call_def Let_def)
qed

lemma mock_fund:
  assumes "from \<noteq> this" "unat amt \<le> unat (e_balanceOf (w tok) from)"
    and "e_allowance (w tok) from this = amt" "unat (e_balanceOf (w tok) this) + unat amt < 2 ^ 256"
  shows "\<exists>m. t_transferFrom mock_tokens tok this from this amt w = TokReturn True (w(tok := m)) [] \<and>
    e_balanceOf m = (e_balanceOf (w tok))(from := e_balanceOf (w tok) from - amt, this := e_balanceOf (w tok) this + amt)"
proof -
  have "\<exists>m. mock_transferFrom this from this amt (w tok) = Some m \<and>
    e_balanceOf m = (e_balanceOf (w tok))(from := e_balanceOf (w tok) from - amt, this := e_balanceOf (w tok) this + amt)"
    using assms
    by (simp add: mock_transferFrom_def mock_move_def checked_add_def checked_sub_def word_le_nat_alt Let_def)
  then obtain m where "mock_transferFrom this from this amt (w tok) = Some m"
    "e_balanceOf m = (e_balanceOf (w tok))(from := e_balanceOf (w tok) from - amt, this := e_balanceOf (w tok) this + amt)"
    by (elim exE conjE)
  then show ?thesis by (intro exI [of _ m]) (simp add: mock_tokens_def mock_reply_def)
qed

end
