(* ===== verification/LiveCalls.thy ===== *)
theory LiveCalls
  imports LiveChain
begin

text \<open>
  What each transaction of the scripts does in the world of \<open>LiveChain\<close>: opening a stream, approving and
  funding, cancelling, withdrawing and revealing, each as one step with its effect on the vault's storage, the
  balances and the clock.
\<close>

section \<open>Arguments and amounts\<close>

lemma big_arg_uint [simp]: "big_arg (uint (w :: 'a::len word)) = Some w"
  using unsigned_less [of w] by (simp add: big_arg_def)

lemma uint128_range: "0 \<le> uint (n :: uint128)" "uint n < 2 ^ 256"
proof -
  have "uint n < 2 ^ LENGTH(128)" by (rule unsigned_less)
  then show "uint n < 2 ^ 256" by simp
qed simp

lemma wide: "word_of_int (uint (n :: uint128)) = (ucast n :: uint256)"
  by (simp only: ucast_eq)

lemma big_arg_wide [simp]: "big_arg (uint (n :: uint128)) = Some (ucast n :: uint256)"
  using uint128_range [of n] by (simp add: big_arg_def wide)

lemma bytes_arg_hex [simp]: "bytes_arg (bytesToHex bs) = Some bs"
  by (simp add: bytes_arg_def)

lemma uint_add_fits:
  assumes "unat a + unat b < 2 ^ 256"
  shows "uint (a + b :: uint256) = uint a + uint b"
proof -
  have "unat (a + b) = unat a + unat b" using assms by (subst unat_add_lem [symmetric]) simp
  then show ?thesis by (metis uint_nat of_nat_add)
qed

lemma uint_sub_fits:
  assumes "unat (a :: uint256) \<le> unat (n :: uint128)"
  shows "uint (ucast n - a) = uint n - uint a" "unat (ucast n - a) = unat n - unat a"
proof -
  show "unat (ucast n - a) = unat n - unat a" using assms by (simp add: unat_sub word_le_nat_alt)
  then show "uint (ucast n - a) = uint n - uint a" by (metis uint_nat of_nat_diff assms)
qed

lemma div_le_self: "0 \<le> a \<Longrightarrow> 0 < b \<Longrightarrow> a div b \<le> (a :: int)"
  using zdiv_mono2 [of a 1 b] by simp

lemma uint_word_of_int_128: "0 \<le> a \<Longrightarrow> a < 2 ^ 128 \<Longrightarrow> uint (word_of_int a :: uint128) = a"
  by (subst unsigned_of_int) (simp add: take_bit_int_eq_self)

section \<open>Reads\<close>

lemma live_node_simps [simp]:
  "nd_now (live_node L) w = int (lv_time w) * 1000" "nd_post (live_node L) = live_post L"
  "nd_sleep (live_node L) n w = w\<lparr>lv_time := lv_time w + n\<rparr>" "nd_created (live_node L) = created_log_id"
  "rpc_decimals (nd_rpc (live_node L) w) a = Inr (le_decimals L)"
  "rpc_symbol (nd_rpc (live_node L) w) a = Inr (js ''FXRP'')"
  by (simp_all add: live_node_def)

lemma live_balance [simp]:
  "hex_address t = Some tok \<Longrightarrow> hex_address a = Some who \<Longrightarrow>
   nd_balanceOf (live_node L) t a w = Inr (uint (e_balanceOf (lv_tokens w tok) who))"
  by (simp add: live_node_def)

lemma live_readStream: "\<exists>s. readStream (nd_rpc (live_node L) w) (uint i) = Inr s \<and>
    oc_cancelled s = s_cancelled (v_streams (lv_vault w) i) \<and> oc_commitment s = hex32 (s_commitment (v_streams (lv_vault w) i))"
  by (simp add: live_node_def readStream_def vault_rpc_def Let_def)

section \<open>Opening and funding\<close>

lemma live_created:
  assumes "''createStream'' \<in> set abi" "hex_address addr = Some (le_vault L)"
    and "hex_address recipient = Some r" "hex_address token = Some tok" "r \<noteq> 0" "tok \<noteq> 0" "c \<noteq> 0"
    and "vault_ok (lv_vault w)" "v_nextStreamId (lv_vault w) = i" "i \<noteq> - 1"
  obtains v' where
    "\<And>msg. send_checked (live_node L) addr abi ''createStream''
       [AHex recipient, AHex token, AHex (hex32 c), ABig (uint (st :: uint64)), AHex (bytesToHex enc)] msg w
      = (Inr (lv_receipt (mined L v' (lv_tokens w) w)), mined L v' (lv_tokens w) w)"
    "created_stream (live_node L) (rc_logs (lv_receipt (mined L v' (lv_tokens w) w))) = uint i" "0 < uint i"
    "v_streams v' i = \<lparr>s_employer = le_me L, s_recipient = r, s_token = tok,
        s_commitment = c, s_funded = 0, s_withdrawn = 0, s_startTime = st, s_cancelled = False\<rparr>"
    "v_entered v' = v_entered (lv_vault w)" "v_teeSigner v' = v_teeSigner (lv_vault w)"
proof -
  obtain j v' where v': "createStream (live_tx L w) r tok c st enc (lv_vault w) = Inr (j, v')"
    using createStream_opens_parts(1) [OF assms(8)] assms(5-7,9,10) by blast
  note p = createStream_opens_parts(2) [OF assms(8), THEN mp, OF v']
  have j: "j = i" using p assms(9) by simp
  have call: "vault_call (le_evm L) mock_tokens (live_tx L w) (CCreateStream r tok c st enc) (lv_vault w, lv_tokens w)
      = Inr (v', lv_tokens w)" using v' by simp
  have "send_checked (live_node L) addr abi ''createStream''
       [AHex recipient, AHex token, AHex (hex32 c), ABig (uint st), AHex (bytesToHex enc)] msg w
      = (Inr (lv_receipt (mined L v' (lv_tokens w) w)), mined L v' (lv_tokens w) w)" for msg
    by (rule live_send_checked [OF assms(1,2) _ call]) (simp add: vcall_of_def assms(3,4))
  moreover have "created_stream (live_node L) (rc_logs (lv_receipt (mined L v' (lv_tokens w) w))) = uint i"
    using p j by (simp add: mined_def created_stream_def event_log_def)
  moreover have "0 < uint i" using assms(8,9) uint_0_iff [of i] uint_ge_0 [of i] by (simp add: vault_ok_def less_le)
  ultimately show thesis using that [of v'] p j createStream_keeps [OF v'] by (simp add: live_tx_def)
qed

text \<open>What funding does to the balances.\<close>

definition after_funding :: "live_env \<Rightarrow> uint128 \<Rightarrow> (address \<Rightarrow> uint256) \<Rightarrow> (address \<Rightarrow> uint256) \<Rightarrow> bool" where
  "after_funding L n bal bal' \<longleftrightarrow> unat (bal' (le_me L)) = unat (bal (le_me L)) - unat n \<and>
     unat (bal' (le_vault L)) = unat (bal (le_vault L)) + unat n \<and>
     (\<forall>a. a \<noteq> le_me L \<longrightarrow> a \<noteq> le_vault L \<longrightarrow> bal' a = bal a)"

lemma live_funded:
  assumes "''approve'' \<in> set tokabi" "''fund'' \<in> set abi" "hex_address addr = Some (le_vault L)"
    and "hex_address token = Some tok" "tok \<noteq> le_vault L" "le_me L \<noteq> le_vault L"
    and "v_entered (lv_vault w) = 1" "s = v_streams (lv_vault w) i" "s_employer s \<noteq> 0" "\<not> s_cancelled s" "s_token s = tok"
    and "s_funded s = 0" "(n :: uint128) \<noteq> 0"
    and "bal = e_balanceOf (lv_tokens w tok)" "unat n \<le> unat (bal (le_me L))" "unat (bal (le_vault L)) + unat n < 2 ^ 256"
  obtains rc w1 w2 v2 where
    "send_tx (live_node L) token tokabi ''approve'' [AHex addr, ABig (uint n)] w = (Inr rc, w1)"
    "\<And>msg. send_checked (live_node L) addr abi ''fund'' [ABig (uint i), ABig (uint n)] msg w1 = (Inr (lv_receipt w2), w2)"
    "lv_time w2 = lv_time w + 2 * le_tick L" "lv_vault w2 = v2" "v_entered v2 = 1"
    "v_teeSigner v2 = v_teeSigner (lv_vault w)" "v_streams v2 i = s\<lparr>s_funded := n\<rparr>"
    "after_funding L n bal (e_balanceOf (lv_tokens w2 tok))"
proof -
  define w1 where "w1 = mined L (lv_vault w) ((lv_tokens w)(tok := (lv_tokens w tok)\<lparr>e_allowance :=
       (e_allowance (lv_tokens w tok))(le_me L := (e_allowance (lv_tokens w tok) (le_me L))(le_vault L := word_of_int (uint n)))\<rparr>)) w"
  note ap = live_approve [OF assms(1,4,5,3) uint128_range w1_def]
  have w1: "lv_vault w1 = lv_vault w" "lv_time w1 = lv_time w + le_tick L"
    "e_balanceOf (lv_tokens w1 tok) = bal" "e_allowance (lv_tokens w1 tok) (le_me L) (le_vault L) = ucast n"
    using assms(14) by (simp_all add: w1_def mined_def wide)
  have un: "unat (ucast n :: uint256) = unat n" by (simp add: unsigned_ucast_eq take_bit_nat_eq_self)
  obtain m where m: "t_transferFrom mock_tokens tok (le_vault L) (le_me L) (le_vault L) (ucast n) (lv_tokens w1)
      = TokReturn True ((lv_tokens w1)(tok := m)) []"
    "e_balanceOf m = bal(le_me L := bal (le_me L) - ucast n, le_vault L := bal (le_vault L) + ucast n)"
    using mock_fund [OF assms(6), of "ucast n" "lv_tokens w1" tok] w1(3,4) assms(15,16) un by auto
  have "\<exists>v2. fund (le_evm L) mock_tokens (live_tx L w1) i n (lv_vault w1, lv_tokens w1) = Inr (v2, (lv_tokens w1)(tok := m)) \<and>
    v_entered v2 = 1 \<and> v_teeSigner v2 = v_teeSigner (lv_vault w1) \<and>
    v_streams v2 i = (v_streams (lv_vault w1) i)\<lparr>s_funded := s_funded (v_streams (lv_vault w1) i) + n\<rparr>"
    using assms(7-13) w1(1) m(1) unsigned_less [of n] by (intro fund_runs) (simp_all add: live_tx_def)
  then obtain v2 where v2: "fund (le_evm L) mock_tokens (live_tx L w1) i n (lv_vault w1, lv_tokens w1) = Inr (v2, (lv_tokens w1)(tok := m))"
    "v_entered v2 = 1" "v_teeSigner v2 = v_teeSigner (lv_vault w1)"
    "v_streams v2 i = (v_streams (lv_vault w1) i)\<lparr>s_funded := s_funded (v_streams (lv_vault w1) i) + n\<rparr>"
    by (elim exE conjE)
  define w2 where "w2 = mined L v2 ((lv_tokens w1)(tok := m)) w1"
  have "send_checked (live_node L) addr abi ''fund'' [ABig (uint i), ABig (uint n)] msg w1 = (Inr (lv_receipt w2), w2)" for msg
    unfolding w2_def by (rule live_send_checked [OF assms(2,3), where c = "CFund i n"]) (simp_all add: vcall_of_def v2(1))
  moreover have "after_funding L n bal (e_balanceOf m)"
  proof -
    have "unat (bal (le_vault L) + ucast n) = unat (bal (le_vault L)) + unat (ucast n :: uint256)"
      using assms(16) un by (subst unat_add_lem [symmetric]) simp
    moreover have "unat (bal (le_me L) - ucast n) = unat (bal (le_me L)) - unat (ucast n :: uint256)"
      using assms(15) un by (intro unat_sub) (simp add: word_le_nat_alt)
    ultimately show ?thesis using assms(6) un by (simp add: after_funding_def m(2))
  qed
  ultimately show thesis
    using ap v2 m(2) w1 assms(8,12) by (intro that [of "(live_hash, lv_receipt w1)" w1 w2 v2]) (simp_all add: w2_def mined_def)
qed

section \<open>Settling\<close>

lemma live_cancelled:
  fixes A :: uint256
  assumes "hex_address addr = Some (le_vault L)" "''cancelStream'' \<in> set abi"
    and "v_entered (lv_vault w) = 1" "v_streams (lv_vault w) i = s" "s_employer s = le_me L" "s_recipient s = r"
    and "s_token s = tok" "s_funded s = n" "s_withdrawn s = 0" "\<not> s_cancelled s"
    and "recoverEthSigned (le_evm L) (auth_digest (le_evm L) (SETTLE_TAG (le_evm L)) (le_chain L) (le_vault L) i
       (s_commitment s) A D) sig = Inr (v_teeSigner (lv_vault w))"
    and "unat A \<le> unat n" "unat (of_nat (lv_time w + le_tick L) :: uint256) \<le> unat D"
    and "r \<noteq> le_vault L" "le_me L \<noteq> le_vault L" "r \<noteq> le_me L"
    and "bal = e_balanceOf (lv_tokens w tok)" "unat n \<le> unat (bal (le_vault L))"
    and "unat (bal r) + unat n < 2 ^ 256" "unat (bal (le_me L)) + unat n < 2 ^ 256"
  obtains w2 where
    "\<And>msg. send_checked (live_node L) addr abi ''cancelStream'' [ABig (uint i), ABig (uint A), ABig (uint D), AHex (bytesToHex sig)] msg w
       = (Inr (lv_receipt w2), w2)"
    "uint (e_balanceOf (lv_tokens w2 tok) r) = uint (bal r) + uint A"
    "uint (e_balanceOf (lv_tokens w2 tok) (le_me L)) = uint (bal (le_me L)) + (uint n - uint A)"
    "s_cancelled (v_streams (lv_vault w2) i)"
proof -
  let ?x = "live_tx L w" let ?E = "le_evm L" let ?v = "lv_vault w" let ?t = "lv_tokens w"
  let ?R = "ucast n - A :: uint256"
  note R = uint_sub_fits [OF assms(12)]
  define t1 where "t1 = ?t(tok := (?t tok)\<lparr>e_balanceOf := bal(le_vault L := bal (le_vault L) - A, r := bal r + A)\<rparr>)"
  define t2 where "t2 = t1(tok := (t1 tok)\<lparr>e_balanceOf := (e_balanceOf (t1 tok))(le_vault L := bal (le_vault L) - A - ?R,
      le_me L := bal (le_me L) + ?R)\<rparr>)"
  have b1: "e_balanceOf (t1 tok) = bal(le_vault L := bal (le_vault L) - A, r := bal r + A)" by (simp add: t1_def)
  have x: "tx_this ?x = le_vault L" "tx_sender ?x = le_me L" "tx_chain ?x = le_chain L"
    "tx_time ?x = of_nat (lv_time w + le_tick L)" by (simp_all add: live_tx_def)
  have Av: "unat A \<le> unat (bal (le_vault L))" using assms(12,18) by linarith
  have p1: "vault_pay ?E mock_tokens ?x ''transfer failed'' tok r A (u, ?t) = Inr (u, t1)" for u
    using mock_pay [of r ?x A ?t tok] assms(12,14,17,19) Av by (simp add: x t1_def)
  have sv: "unat (bal (le_vault L) - A) = unat (bal (le_vault L)) - unat A" using Av by (simp add: unat_sub word_le_nat_alt)
  have p2: "vault_pay ?E mock_tokens ?x ''refund failed'' tok (le_me L) ?R (u, t1) = Inr (u, t2)" for u
    using mock_pay [of "le_me L" ?x ?R t1 tok] assms(12,14-16,18,20) R sv by (simp add: x b1 t2_def)
  have "\<exists>v'. cancelStream ?E mock_tokens ?x i A D sig (?v, ?t) = Inr (v', t2) \<and> s_cancelled (v_streams v' i)"
    using assms(3-13) p1 p2 by (intro cancel_runs) (simp_all add: x tee_signed_def word_le_nat_alt)
  then obtain v' where v': "cancelStream ?E mock_tokens ?x i A D sig (?v, ?t) = Inr (v', t2)" "s_cancelled (v_streams v' i)"
    by (elim exE conjE)
  define w2 where "w2 = mined L v' t2 w"
  have "send_checked (live_node L) addr abi ''cancelStream'' [ABig (uint i), ABig (uint A), ABig (uint D), AHex (bytesToHex sig)] msg w
       = (Inr (lv_receipt w2), w2)" for msg
    unfolding w2_def by (rule live_send_checked [OF assms(2,1), where c = "CCancelStream i A D sig"]) (simp_all add: vcall_of_def v'(1))
  moreover have "uint (bal (le_me L) + ?R) = uint (bal (le_me L)) + uint ?R"
    using assms(20) R by (intro uint_add_fits) simp
  moreover note R(1)
  moreover have "uint (bal r + A) = uint (bal r) + uint A"
    using assms(12,19) by (intro uint_add_fits) simp
  ultimately show thesis
    using v'(2) assms(14-16) by (intro that [of w2]) (simp_all add: w2_def mined_def t2_def b1)
qed


section \<open>Withdrawing and revealing\<close>

lemma withdraw_runs:
  fixes a :: uint256
  assumes "v_entered v = 1" "s_employer (v_streams v i) \<noteq> 0" "\<not> s_cancelled (v_streams v i)"
    and "tx_time x \<le> d" "tee_signed E (WITHDRAW_TAG E) x v i a d sig"
    and "s_withdrawn (v_streams v i) = 0" "a \<le> ucast (s_funded (v_streams v i))" "0 < a"
    and "t_transfer T (s_token (v_streams v i)) (tx_this x) (s_recipient (v_streams v i)) a w = TokReturn True w' []"
  shows "\<exists>v'. withdraw E T x i a d sig (v, w) = Inr (v', w') \<and>
    s_employer (v_streams v' i) = s_employer (v_streams v i) \<and> s_commitment (v_streams v' i) = s_commitment (v_streams v i)"
proof -
  have "a < ucast (s_funded (v_streams v i)) \<or> a = ucast (s_funded (v_streams v i))"
    using assms(7) by auto
  then show ?thesis
    using assms(1-6,8,9)
    by (elim disjE) (simp_all add: withdraw_def nonReentrant_def withdraw_body_def checked_sub_def tee_signed_def
        after_call_def vault_upd_defs Let_def)
qed

lemma mock_transfer_runs:
  assumes "to \<noteq> this" "unat amt \<le> unat (e_balanceOf (w tok) this)" "unat (e_balanceOf (w tok) to) + unat amt < 2 ^ 256"
  obtains m where "t_transfer mock_tokens tok this to amt w = TokReturn True (w(tok := m)) []"
    "e_balanceOf m = (e_balanceOf (w tok))(this := e_balanceOf (w tok) this - amt, to := e_balanceOf (w tok) to + amt)"
proof -
  have "\<exists>m. mock_transfer this to amt (w tok) = Some m \<and>
    e_balanceOf m = (e_balanceOf (w tok))(this := e_balanceOf (w tok) this - amt, to := e_balanceOf (w tok) to + amt)"
    using assms by (simp add: mock_transfer_def mock_move_def checked_add_def checked_sub_def word_le_nat_alt Let_def)
  then obtain m where "mock_transfer this to amt (w tok) = Some m"
    "e_balanceOf m = (e_balanceOf (w tok))(this := e_balanceOf (w tok) this - amt, to := e_balanceOf (w tok) to + amt)"
    by (elim exE conjE)
  then show thesis by (intro that [of m]) (simp_all add: mock_tokens_def mock_reply_def)
qed

lemma live_withdrawn:
  fixes A :: uint256
  assumes "hex_address addr = Some (le_vault L)" "''withdraw'' \<in> set abi" "le_me L \<noteq> 0"
    and "v_entered (lv_vault w) = 1" "v_streams (lv_vault w) i = s" "s_employer s = le_me L" "s_recipient s = r"
    and "s_token s = tok" "s_funded s = n" "s_withdrawn s = 0" "\<not> s_cancelled s"
    and "recoverEthSigned (le_evm L) (auth_digest (le_evm L) (WITHDRAW_TAG (le_evm L)) (le_chain L) (le_vault L) i
       (s_commitment s) A D) sig = Inr (v_teeSigner (lv_vault w))"
    and "0 < A" "unat A \<le> unat n" "unat (of_nat (lv_time w + le_tick L) :: uint256) \<le> unat D"
    and "r \<noteq> le_vault L" "bal = e_balanceOf (lv_tokens w tok)" "unat n \<le> unat (bal (le_vault L))"
    and "unat (bal r) + unat n < 2 ^ 256"
  obtains w2 where
    "\<And>msg. send_checked (live_node L) addr abi ''withdraw'' [ABig (uint i), ABig (uint A), ABig (uint D), AHex (bytesToHex sig)] msg w
       = (Inr (lv_receipt w2), w2)"
    "uint (e_balanceOf (lv_tokens w2 tok) r) = uint (bal r) + uint A"
    "s_employer (v_streams (lv_vault w2) i) = le_me L" "s_commitment (v_streams (lv_vault w2) i) = s_commitment s"
proof -
  have x: "tx_this (live_tx L w) = le_vault L" "tx_chain (live_tx L w) = le_chain L"
    "tx_time (live_tx L w) = of_nat (lv_time w + le_tick L)" by (simp_all add: live_tx_def)
  have Av: "unat A \<le> unat (bal (le_vault L))" "unat (bal r) + unat A < 2 ^ 256" using assms(14,18,19) by linarith+
  obtain m where m: "t_transfer mock_tokens tok (le_vault L) r A (lv_tokens w) = TokReturn True ((lv_tokens w)(tok := m)) []"
    "e_balanceOf m = bal(le_vault L := bal (le_vault L) - A, r := bal r + A)"
    using mock_transfer_runs [of r "le_vault L" A "lv_tokens w" tok] Av assms(16,17) by auto
  have "\<exists>v'. withdraw (le_evm L) mock_tokens (live_tx L w) i A D sig (lv_vault w, lv_tokens w) = Inr (v', (lv_tokens w)(tok := m)) \<and>
    s_employer (v_streams v' i) = s_employer (v_streams (lv_vault w) i) \<and>
    s_commitment (v_streams v' i) = s_commitment (v_streams (lv_vault w) i)"
    using assms(3-15) m(1) by (intro withdraw_runs) (simp_all add: x tee_signed_def word_le_nat_alt)
  then obtain v' where v': "withdraw (le_evm L) mock_tokens (live_tx L w) i A D sig (lv_vault w, lv_tokens w) = Inr (v', (lv_tokens w)(tok := m))"
    "s_employer (v_streams v' i) = s_employer (v_streams (lv_vault w) i)"
    "s_commitment (v_streams v' i) = s_commitment (v_streams (lv_vault w) i)" by (elim exE conjE)
  define w2 where "w2 = mined L v' ((lv_tokens w)(tok := m)) w"
  have "send_checked (live_node L) addr abi ''withdraw'' [ABig (uint i), ABig (uint A), ABig (uint D), AHex (bytesToHex sig)] msg w
       = (Inr (lv_receipt w2), w2)" for msg
    unfolding w2_def by (rule live_send_checked [OF assms(2,1), where c = "CWithdraw i A D sig"]) (simp_all add: vcall_of_def v'(1))
  moreover have "uint (bal r + A) = uint (bal r) + uint A" by (rule uint_add_fits [OF Av(2)])
  ultimately show thesis using v'(2,3) assms(5,6) m(2) by (intro that [of w2]) (simp_all add: w2_def mined_def)
qed

lemma live_revealed:
  assumes "hex_address addr = Some (le_vault L)" "''revealTerms'' \<in> set abi"
    and "s_employer (v_streams (lv_vault w) i) \<noteq> 0" "s_commitment (v_streams (lv_vault w) i) = keccak (le_evm L) plain"
  obtains w2 where
    "\<And>msg. send_checked (live_node L) addr abi ''revealTerms'' [ABig (uint i), AHex (bytesToHex plain)] msg w
       = (Inr (lv_receipt w2), w2)"
proof -
  obtain v' where v': "revealTerms (le_evm L) i plain (lv_vault w) = Inr v'"
    using assms(3,4) by (simp add: revealTerms_def Let_def)
  have "send_checked (live_node L) addr abi ''revealTerms'' [ABig (uint i), AHex (bytesToHex plain)] msg w
       = (Inr (lv_receipt (mined L v' (lv_tokens w) w)), mined L v' (lv_tokens w) w)" for msg
    by (rule live_send_checked [OF assms(2,1), where c = "CRevealTerms i plain"]) (simp_all add: vcall_of_def v')
  then show thesis by (rule that)
qed

end
