(* ===== verification/ScriptSteps.thy ===== *)
theory ScriptSteps
  imports LiveCalls PageTheorems
begin

text \<open>
  The steps that the chain scripts share, against the world of \<open>LiveChain\<close>: asking the enclave over HTTP, with
  what its answer is worth to the vault, and opening and funding a stream.
\<close>

section \<open>Asking the enclave\<close>

lemma sign_challenge_run:
  assumes "viem_abi V E" "hex_word 32 tag = Some tw" "v_isAddress V vault" "units_ok vault" "0 \<le> chainId" "chainId < 2 ^ 256"
    and "0 \<le> issuedAt" "issuedAt < 2 ^ 256" "signs_as V W caller" "units_ok enc"
  obtains req where
    "sign_challenge V (wl_sign W) chainId vault (uint (i :: uint256)) (hex32 c) tag issuedAt = Inr (r_callerSignature req)"
    "req = \<lparr>r_streamId = js_of_int (uint i), r_vault = vault, r_chainId = js_of_int chainId,
       r_commitment = hex32 c, r_encryptedTerms = enc, r_issuedAt = js_of_int issuedAt,
       r_callerSignature = r_callerSignature req\<rparr>"
    "request_ok req" "recover_caller V req tag issuedAt = Inr caller"
proof -
  obtain ch sg where ch: "buildCallerChallenge V \<lparr>c_chainId = chainId, c_vault = vault,
      c_streamId = uint i, c_commitment = hex32 c, c_purpose = tag, c_issuedAt = issuedAt\<rparr> = Inr ch"
    "wl_sign W ch = Inr sg" "units_ok sg"
    and rec: "\<And>req. r_chainId req = js_of_int chainId \<Longrightarrow> r_streamId req = js_of_int (uint i) \<Longrightarrow>
       r_vault req = vault \<Longrightarrow> r_commitment req = hex32 c \<Longrightarrow> r_callerSignature req = sg \<Longrightarrow>
       recover_caller V req tag issuedAt = Inr caller"
    using challenge_signed [OF assms(1,2,3,5-9)] by metis
  let ?req = "\<lparr>r_streamId = js_of_int (uint i), r_vault = vault, r_chainId = js_of_int chainId,
     r_commitment = hex32 c, r_encryptedTerms = enc, r_issuedAt = js_of_int issuedAt, r_callerSignature = sg\<rparr>"
  have "request_ok ?req"
    using assms(4,10) ch(3) by (simp add: request_ok_def ascii_units_ok ascii_js_of_int hex32_def ascii_bytesToHex)
  then show thesis using ch rec [of ?req] by (intro that [of ?req]) (simp_all add: sign_challenge_def)
qed

text \<open>The raw response, read by the scripts.\<close>

lemma live_post_reply:
  assumes "command_tag (le_viem L) command tag"
    and "authorize (le_viem L) (le_engine L) (live_stream_env L w) (JStr (json_to_hex (request_json req))) tag
      (authCount (lv_app w)) = (Inr x, n)"
  shows "live_post L (buildActionBody (js ''STREAM'') command (request_json req) now_ms) w =
    (Inr (200, json_stringify (action_result VERSION
           (action_data (data_fixed (js ''STREAM'') command (request_json req) now_ms))
           (data_fixed (js ''STREAM'') command (request_json req) now_ms) x)), w\<lparr>lv_app := (lv_app w)\<lparr>authCount := n\<rparr>\<rparr>)"
proof -
  have st: "OP_TYPE_STREAM = js ''STREAM''" by (simp add: OP_TYPE_STREAM_def)
  have "plain_lookup (js ''STREAM'') command (app_regs (le_viem L) (le_engine L) (le_goodbye L))
      = Some (stream_handler (le_viem L) (le_engine L) tag)"
    using assms(1) plain_lookup_app by (auto simp: command_tag_def simp flip: st)
  moreover have "ident_ok (js ''STREAM'')" "ident_ok command"
    using assms(1) by (auto simp: command_tag_def simp flip: st)
  ultimately show ?thesis
    by (simp add: live_post_def post_client processAction_client [OF app_server_simps(1) app_regs_ok]
        stream_handler_def assms(2) send_def Let_def)
qed

lemma read_granted:
  assumes "json_ok (JObj ms)"
  shows "response_json G (Inr (200, json_stringify (action_result VERSION
           (action_data (data_fixed t c payload now)) (data_fixed t c payload now)
           (Some (json_to_hex (JObj ms)), 1, None))))
    = Inr (200, action_result VERSION (action_data (data_fixed t c payload now)) (data_fixed t c payload now)
           (Some (json_to_hex (JObj ms)), 1, None))"
    "status_is_1 (action_result VERSION (action_data (data_fixed t c payload now)) (data_fixed t c payload now)
           (Some (json_to_hex (JObj ms)), 1, None))"
    "action_result VERSION (action_data (data_fixed t c payload now)) (data_fixed t c payload now)
           (Some (json_to_hex (JObj ms)), 1, None) \<noteq> JNull"
    "data_json G (action_result VERSION (action_data (data_fixed t c payload now)) (data_fixed t c payload now)
           (Some (json_to_hex (JObj ms)), 1, None)) = Inr (JObj ms)"
proof -
  let ?r = "action_result VERSION (action_data (data_fixed t c payload now)) (data_fixed t c payload now)
    (Some (json_to_hex (JObj ms)), 1, None)"
  have "json_ok ?r"
    by (simp add: action_result_client log_of_def VERSION_def)
  then show "response_json G (Inr (200, json_stringify ?r)) = Inr (200, ?r)"
    by (simp add: response_json_def parse_stringify)
  show "status_is_1 ?r" "?r \<noteq> JNull"
    by (simp_all add: status_is_1_def action_result_client get_prop_def num_is_one_def)
  have "str_prop ?r (js ''data'') = Some (json_to_hex (JObj ms))"
    by (simp add: action_result_client str_prop_def get_prop_def)
  then show "data_json G ?r = Inr (JObj ms)"
    by (simp add: data_json_def json_to_hex_def utf8_stringify [OF assms] parse_stringify [OF assms] del: json_stringify.simps)
qed


lemma answer_fields:
  "need_big G (auth_response req a d sig t) ''cumulativeAccrued'' = Inr a"
  "need_big G (auth_response req a d sig t) ''deadline'' = Inr d"
  "need_str G (auth_response req a d sig t) ''signature'' = Inr sig"
  by (simp_all add: need_big_def need_str_def auth_response_def str_prop_def get_prop_def to_bigint_def)

text \<open>The enclave has its keys, and its signing key is that of the account \<open>signer\<close>; and the wallet of the
  scripts signs as the employer.\<close>

definition live_enclave :: "live_env \<Rightarrow> address \<Rightarrow> bool" where
  "live_enclave L signer \<longleftrightarrow> viem_abi (le_viem L) (le_evm L) \<and> le_ecies L \<noteq> [] \<and> le_signer L \<noteq> [] \<and>
     signs_for (le_viem L) (le_evm L) (le_signer L) signer"

definition live_ok :: "live_env \<Rightarrow> address \<Rightarrow> jsstr \<Rightarrow> bool" where
  "live_ok L signer employer \<longleftrightarrow> live_enclave L signer \<and>
     signs_as (le_viem L) (nd_wallet (live_node L)) employer"

lemma live_granted:
  assumes "live_enclave L signer" "signs_as (le_viem L) W caller" "tag = withdraw_tag (le_viem L) \<and> tw = WITHDRAW_TAG (le_evm L) \<or>
      tag = settle_tag (le_viem L) \<and> tw = SETTLE_TAG (le_evm L)"
    and "v_isAddress (le_viem L) vault" "units_ok vault" "hex_address vault = Some (le_vault L)"
    and "int (lv_time w) < 2 ^ 255" "ecies_decrypt (le_viem L) (le_ecies L) cipher = Inr plain"
    and "decodeTerms (le_viem L) (bytesToHex plain) = Inr terms"
    and "party (le_viem L) tag terms caller" "c = keccak (le_evm L) plain"
    and "t = int (lv_time w)" "a = accruedAt terms t"
  obtains req sig s where
    "sign_challenge (le_viem L) (wl_sign W) (uint (le_chain L)) vault (uint (i :: uint256))
       (hex32 c) tag t = Inr (r_callerSignature req)"
    "req = \<lparr>r_streamId = js_of_int (uint i), r_vault = vault, r_chainId = js_of_int (uint (le_chain L)),
       r_commitment = hex32 c, r_encryptedTerms = bytesToHex cipher, r_issuedAt = js_of_int t,
       r_callerSignature = r_callerSignature req\<rparr>"
    "json_ok (auth_response req a (t + 600) (bytesToHex sig) (bytesToHex plain))"
    "authorize (le_viem L) (le_engine L) (live_stream_env L w) (JStr (json_to_hex (request_json req))) tag (authCount (lv_app w))
      = (Inr (Some (json_to_hex (auth_response req a (t + 600) (bytesToHex sig) (bytesToHex plain))), 1, None), s)"
    "recoverEthSigned (le_evm L) (auth_digest (le_evm L) tw (le_chain L) (le_vault L) i c
       (word_of_int a) (word_of_int (t + 600))) sig = Inr signer"
proof -
  let ?V = "le_viem L" let ?E = "le_evm L"
  let ?env = "live_stream_env L w"
  note ok = assms(1) [unfolded live_enclave_def]
  have abi: "viem_abi ?V ?E" using ok by blast
  have tw: "hex_word 32 tag = Some tw" using assms(3) viem_abi.tag_words [OF abi] by auto
  have b: "0 \<le> uint (le_chain L)" "uint (le_chain L) < 2 ^ 256" using unsigned_less [of "le_chain L"] by simp_all
  obtain req where r: "sign_challenge ?V (wl_sign W) (uint (le_chain L)) vault (uint i) (hex32 c) tag t = Inr (r_callerSignature req)"
    "req = \<lparr>r_streamId = js_of_int (uint i), r_vault = vault, r_chainId = js_of_int (uint (le_chain L)),
       r_commitment = hex32 c, r_encryptedTerms = bytesToHex cipher, r_issuedAt = js_of_int t,
       r_callerSignature = r_callerSignature req\<rparr>"
    "request_ok req" "recover_caller ?V req tag t = Inr caller"
    using sign_challenge_run [OF abi tw assms(4,5) b, of t W caller "bytesToHex cipher" i c] assms(2,7,12)
    by (auto simp: ascii_units_ok ascii_bytesToHex)
  have now: "now_seconds ?env = t" using assms(12) by (simp add: now_seconds_def live_stream_env_def)
  have keys: "tee_keys ?env = Some (le_ecies L, le_signer L)"
    using ok by (simp add: tee_keys_def live_stream_env_def present_def split: list.split)
  have f: "r_streamId req = js_of_int (uint i)" "r_vault req = vault" "r_chainId req = js_of_int (uint (le_chain L))"
    "r_commitment req = hex32 c" "r_encryptedTerms req = bytesToHex cipher" "r_issuedAt req = js_of_int t"
    by (subst r(2), simp)+
  have sgn: "\<exists>sig. v_sign ?V (le_signer L) (hex32 h) = Inr sig" for h using ok unfolding signs_for_def by blast
  have t: "0 \<le> now_seconds ?env" "now_seconds ?env < 2 ^ 255" using now assms(7,12) by simp_all
  have k: "v_keccak_hex ?V (bytesToHex plain) = to_lower (r_commitment req)"
    using viem_abi.keccak_hex [OF abi] f(4) assms(11) by simp
  have h: "hexToBytes (Some (r_encryptedTerms req)) = Inr cipher" using f(5) by simp
  have tags: "tag = withdraw_tag ?V \<or> tag = settle_tag ?V" using assms(3) by blast
  have near: "\<bar>t - now_seconds ?env\<bar> \<le> 300" using now by simp
  from authorize_signs [OF abi r(3) keys h assms(8) k assms(9) f(6) near tags r(4) assms(10) t sgn, of "le_engine L" "authCount (lv_app w)"]
  obtain sg where g: "granted ?V (le_engine L) ?env (JStr (json_to_hex (request_json req))) tag req plain terms caller sg"
    and run: "authorize ?V (le_engine L) ?env (JStr (json_to_hex (request_json req))) tag (authCount (lv_app w)) =
     (Inr (Some (json_to_hex (auth_response req a (t + 600) sg (bytesToHex plain))), 1, None), authCount (lv_app w) + 1)"
    using now assms(13) by auto
  have q: "to_bigint (r_chainId req) = Inr (uint (le_chain L))" "hex_address (r_vault req) = Some (le_vault L)"
    "to_bigint (r_streamId req) = Inr (uint i)" "to_lower (r_commitment req) = hex32 c"
    using f assms(6) by (simp_all add: to_bigint_def hex32_def)
  have sf: "signs_for ?V ?E (le_signer L) signer" using ok by blast
  obtain sig where sig: "sg = bytesToHex sig"
    "recoverEthSigned ?E (auth_digest ?E tw (le_chain L) (le_vault L) i c
       (word_of_int (accruedAt terms (now_seconds ?env))) (word_of_int (now_seconds ?env + 600))) sig = Inr signer"
    using granted_signed [OF abi g assms(3) sf keys q t] by metis
  have "json_ok (auth_response req a (t + 600) (bytesToHex sig) (bytesToHex plain))"
    using r(3) by (simp add: auth_response_def request_ok_def ascii_units_ok ascii_js_of_int ascii_bytesToHex)
  then show thesis using that [OF r(1,2) _ run [unfolded sig(1)]] sig(2) now assms(13) by simp
qed

lemma auth_response_obj: "\<exists>ms. auth_response req a d sig t = JObj ms"
  by (simp add: auth_response_def)

lemma live_answer:
  assumes "authorize (le_viem L) (le_engine L) (live_stream_env L w) (JStr (json_to_hex (request_json req))) tag (authCount (lv_app w))
      = (Inr (Some (json_to_hex (auth_response req a d sig t)), 1, None), n)"
    and "command_tag (le_viem L) command tag" "json_ok (auth_response req a d sig t)"
  obtains s v where
    "live_post L (buildActionBody (js ''STREAM'') command (request_json req) now_ms) w = (Inr (200, json_stringify v), w\<lparr>lv_app := s\<rparr>)"
    "response_json G (Inr (200, json_stringify v)) = Inr (200, v)" "status_is_1 v" "v \<noteq> JNull"
    "data_json G v = Inr (auth_response req a d sig t)"
proof -
  obtain ms where ms: "auth_response req a d sig t = JObj ms" using auth_response_obj by blast
  from live_post_reply [OF assms(2,1), of now_ms] read_granted [OF assms(3) [unfolded ms]] that
  show thesis unfolding ms by blast
qed

lemma live_asked:
  assumes "live_ok L signer employer" "tag = withdraw_tag (le_viem L) \<and> tw = WITHDRAW_TAG (le_evm L) \<or>
      tag = settle_tag (le_viem L) \<and> tw = SETTLE_TAG (le_evm L)" "command_tag (le_viem L) command tag"
    and "v_isAddress (le_viem L) vault" "units_ok vault" "hex_address vault = Some (le_vault L)"
    and "int (lv_time w) < 2 ^ 255" "ecies_decrypt (le_viem L) (le_ecies L) cipher = Inr plain"
    and "decodeTerms (le_viem L) (bytesToHex plain) = Inr terms"
    and "to_lower employer = to_lower (t_employer terms)" "c = keccak (le_evm L) plain"
    and "t = int (lv_time w)" "a = accruedAt terms t"
  obtains req sig s v where
    "sign_challenge (le_viem L) (wl_sign (nd_wallet (live_node L))) (uint (le_chain L)) vault (uint (i :: uint256))
       (hex32 c) tag t = Inr (r_callerSignature req)"
    "req = \<lparr>r_streamId = js_of_int (uint i), r_vault = vault, r_chainId = js_of_int (uint (le_chain L)),
       r_commitment = hex32 c, r_encryptedTerms = bytesToHex cipher, r_issuedAt = js_of_int t,
       r_callerSignature = r_callerSignature req\<rparr>"
    "live_post L (buildActionBody (js ''STREAM'') command (request_json req) (int (lv_time w) * 1000)) w
      = (Inr (200, json_stringify v), w\<lparr>lv_app := s\<rparr>)"
    "response_json G (Inr (200, json_stringify v)) = Inr (200, v)" "status_is_1 v" "v \<noteq> JNull"
    "data_json G v = Inr (auth_response req a (t + 600) (bytesToHex sig) (bytesToHex plain))"
    "recoverEthSigned (le_evm L) (auth_digest (le_evm L) tw (le_chain L) (le_vault L) i c
       (word_of_int a) (word_of_int (t + 600))) sig = Inr signer"
proof -
  have ok: "live_enclave L signer" "signs_as (le_viem L) (nd_wallet (live_node L)) employer" "party (le_viem L) tag terms employer"
    using assms(1,10) by (simp_all add: live_ok_def party_def)
  show thesis
  proof (rule live_granted [OF ok(1,2) assms(2,4-9) ok(3) assms(11-13), of i])
    fix req sig n
    assume r: "sign_challenge (le_viem L) (wl_sign (nd_wallet (live_node L))) (uint (le_chain L)) vault (uint i)
         (hex32 c) tag t = Inr (r_callerSignature req)"
      "req = \<lparr>r_streamId = js_of_int (uint i), r_vault = vault, r_chainId = js_of_int (uint (le_chain L)),
         r_commitment = hex32 c, r_encryptedTerms = bytesToHex cipher, r_issuedAt = js_of_int t,
         r_callerSignature = r_callerSignature req\<rparr>"
      "json_ok (auth_response req a (t + 600) (bytesToHex sig) (bytesToHex plain))"
      "authorize (le_viem L) (le_engine L) (live_stream_env L w) (JStr (json_to_hex (request_json req))) tag (authCount (lv_app w))
        = (Inr (Some (json_to_hex (auth_response req a (t + 600) (bytesToHex sig) (bytesToHex plain))), 1, None), n)"
      "recoverEthSigned (le_evm L) (auth_digest (le_evm L) tw (le_chain L) (le_vault L) i c
         (word_of_int a) (word_of_int (t + 600))) sig = Inr signer"
    show thesis
      by (rule live_answer [OF r(4) assms(3) r(3), of "int (lv_time w) * 1000" G]) (rule that [OF r(1,2) _ _ _ _ _ r(5)])
  qed
qed

lemma settle_ask_granted:
  assumes "live_ok L signer employer" "v_isAddress (le_viem L) vault" "units_ok vault"
    and "hex_address vault = Some (le_vault L)" "int (lv_time w) < 2 ^ 255"
    and "ecies_decrypt (le_viem L) (le_ecies L) cipher = Inr plain"
    and "decodeTerms (le_viem L) (bytesToHex plain) = Inr terms"
    and "to_lower employer = to_lower (t_employer terms)" "c = keccak (le_evm L) plain"
    and "t = int (lv_time w)" "a = accruedAt terms t"
  obtains s sig where
    "settle_ask (le_viem L) G (live_node L) (uint (le_chain L)) vault (uint (i :: uint256)) (hex32 c) (bytesToHex cipher) w
      = (Inr (a, t + 600, bytesToHex sig), w\<lparr>lv_app := s\<rparr>)"
    "recoverEthSigned (le_evm L) (auth_digest (le_evm L) (SETTLE_TAG (le_evm L)) (le_chain L) (le_vault L) i c
       (word_of_int a) (word_of_int (t + 600))) sig = Inr signer"
proof (rule live_asked [OF assms(1) disjI2 _ assms(2-11), of "settle_tag (le_viem L)" "SETTLE_TAG (le_evm L)" "js ''AUTH_SETTLE''" i G])
  fix req sig s v
  assume r: "sign_challenge (le_viem L) (wl_sign (nd_wallet (live_node L))) (uint (le_chain L)) vault (uint i)
       (hex32 c) (settle_tag (le_viem L)) t = Inr (r_callerSignature req)"
    "req = \<lparr>r_streamId = js_of_int (uint i), r_vault = vault, r_chainId = js_of_int (uint (le_chain L)),
       r_commitment = hex32 c, r_encryptedTerms = bytesToHex cipher, r_issuedAt = js_of_int t,
       r_callerSignature = r_callerSignature req\<rparr>"
    and v: "live_post L (buildActionBody (js ''STREAM'') (js ''AUTH_SETTLE'') (request_json req) (int (lv_time w) * 1000)) w
      = (Inr (200, json_stringify v), w\<lparr>lv_app := s\<rparr>)"
    "response_json G (Inr (200, json_stringify v)) = Inr (200, v)" "status_is_1 v" "v \<noteq> JNull"
    "data_json G v = Inr (auth_response req a (t + 600) (bytesToHex sig) (bytesToHex plain))"
    and rec: "recoverEthSigned (le_evm L) (auth_digest (le_evm L) (SETTLE_TAG (le_evm L)) (le_chain L) (le_vault L) i c
       (word_of_int a) (word_of_int (t + 600))) sig = Inr signer"
  have "settle_ask (le_viem L) G (live_node L) (uint (le_chain L)) vault (uint i) (hex32 c) (bytesToHex cipher) w
      = (Inr (a, t + 600, bytesToHex sig), w\<lparr>lv_app := s\<rparr>)"
    using r(1) v r(2) [symmetric] assms(10) by (simp add: settle_ask_def s_bind_def settle_actionBody_client answer_fields)
  then show thesis using rec by (rule that)
qed (simp_all add: command_tag_def OP_COMMAND_AUTH_SETTLE_def OP_COMMAND_AUTH_WITHDRAW_def)

section \<open>Opening a stream\<close>

text \<open>Encryption to the enclave's public key, undone with its private key.\<close>

definition seals_to :: "tools \<Rightarrow> jsstr \<Rightarrow> viem \<Rightarrow> jsstr \<Rightarrow> bool" where
  "seals_to X pub V k \<longleftrightarrow> (\<forall>p. \<exists>c. tl_encrypt X pub p = Inr c \<and> ecies_decrypt V k c = Inr p)"

definition vault_ready :: "vault \<Rightarrow> bool" where
  "vault_ready v \<longleftrightarrow> vault_ok v \<and> v_nextStreamId v \<noteq> - 1 \<and> v_entered v = 1"

text \<open>The deployer can open a stream to \<open>r\<close> and fund it with \<open>n\<close> of the token at \<open>tok\<close>: the ABI and the
  addresses are right, the accounts are different ones, and no balance runs over.\<close>

definition can_open ::
    "live_env \<Rightarrow> string list \<Rightarrow> jsstr \<Rightarrow> jsstr \<Rightarrow> address \<Rightarrow> address \<Rightarrow> uint128 \<Rightarrow> live \<Rightarrow> bool" where
  "can_open L abi addr token tok r n w \<longleftrightarrow>
     {''createStream'', ''fund''} \<subseteq> set abi \<and> hex_address addr = Some (le_vault L) \<and>
     v_isAddress (le_viem L) token \<and> hex_address token = Some tok \<and>
     distinct [le_vault L, le_me L, r, 0] \<and> tok \<notin> {le_vault L, 0} \<and> vault_ready (lv_vault w) \<and> n \<noteq> 0 \<and>
     (let bal = e_balanceOf (lv_tokens w tok) in
      unat n \<le> unat (bal (le_me L)) \<and> unat (bal (le_vault L)) + unat n < 2 ^ 256 \<and> unat (bal r) + unat n < 2 ^ 256)"

text \<open>The world \<open>w2\<close> after a script has opened stream \<open>i\<close> in the world \<open>w\<close> and funded it with \<open>n\<close>.\<close>

definition opened ::
    "live_env \<Rightarrow> live \<Rightarrow> uint128 \<Rightarrow> address \<Rightarrow> address \<Rightarrow> uint256 \<Rightarrow> bytes \<Rightarrow> live \<Rightarrow> bool" where
  "opened L w n r tok i plain w2 \<longleftrightarrow>
     lv_time w2 = lv_time w + 3 * le_tick L \<and> v_entered (lv_vault w2) = 1 \<and>
     v_teeSigner (lv_vault w2) = v_teeSigner (lv_vault w) \<and>
     (let s = v_streams (lv_vault w2) i in s_employer s = le_me L \<and> s_recipient s = r \<and> s_token s = tok \<and>
        s_commitment s = keccak (le_evm L) plain \<and> s_funded s = n \<and> s_withdrawn s = 0 \<and> \<not> s_cancelled s) \<and>
     after_funding L n (e_balanceOf (lv_tokens w tok)) (e_balanceOf (lv_tokens w2 tok))"

lemma open_steps:
  assumes "viem_abi (le_viem L) (le_evm L)" "seals_to X pub (le_viem L) (le_ecies L)"
    and "plain_terms (le_viem L) terms" "commitTo (le_viem L) terms \<noteq> Inr (hex32 0)"
    and "can_open L abi addr (t_token terms) tok r n w" "hex_address (t_recipient terms) = Some r" "''approve'' \<in> set tokabi"
  obtains i cipher plain u w1 w1' w2 rc where
    "encodeTerms (le_viem L) terms = Inr (bytesToHex plain)"
    "commitTo (le_viem L) terms = Inr (hex32 (keccak (le_evm L) plain))"
    "tl_encrypt X pub plain = Inr cipher" "ecies_decrypt (le_viem L) (le_ecies L) cipher = Inr plain"
    "decodeTerms (le_viem L) (bytesToHex plain) = Inr u" "same_terms terms u"
    "\<And>msg. send_checked (live_node L) addr abi ''createStream'' [AHex (t_recipient terms), AHex (t_token terms),
       AHex (hex32 (keccak (le_evm L) plain)), ABig (t_startTime terms), AHex (bytesToHex cipher)] msg w
       = (Inr (lv_receipt w1), w1)"
    "created_stream (live_node L) (rc_logs (lv_receipt w1)) = uint i" "0 < uint i"
    "s_commitment (v_streams (lv_vault w1) i) = keccak (le_evm L) plain"
    "send_tx (live_node L) (t_token terms) tokabi ''approve'' [AHex addr, ABig (uint n)] w1 = (Inr rc, w1')"
    "\<And>msg. send_checked (live_node L) addr abi ''fund'' [ABig (uint i), ABig (uint n)] msg w1' = (Inr (lv_receipt w2), w2)"
    "opened L w n r tok i plain w2"
proof -
  let ?V = "le_viem L" let ?E = "le_evm L"
  have c: "''createStream'' \<in> set abi" "''fund'' \<in> set abi" "hex_address addr = Some (le_vault L)"
    "hex_address (t_token terms) = Some tok" "r \<noteq> 0" "tok \<noteq> 0" "tok \<noteq> le_vault L" "le_me L \<noteq> le_vault L" "le_me L \<noteq> 0"
    "vault_ok (lv_vault w)" "v_nextStreamId (lv_vault w) \<noteq> - 1" "v_entered (lv_vault w) = 1" "n \<noteq> 0"
    "unat n \<le> unat (e_balanceOf (lv_tokens w tok) (le_me L))"
    "unat (e_balanceOf (lv_tokens w tok) (le_vault L)) + unat n < 2 ^ 256"
    using assms(5) by (auto simp: can_open_def vault_ready_def Let_def)
  obtain ws where ws: "encodeTerms ?V terms = Inr (bytesToHex (abi_encode ws))"
    "commitTo ?V terms = Inr (hex32 (keccak ?E (abi_encode ws)))"
    using viem_abi.plain_words [OF assms(1,3)] by metis
  define plain where "plain = abi_encode ws"
  obtain u where u: "decodeTerms ?V (bytesToHex plain) = Inr u" "same_terms terms u"
    using viem_abi.terms_decode [OF assms(1) plain_terms_fit [OF assms(3)] ws(1)] unfolding plain_def by blast
  obtain cipher where cipher: "tl_encrypt X pub plain = Inr cipher" "ecies_decrypt ?V (le_ecies L) cipher = Inr plain"
    using assms(2) unfolding seals_to_def by blast
  have c0: "keccak ?E plain \<noteq> 0" using assms(4) ws(2) by (auto simp: plain_def)
  have st: "uint (word_of_int (t_startTime terms) :: uint64) = t_startTime terms"
    using assms(3) by (simp add: plain_terms_def terms_fit_def take_bit_int_eq_self unsigned_of_int)
  define i where "i = v_nextStreamId (lv_vault w)"
  obtain v1 where v1:
    "\<And>msg. send_checked (live_node L) addr abi ''createStream'' [AHex (t_recipient terms), AHex (t_token terms),
       AHex (hex32 (keccak ?E plain)), ABig (t_startTime terms), AHex (bytesToHex cipher)] msg w
      = (Inr (lv_receipt (mined L v1 (lv_tokens w) w)), mined L v1 (lv_tokens w) w)"
    "created_stream (live_node L) (rc_logs (lv_receipt (mined L v1 (lv_tokens w) w))) = uint i" "0 < uint i"
    "v_streams v1 i = \<lparr>s_employer = le_me L, s_recipient = r, s_token = tok, s_commitment = keccak ?E plain,
       s_funded = 0, s_withdrawn = 0, s_startTime = word_of_int (t_startTime terms), s_cancelled = False\<rparr>"
    "v_entered v1 = v_entered (lv_vault w)" "v_teeSigner v1 = v_teeSigner (lv_vault w)"
    using live_created [OF c(1,3) assms(6) c(4-6) c0 c(10) refl c(11), of "word_of_int (t_startTime terms)" cipher] st
    by (auto simp: i_def)
  define w1 where "w1 = mined L v1 (lv_tokens w) w"
  have w1: "lv_vault w1 = v1" "lv_tokens w1 = lv_tokens w" "lv_time w1 = lv_time w + le_tick L" by (simp_all add: w1_def mined_def)
  show thesis
  proof (rule live_funded [OF assms(7) c(2-4,7,8), of w1 "v_streams v1 i" i n "e_balanceOf (lv_tokens w tok)"])
    fix rc w1' w2 v2
    assume h: "send_tx (live_node L) (t_token terms) tokabi ''approve'' [AHex addr, ABig (uint n)] w1 = (Inr rc, w1')"
      "\<And>msg. send_checked (live_node L) addr abi ''fund'' [ABig (uint i), ABig (uint n)] msg w1' = (Inr (lv_receipt w2), w2)"
      "lv_time w2 = lv_time w1 + 2 * le_tick L" "lv_vault w2 = v2" "v_entered v2 = 1"
      "v_teeSigner v2 = v_teeSigner (lv_vault w1)" "v_streams v2 i = (v_streams v1 i)\<lparr>s_funded := n\<rparr>"
      "after_funding L n (e_balanceOf (lv_tokens w tok)) (e_balanceOf (lv_tokens w2 tok))"
    have "opened L w n r tok i plain w2"
      using h(3-) w1 v1(4-6) by (simp add: opened_def)
    then show thesis
      using that [OF _ _ cipher u _ _ v1(3) _ h(1,2)] ws v1 w1 by (simp add: plain_def w1_def)
  qed (use c w1 v1(4-6) in simp_all)
qed

section \<open>The accounts\<close>

text \<open>The accounts of a script: its two keys, the deployer's account and the recipient's, the enclave's
  public key, and the vault it was pointed at.\<close>

definition script_accounts ::
    "live_env \<Rightarrow> tools \<Rightarrow> keytools \<Rightarrow> (jsstr \<Rightarrow> jsstr option) \<Rightarrow> jsstr \<Rightarrow> jsstr \<Rightarrow> jsstr \<Rightarrow> bool" where
  "script_accounts L X K env recipient_key employer recipient \<longleftrightarrow>
     (\<exists>key priv pub. present (env (js ''DEPLOYMENT_PRIVATE_KEY'')) = Some key \<and>
        present (env (js ''TEE_ECIES_PRIVKEY'')) = Some priv \<and> kt_address K key = Inr employer \<and>
        kt_address K recipient_key = Inr recipient \<and> kt_public K priv = Inr pub \<and>
        seals_to X pub (le_viem L) (le_ecies L)) \<and>
     v_isAddress (le_viem L) employer \<and> v_isAddress (le_viem L) recipient \<and>
     hex_address employer = Some (le_me L) \<and>
     v_isAddress (le_viem L) (script_vault env) \<and> units_ok (script_vault env) \<and>
     hex_address (script_vault env) = Some (le_vault L)"

lemma need_env_run [simp]: "present (env (js k)) = Some v \<Longrightarrow> need_env env k m w = (Inr v, w)"
  by (simp add: need_env_def)


lemma deadline_word:
  assumes "int t \<le> d" "uint (D :: uint256) = d"
  shows "unat (of_nat t :: uint256) \<le> unat D"
proof -
  have "unat (of_nat t :: uint256) \<le> t" by (simp only: unat_of_nat mod_less_eq_dividend)
  also have "t \<le> unat D" unfolding unat_eq_nat_uint assms(2) using assms(1) by linarith
  finally show ?thesis .
qed

end
