(* ===== verification/JsDate.thy ===== *)
theory JsDate
  imports JsNumber
begin

text \<open>
  JavaScript's \<^verbatim>\<open>new Date(ms).toISOString()\<close>, with the specification's calendar: the day a year begins, the
  year of a day, the month by the table of cumulative days.  The year is found by an estimate that is off by
  at most one; \<open>year_from_day_correct\<close> states that it is the right one.
\<close>

section \<open>The calendar\<close>

definition day_from_year :: "int \<Rightarrow> int" where
  "day_from_year y = 365 * (y - 1970) + (y - 1969) div 4 - (y - 1901) div 100 + (y - 1601) div 400"

definition leap_year :: "int \<Rightarrow> bool" where
  "leap_year y \<longleftrightarrow> y mod 4 = 0 \<and> (y mod 100 \<noteq> 0 \<or> y mod 400 = 0)"

definition year_from_day :: "int \<Rightarrow> int" where
  "year_from_day d =
     (let y = 1970 + d * 400 div 146097 in
      if d < day_from_year y then y - 1 else if day_from_year (y + 1) \<le> d then y + 1 else y)"

definition month_lengths :: "bool \<Rightarrow> int list" where
  "month_lengths leap = [31, if leap then 29 else 28, 31, 30, 31, 30, 31, 31, 30, 31, 30, 31]"

text \<open>Month and day of the month, both from 1, of a day of the year from 0.\<close>

fun month_day :: "int list \<Rightarrow> int \<Rightarrow> int \<times> int" where
  "month_day (l # ls) d = (if d < l then (1, d + 1) else case month_day ls (d - l) of (m, k) \<Rightarrow> (m + 1, k))"
| "month_day [] d = (1, d + 1)"

lemma quot_bounds: "0 < (k :: int) \<Longrightarrow> \<exists>q r. x div k = q \<and> x = q * k + r \<and> 0 \<le> r \<and> r < k"
  by (intro exI [of _ "x div k"] exI [of _ "x mod k"]) simp

lemma day_from_year_estimate:
  "\<bar>400 * day_from_year y - 146097 * (y - 1970)\<bar> \<le> 700"
proof -
  obtain a r where a: "(y - 1969) div 4 = a" "y - 1969 = a * 4 + r" "0 \<le> r" "r < 4"
    using quot_bounds [of 4 "y - 1969"] by auto
  obtain b s where b: "(y - 1901) div 100 = b" "y - 1901 = b * 100 + s" "0 \<le> s" "s < 100"
    using quot_bounds [of 100 "y - 1901"] by auto
  obtain c t where c: "(y - 1601) div 400 = c" "y - 1601 = c * 400 + t" "0 \<le> t" "t < 400"
    using quot_bounds [of 400 "y - 1601"] by auto
  have "400 * a = 100 * (y - 1969 - r)" "400 * b = 4 * (y - 1901 - s)" "400 * c = y - 1601 - t" using a b c by simp_all
  then show ?thesis
    unfolding day_from_year_def a(1) b(1) c(1) abs_le_iff using a(3,4) b(3,4) c(3,4) by (simp add: algebra_simps)
qed

lemma year_from_day_correct: "day_from_year (year_from_day d) \<le> d \<and> d < day_from_year (year_from_day d + 1)"
proof -
  obtain q r where q: "d * 400 div 146097 = q" "d * 400 = q * 146097 + r" "0 \<le> r" "r < 146097"
    using quot_bounds [of 146097 "d * 400"] by auto
  let ?y = "1970 + q"
  have e: "400 * day_from_year y \<le> 146097 * (y - 1970) + 700" "146097 * (y - 1970) - 700 \<le> 400 * day_from_year y" for y
    using day_from_year_estimate [of y] by (simp_all add: abs_le_iff)
  have "400 * day_from_year (?y - 1) \<le> 400 * d" "400 * d < 400 * day_from_year (?y + 2)"
    using q(2-) e(1) [of "?y - 1"] e(2) [of "?y + 2"] by simp_all
  then have a: "day_from_year (?y - 1) \<le> d" "d < day_from_year (?y + 2)" by simp_all
  have y: "year_from_day d = (if d < day_from_year ?y then ?y - 1 else if day_from_year (?y + 1) \<le> d then ?y + 1 else ?y)"
    by (simp only: year_from_day_def Let_def q(1))
  show ?thesis unfolding y using a by (auto simp: add.assoc)
qed

section \<open>\<^verbatim>\<open>toISOString\<close>\<close>

definition pad_dec :: "nat \<Rightarrow> int \<Rightarrow> jsstr" where
  "pad_dec k n = (let s = dec_digits (nat n) in replicate (k - length s) 48 @ s)"

definition year_text :: "int \<Rightarrow> jsstr" where
  "year_text y = (if 0 \<le> y \<and> y \<le> 9999 then pad_dec 4 y else (if y < 0 then 45 else 43) # pad_dec 6 \<bar>y\<bar>)"

definition iso_text :: "int \<Rightarrow> jsstr" where
  "iso_text ms =
     (let d = ms div 86400000; t = ms mod 86400000; y = year_from_day d;
          (m, k) = month_day (month_lengths (leap_year y)) (d - day_from_year y)
      in year_text y @ [45] @ pad_dec 2 m @ [45] @ pad_dec 2 k @ js ''T'' @
         pad_dec 2 (t div 3600000) @ [58] @ pad_dec 2 (t div 60000 mod 60) @ [58] @ pad_dec 2 (t div 1000 mod 60) @
         [46] @ pad_dec 3 (t mod 1000) @ js ''Z'')"

text \<open>A time outside the range of dates is an invalid date, whose \<^verbatim>\<open>toISOString\<close> throws.\<close>

definition date_iso :: "jsnum \<Rightarrow> jsstr result" where
  "date_iso x =
     (case x of
        Finite neg m e \<Rightarrow>
          (let n = scaled_num m (- e) div scaled_den 1 (- e) in
           if 8640000000000000 * scaled_den 1 (- e) < scaled_num m (- e) then Inl (JsExn (js ''RangeError'') (js ''Invalid time value''))
           else Inr (iso_text (if neg then - int n else int n)))
      | _ \<Rightarrow> Inl (JsExn (js ''RangeError'') (js ''Invalid time value'')))"

text \<open>\<^verbatim>\<open>s.slice(0, 16).replace("T", " ")\<close>\<close>

definition minutes_part :: "jsstr \<Rightarrow> jsstr" where
  "minutes_part s =
     (let s16 = take 16 s; p = takeWhile (\<lambda>c. c \<noteq> 84) s16
      in if p = s16 then s16 else p @ 32 # drop (length p + 1) s16)"

text \<open>\<^verbatim>\<open>new Date(Number(t) * 1000).toISOString().slice(0, 16).replace("T", " ")\<close>\<close>

definition started_text :: "int \<Rightarrow> jsstr result" where
  "started_text t =
     (case date_iso (num_times (number_of_int t) (number_of_int 1000)) of
        Inl e \<Rightarrow> Inl e
      | Inr s \<Rightarrow> Inr (minutes_part s))"

section \<open>When a time is a date\<close>

lemma to_double_exact:
  assumes "n < 2 ^ 53" "0 < b"
  shows "\<exists>e \<le> 0. to_double neg (n * b) b = Finite neg (n * 2 ^ nat (- e)) e"
proof (cases "n = 0")
  case True
  then show ?thesis by (intro exI [of _ 0]) (simp add: to_double_def)
next
  case False
  let ?e = "double_exp (n * b) b"
  have q: "real (n * b) / real b = real n" using assms(2) by simp
  have r: "2 ^ 52 \<le> real n * 2 powr - real_of_int ?e" "real n * 2 powr - real_of_int ?e < 2 ^ 53"
    using double_exp_range [of "n * b" b] False assms(2) unfolding q by simp_all
  have n: "real n < 2 ^ 53" "1 \<le> real n" using assms(1) False by (simp_all add: of_nat_less_numeral_power_cancel_iff)
  have "?e \<le> 0"
  proof (rule ccontr)
    assume "\<not> ?e \<le> 0"
    then have "2 powr - real_of_int ?e \<le> 2 powr - 1" by (intro powr_mono) simp_all
    then have "real n * 2 powr - real_of_int ?e \<le> real n * (1 / 2)" by (intro mult_left_mono) (simp_all add: powr_minus_divide)
    with r(1) n(1) show False by simp
  qed
  have p: "2 powr - real_of_int ?e = 2 ^ nat (- ?e)" using \<open>?e \<le> 0\<close> powr_real_of_int [of 2 "- ?e"] by simp
  have "1 * 2 powr - real_of_int ?e \<le> real n * 2 powr - real_of_int ?e" using n(2) by (intro mult_right_mono) simp_all
  then have "2 powr - real_of_int ?e < 2 ^ 53" using r(2) by linarith
  then have "2 powr - real_of_int ?e < 2 powr 53" by simp
  then have "- real_of_int ?e < 53" by (rule powr_less_cancel) simp
  then have lo: "- 1074 \<le> ?e" by simp
  have "real (n * 2 ^ nat (- ?e)) < real (2 ^ 53)" using r(2) unfolding p by simp
  then have m: "n * 2 ^ nat (- ?e) < 2 ^ 53" by (simp only: of_nat_less_iff)
  have "scaled_num (n * b) ?e = n * 2 ^ nat (- ?e) * b" "scaled_den b ?e = b"
    using \<open>?e \<le> 0\<close> by (simp_all add: scaled_num_def scaled_den_def)
  then have "to_double neg (n * b) b = Finite neg (n * 2 ^ nat (- ?e)) ?e"
    using False assms(2) lo m \<open>?e \<le> 0\<close> by (simp add: to_double_def Let_def div_even_exact max_def del: power_numeral)
  with \<open>?e \<le> 0\<close> show ?thesis by blast
qed

lemma num_times_exact:
  assumes "m * n < 2 ^ 53" "d \<le> 0" "e \<le> 0"
  shows "\<exists>x \<le> 0. num_times (Finite s (m * 2 ^ nat (- d)) d) (Finite t (n * 2 ^ nat (- e)) e) = Finite (s \<noteq> t) (m * n * 2 ^ nat (- x)) x"
proof -
  have k: "nat (- d - e) = nat (- d) + nat (- e)" using assms(2,3) by (simp add: nat_add_distrib [symmetric])
  have "scaled_num (m * 2 ^ nat (- d) * (n * 2 ^ nat (- e))) (- (d + e)) = m * n * 2 ^ nat (- d - e)"
    "scaled_den 1 (- (d + e)) = 2 ^ nat (- d - e)"
    using assms(2,3) by (simp_all add: scaled_num_def scaled_den_def k power_add)
  then show ?thesis using to_double_exact [OF assms(1), of "2 ^ nat (- d - e)" "s \<noteq> t"] by (simp add: num_times_def)
qed

lemma date_iso_exact:
  assumes "e \<le> 0"
  shows "date_iso (Finite False (n * 2 ^ nat (- e)) e) =
    (if 8640000000000000 < n then Inl (JsExn (js ''RangeError'') (js ''Invalid time value'')) else Inr (iso_text (int n)))"
  using assms by (simp add: date_iso_def scaled_num_def scaled_den_def Let_def)

lemma started_text_date:
  assumes "0 \<le> t" "t \<le> 8640000000000"
  shows "started_text t = Inr (minutes_part (iso_text (t * 1000)))"
proof -
  have t: "nat t < 2 ^ 53" "nat t * 1000 < 2 ^ 53" using assms by (simp_all add: nat_less_iff)
  obtain d where d: "d \<le> 0" "to_double False (nat t) 1 = Finite False (nat t * 2 ^ nat (- d)) d"
    using to_double_exact [OF t(1), of 1 False] by auto
  obtain e where e: "e \<le> 0" "to_double False 1000 1 = Finite False (1000 * 2 ^ nat (- e)) e"
    using to_double_exact [of 1000 1 False] by auto
  obtain x where x: "x \<le> 0" "num_times (Finite False (nat t * 2 ^ nat (- d)) d) (Finite False (1000 * 2 ^ nat (- e)) e)
      = Finite False (nat t * 1000 * 2 ^ nat (- x)) x"
    using num_times_exact [OF t(2) d(1) e(1), of False False] by auto
  have "\<not> 8640000000000000 < nat t * 1000" "int (nat t * 1000) = t * 1000" using assms by auto
  then have "date_iso (Finite False (nat t * 1000 * 2 ^ nat (- x)) x) = Inr (iso_text (t * 1000))"
    unfolding date_iso_exact [OF x(1)] by simp
  then show ?thesis using assms d e x by (simp add: started_text_def number_of_int_def)
qed


lemma started_text_throws:
  assumes "8640000000000 < t" "t < 2 ^ 256"
  shows "started_text t = Inl (JsExn (js ''RangeError'') (js ''Invalid time value''))"
proof -
  have t: "8640000000001 \<le> real_of_int t" "real_of_int t < 2 ^ 256" "0 < nat t"
    using assms by simp_all
  have p1: "2 powr - 1022 \<le> (1 :: real)" "(2 :: real) ^ 300 < 2 powr 1000" by (simp_all add: powr_minus_divide)
  obtain m d where d: "to_double False (nat t) 1 = Finite False m d" "0 < m" "\<bar>double_value m d - t\<bar> \<le> t / 2 ^ 53"
    using to_double_close [of "nat t" 1 False] t p1 by auto
  obtain e where e: "e \<le> 0" "to_double False 1000 1 = Finite False (1000 * 2 ^ nat (- e)) e"
    using to_double_exact [of 1000 1 False] by auto
  let ?M = "1000 * 2 ^ nat (- e)" let ?a = "scaled_num (m * ?M) (- (d + e))" let ?b = "scaled_den 1 (- (d + e))"
  have z: "(2 :: real) ^ nat (- e) * 2 powr real_of_int e = 1"
  proof -
    have "2 powr - real_of_int e = 2 ^ nat (- e)" using e(1) powr_real_of_int [of 2 "- e"] by simp
    then show ?thesis by (metis add.left_inverse powr_add powr_zero_eq_one zero_neq_numeral)
  qed
  have "real ?a / real ?b = real (m * ?M) * 2 powr (real_of_int d + real_of_int e)"
    using scaled_ratio [of "m * ?M" "- (d + e)" 1] by (simp add: add.commute)
  also have "\<dots> = 1000 * double_value m d * (2 ^ nat (- e) * 2 powr real_of_int e)"
    by (simp add: double_value_def powr_add)
  finally have q: "real ?a / real ?b = 1000 * double_value m d" unfolding z by simp
  have "0 < ?a" using d(2) by (simp add: scaled_num_def)
  have v: "t - t / 2 ^ 53 \<le> double_value m d" "double_value m d \<le> t + t / 2 ^ 53" using d(3) unfolding abs_le_iff by linarith+
  have w: "1 \<le> 1000 * double_value m d" "1000 * double_value m d \<le> 2 ^ 300" using v t by simp_all
  note r = order_trans [OF p1(1) w(1)] le_less_trans [OF w(2) p1(2)]
  obtain k x where k: "to_double False ?a ?b = Finite False k x"
    "\<bar>double_value k x - 1000 * double_value m d\<bar> \<le> 1000 * double_value m d / 2 ^ 53"
    by (rule to_double_close [of ?a ?b False, unfolded q, OF \<open>0 < ?a\<close> _ r]) simp_all
  have mono: "c - c / 2 ^ 53 \<le> y - y / 2 ^ 53" if "c \<le> y" for c y :: real using that by simp
  have "8640000000000 + 1 / 2 \<le> (8640000000001 :: real) - 8640000000001 / 2 ^ 53" by simp
  then have m: "8640000000000500 \<le> 1000 * double_value m d" using mono [OF t(1)] v(1) by simp
  have "(8640000000000000 :: real) < 8640000000000500 - 8640000000000500 / 2 ^ 53" by simp
  also have "\<dots> \<le> double_value k x" using mono [OF m] k(2) unfolding abs_le_iff by linarith
  finally have "8640000000000000 < double_value k x" .
  then have "8640000000000000 * real (scaled_den 1 (- x)) < real (scaled_num k (- x))"
    using scaled_ratio [of k "- x" 1] pos_less_divide_eq [of "real (scaled_den 1 (- x))" 8640000000000000 "real (scaled_num k (- x))"]
    by (simp add: double_value_def)
  then have "real (8640000000000000 * scaled_den 1 (- x)) < real (scaled_num k (- x))" by simp
  then have "8640000000000000 * scaled_den 1 (- x) < scaled_num k (- x)" by (simp only: of_nat_less_iff)
  then have "date_iso (Finite False k x) = Inl (JsExn (js ''RangeError'') (js ''Invalid time value''))"
    by (simp add: date_iso_def Let_def)
  moreover have "num_times (Finite False m d) (Finite False ?M e) = Finite False k x" using k(1) by (simp add: num_times_def)
  ultimately show ?thesis using assms d(1) e(2) by (simp add: started_text_def number_of_int_def)
qed

end
