(* ===== verification/ScriptRate.thy ===== *)
theory ScriptRate
  imports ChainScripts JsDate Accrual
begin

text \<open>
  The daily rates of the scripts, which go through JavaScript's doubles: a quarter of a token is exact, and the
  text of ten tokens over a day's seconds is near enough.
\<close>

section \<open>The demo script\<close>

lemma power_ten: "(10 :: nat) ^ d = 5 ^ d * 2 ^ d"
  by (simp flip: power_mult_distrib)

text \<open>Up to \<open>10 ^ 22\<close> powers of ten are doubles.\<close>

lemma ten_double:
  assumes "d \<le> 22"
  obtains m e where "number_of_int (10 ^ d) = Finite False m e" "double_value m e = 10 ^ d"
proof -
  have "(5 :: nat) ^ d \<le> 5 ^ 22" using assms by (intro power_increasing) simp_all
  then have k: "(5 :: nat) ^ d < 2 ^ 53" by simp
  have v: "real (10 ^ d) / real 1 = double_value (5 ^ d) (int d)"
    by (simp add: double_value_def powr_realpow flip: power_mult_distrib)
  obtain m e where "to_double False (10 ^ d) 1 = Finite False m e" "double_value m e = double_value (5 ^ d) (int d)"
    by (rule to_double_dyadic [OF _ _ k v]) (use assms in simp_all)
  then show thesis using v by (intro that [of m e]) (simp_all add: number_of_int_def nat_power_eq)
qed

lemma quarter: 
  obtains m e where "number_of_string PER_DAY_WHOLE = Finite False m e" "double_value m e = 1 / 4"
proof -
  have n: "number_of_string PER_DAY_WHOLE = to_double False 25 100"
    using number_of_decimal [of "js ''0''" "js ''25''"] by (simp add: PER_DAY_WHOLE_def js_Cons is_digit_def dec_val_def)
  have v: "real 25 / real 100 = double_value 1 (- 2)" by (simp add: double_value_def powr_minus_divide)
  obtain m e where "to_double False 25 100 = Finite False m e" "double_value m e = double_value 1 (- 2)"
    by (rule to_double_dyadic [OF _ _ _ v]) simp_all
  then show thesis using n v by (intro that [of m e]) simp_all
qed

lemma demo_per_day_exact:
  assumes "2 \<le> dec" "dec \<le> 22"
  shows "\<exists>x. demo_per_day dec = Inr x \<and> x * 4 = 10 ^ dec"
proof -
  obtain k where k: "dec = k + 2" using assms(1) le_Suc_ex by (metis add.commute)
  let ?x = "25 * 10 ^ k :: nat"
  obtain m d where q: "number_of_string PER_DAY_WHOLE = Finite False m d" "double_value m d = 1 / 4" by (rule quarter)
  obtain n e where u: "number_of_int (10 ^ dec) = Finite False n e" "double_value n e = 10 ^ dec" by (rule ten_double [OF assms(2)])
  let ?a = "scaled_num (m * n) (- (d + e))" let ?b = "scaled_den 1 (- (d + e))"
  have x: "real ?a / real ?b = real ?x" unfolding times_value q(2) u(2) by (simp add: k power_add)
  have a: "0 < ?a" using x by (cases ?a) simp_all
  have "(5 :: nat) ^ k \<le> 5 ^ 20" using assms(2) k by (intro power_increasing) simp_all
  then have l: "25 * 5 ^ k < (2 :: nat) ^ 53" by simp
  have v: "real ?a / real ?b = double_value (25 * 5 ^ k) (int k)"
    unfolding x by (simp add: double_value_def powr_realpow flip: power_mult_distrib)
  obtain r f where r: "to_double False ?a ?b = Finite False r f" "double_value r f = double_value (25 * 5 ^ k) (int k)"
    by (rule to_double_dyadic [OF a _ l v]) (use assms(2) k in simp_all)
  have "demo_per_day dec = rounded_bigint (Finite False r f)"
    using r(1) by (simp add: demo_per_day_def q(1) u(1) num_times_def)
  also have "\<dots> = Inr (int ?x)" using r(2) v x by (intro rounded_exact) simp
  finally show ?thesis by (intro exI [of _ "int ?x"]) (simp add: k power_add)
qed

section \<open>The end-to-end script\<close>

lemma fixed_text_parts:
  assumes "0 < f"
  obtains w x where "fixed_text n f = w @ 46 # x" "list_all is_digit w" "list_all is_digit x" "length x = f" "dec_val (w @ x) = n"
proof -
  define k where "k = replicate (f + 1 - length (dec_digits n)) 48 @ dec_digits n"
  let ?l = "length k - f"
  have l: "f < length k" by (simp add: k_def)
  have z: "dec_val k = n"
    unfolding k_def using dec_val_append [of "replicate m 48" "dec_digits n" for m] dec_val_zeros [of "[]"] by simp
  have dig: "list_all is_digit k" unfolding k_def by simp (simp add: list_all_length is_digit_def)
  have "list_all is_digit (take ?l k)" "list_all is_digit (drop ?l k)"
    using dig by (metis append_take_drop_id list_all_append)+
  moreover have "dec_val (take ?l k @ drop ?l k) = n" using z by simp
  moreover have "fixed_text n f = take ?l k @ 46 # drop ?l k" using assms by (simp add: fixed_text_def Let_def k_def)
  moreover have "length (drop ?l k) = f" using l by simp
  ultimately show thesis using that by blast
qed

lemma scaled_fixed_text: "toScaledRate (fixed_text n 12) = Inr (int n)"
proof -
  obtain w x where t: "fixed_text n 12 = w @ 46 # x" "list_all is_digit w" "list_all is_digit x" "length x = 12" "dec_val (w @ x) = n"
    by (rule fixed_text_parts [of 12 n]) simp
  then show ?thesis using toScaledRate_decimal_parts(3) [OF t(2,3)] by simp
qed

lemma number_close:
  assumes "0 < i" "i < 10 ^ 200"
  obtains m e where "number_of_int i = Finite False m e" "0 < m" "\<bar>double_value m e - i\<bar> \<le> i / 2 ^ 53"
proof -
  have r: "1 \<le> real_of_int i" "real_of_int i < 10 ^ 200" using assms by simp_all
  have "2 powr - 1022 \<le> (1 :: real)" "(10 :: real) ^ 200 < 2 powr 1000" by (simp_all add: powr_minus_divide)
  with r have b: "2 powr - 1022 \<le> real (nat i) / real 1" "real (nat i) / real 1 < 2 powr 1000" using assms by simp_all
  obtain m e where "to_double False (nat i) 1 = Finite False m e" "0 < m" "\<bar>double_value m e - real (nat i) / real 1\<bar> \<le> real (nat i) / real 1 / 2 ^ 53"
    by (rule to_double_close [OF _ _ b]) (use assms in simp_all)
  then show thesis using assms by (intro that [of m e]) (simp_all add: number_of_int_def)
qed

text \<open>The rate is that of ten tokens a day, within a factor of two, and an hour accrues something.\<close>

definition rate_near :: "int \<Rightarrow> nat \<Rightarrow> bool" where
  "rate_near rate dec \<longleftrightarrow> 10 ^ 12 \<le> rate * 3600 \<and> rate * 86400 \<le> 2 * (10 * 10 ^ dec) * 10 ^ 12"

lemma rate_text_near:
  assumes "1 \<le> dec" "dec \<le> 24"
  shows "\<exists>rate. toScaledRate (rate_text (10 * 10 ^ dec)) = Inr rate \<and> rate_near rate dec"
proof -
  let ?p = "10 * 10 ^ dec :: int" let ?r = "10 * 10 ^ dec :: real"
  have d: "(10 :: int) ^ 1 \<le> 10 ^ dec" "(10 :: int) ^ dec \<le> 10 ^ 24" "(10 :: real) ^ 1 \<le> 10 ^ dec" "(10 :: real) ^ dec \<le> 10 ^ 24"
    using assms by (intro power_increasing; simp)+
  obtain m x where m: "number_of_int ?p = Finite False m x" "0 < m" "\<bar>double_value m x - ?p\<bar> \<le> ?p / 2 ^ 53"
    by (rule number_close [of ?p]) (use d in simp_all)
  obtain y where y: "y \<le> 0" "number_of_int 86400 = Finite False (86400 * 2 ^ nat (- y)) y"
    using to_double_exact [of 86400 1 False] by (auto simp: number_of_int_def)
  let ?n = "86400 * 2 ^ nat (- y) :: nat"
  have n: "double_value ?n y = 86400"
  proof -
    have "2 powr - real_of_int y = 2 ^ nat (- y)" using y(1) powr_real_of_int [of 2 "- y"] by simp
    then have "(2 :: real) ^ nat (- y) * 2 powr real_of_int y = 1" by (metis add.left_inverse powr_add powr_zero_eq_one zero_neq_numeral)
    then show ?thesis by (simp add: double_value_def)
  qed
  let ?a = "scaled_num m (y - x)" let ?b = "scaled_den ?n (y - x)"
  have q: "real ?a / real ?b = double_value m x / 86400" unfolding div_value n ..
  have v: "?r - ?r / 2 ^ 53 \<le> double_value m x" "double_value m x \<le> ?r + ?r / 2 ^ 53" using m(3) unfolding abs_le_iff by simp_all
  have lo: "90 \<le> double_value m x" "double_value m x \<le> 2 * 10 ^ 25" using v d(3,4) by simp_all
  have b: "2 powr - 1022 \<le> (1 / 1000 :: real)" "(10 :: real) ^ 30 < 2 powr 1000" by (simp_all add: powr_minus_divide)
  obtain k z where k: "to_double False ?a ?b = Finite False k z"
    "\<bar>double_value k z - double_value m x / 86400\<bar> \<le> double_value m x / 86400 / 2 ^ 53"
    by (rule to_double_close [of ?a ?b False, unfolded q])
      (use m(2) lo order_trans [OF b(1), of "double_value m x / 86400"] le_less_trans [OF _ b(2), of "double_value m x / 86400"]
        in \<open>simp_all add: scaled_num_def\<close>)
  have w: "double_value m x / 86400 - double_value m x / 86400 / 2 ^ 53 \<le> double_value k z"
    "double_value k z \<le> double_value m x / 86400 + double_value m x / 86400 / 2 ^ 53"
    using k(2) unfolding abs_le_iff by simp_all
  have "double_value k z < 10 ^ 21" using w(2) v(2) d(4) by simp
  then obtain i where i: "to_fixed (Finite False k z) 12 = fixed_text i 12" "\<bar>real i / 10 ^ 12 - double_value k z\<bar> \<le> 1 / (2 * 10 ^ 12)"
    by (rule to_fixed_close [where neg = False and f = 12]) auto
  have t: "toScaledRate (rate_text ?p) = Inr (int i)"
    using i(1) k(1) y by (simp add: rate_text_def m(1) num_div_def scaled_fixed_text)
  have "real i - 1 / 2 \<le> double_value k z * 10 ^ 12" "double_value k z * 10 ^ 12 \<le> real i + 1 / 2"
    using i(2) unfolding abs_le_iff by (simp_all add: field_simps)
  then have "10 ^ 12 \<le> real i * 3600" "real i * 86400 \<le> 2 * ?r * 10 ^ 12" using v w d(3) lo by simp_all
  then have "real_of_int (10 ^ 12) \<le> real_of_int (int i * 3600)" "real_of_int (int i * 86400) \<le> real_of_int (2 * ?p * 10 ^ 12)"
    by simp_all
  then have "10 ^ 12 \<le> int i * 3600" "int i * 86400 \<le> 2 * ?p * 10 ^ 12" by (simp_all only: of_int_le_iff)
  with t show ?thesis unfolding rate_near_def by blast
qed

end
