(* ===== verification/ScriptTheorems.thy ===== *)
theory ScriptTheorems
  imports ScriptSteps ScriptRate
begin

text \<open>
  The settlement and the end-to-end script against the world of \<open>LiveChain\<close>: their runs end with every check
  passed.  The last section builds a concrete world in which they do.
\<close>

section \<open>The settlement script\<close>

lemma unit128:
  assumes "dec \<le> 38"
  shows "(0 :: int) < 10 ^ dec" "(10 :: int) ^ dec \<le> 10 ^ 38" "uint (word_of_int (10 ^ dec) :: uint128) = 10 ^ dec"
    "unat (word_of_int (10 ^ dec) :: uint128) = 10 ^ dec" "(word_of_int (10 ^ dec) :: uint128) \<noteq> 0"
proof -
  show p: "(0 :: int) < 10 ^ dec" by simp
  show le: "(10 :: int) ^ dec \<le> 10 ^ 38" using assms by (intro power_increasing) simp_all
  then have "(10 :: int) ^ dec < 2 ^ 128" by (rule le_less_trans) simp
  then show u: "uint (word_of_int (10 ^ dec) :: uint128) = 10 ^ dec"
    using p by (intro uint_word_of_int_128) simp_all
  then show "unat (word_of_int (10 ^ dec) :: uint128) = 10 ^ dec"
    by (simp add: unat_eq_nat_uint nat_power_eq)
  show "(word_of_int (10 ^ dec) :: uint128) \<noteq> 0" using u p by (metis less_irrefl uint_0_eq)
qed

lemma settle_terms_fit:
  assumes "viem_abi V E" "v_isAddress V employer" "v_isAddress V recipient" "v_isAddress V FXRP" "dec \<le> 38"
    and "0 \<le> now" "now < 2 ^ 64"
  shows "plain_terms V (settle_terms V employer recipient (10 ^ dec) (now * 1000))"
proof -
  note u = unit128 [OF assms(5)]
  define x where "x = (10 ^ dec :: int) div 10"
  have x: "0 \<le> x" "x \<le> 10 ^ 38"
    using order_trans [OF div_le_self u(2), of 10] u(1) unfolding x_def by (simp_all only: pos_imp_zdiv_nonneg_iff zero_less_numeral less_imp_le)
  then have "0 \<le> x * RATE_SCALE div 86400" "x * RATE_SCALE div 86400 \<le> 10 ^ 38 * 10 ^ 12"
  proof -
    show "0 \<le> x * RATE_SCALE div 86400" using x(1) by (simp add: RATE_SCALE_def pos_imp_zdiv_nonneg_iff)
    have "x * RATE_SCALE div 86400 \<le> x * RATE_SCALE" using x(1) by (intro div_le_self) (simp_all add: RATE_SCALE_def)
    also have "\<dots> \<le> 10 ^ 38 * 10 ^ 12" using x(2) by (simp add: RATE_SCALE_def)
    finally show "x * RATE_SCALE div 86400 \<le> 10 ^ 38 * 10 ^ 12" .
  qed
  then have r: "0 \<le> ratePerDayToScaled (10 ^ dec sdiv 10)" "ratePerDayToScaled (10 ^ dec sdiv 10) < 2 ^ 256"
    using x(1) u(1) by (simp_all add: ratePerDayToScaled_def sdiv_nonneg x_def RATE_SCALE_def)
  have "100 * 10 ^ dec < (2 :: int) ^ 256" using u(2) by simp
  with assms u(1) r show ?thesis
    by (simp add: plain_terms_def terms_fit_def settle_terms_def salt_of_def viem_abi.keccak_bytes)
qed

lemma settle_accrual:
  assumes "same_terms (settle_terms V employer recipient (10 ^ dec) (now * 1000)) u" "0 \<le> s" "s \<le> 86400"
  shows "accruedAt u (now + s) \<le> 10 ^ dec" "0 \<le> accruedAt u (now + s)"
proof -
  let ?x = "(10 ^ dec :: int) div 10"
  have "(0 :: int) \<le> 10 ^ dec" by simp
  then have x: "0 \<le> ?x" "?x \<le> 10 ^ dec" by (simp_all only: pos_imp_zdiv_nonneg_iff zero_less_numeral div_le_self)
  have t: "t_startTime u = now" "t_ratePerSecond u = ratePerDayToScaled ?x" "t_total u = 100 * 10 ^ dec"
    using assms(1) by (simp_all add: same_terms_def settle_terms_def sdiv_nonneg)
  have "?x * s \<le> ?x * 86400" using x(1) assms(3) by (intro mult_left_mono)
  then have le: "?x * s div 86400 \<le> ?x" using zdiv_mono1 [of "?x * s" "?x * 86400" 86400] by simp
  then have "accruedAt u (t_startTime u + s) \<le> ?x * s div 86400"
    using x assms t by (intro daily_rate_loss_parts(2)) simp_all
  with le x t(1) show "accruedAt u (now + s) \<le> 10 ^ dec" by simp
  have "0 \<le> t_ratePerSecond u" using x(1) t(2) by (simp add: ratePerDayToScaled_def sdiv_nonneg RATE_SCALE_def pos_imp_zdiv_nonneg_iff)
  then show "0 \<le> accruedAt u (now + s)" using accruedAt_range [of u] t(3) by simp
qed

lemma settle_open_runs:
  assumes "viem_abi (le_viem L) (le_evm L)" "seals_to X pub (le_viem L) (le_ecies L)"
    and "plain_terms (le_viem L) terms" "commitTo (le_viem L) terms \<noteq> Inr (hex32 0)" "t_token terms = FXRP"
    and "can_open L abi addr FXRP tok r n w" "hex_address (t_recipient terms) = Some r"
  obtains i cipher plain u w2 where
    "settle_open (le_viem L) X (live_node L) abi addr (Inr pub) terms (uint n) w
      = (Inr (uint i, hex32 (keccak (le_evm L) plain), bytesToHex cipher), w2)"
    "ecies_decrypt (le_viem L) (le_ecies L) cipher = Inr plain"
    "decodeTerms (le_viem L) (bytesToHex plain) = Inr u" "same_terms terms u"
    "opened L w n r tok i plain w2"
proof (rule open_steps [OF assms(1-4) assms(6) [folded assms(5)] assms(7), of SETTLE_ERC20])
  fix i cipher plain u w1 w1' w2 rc
  assume h: "encodeTerms (le_viem L) terms = Inr (bytesToHex plain)"
    "commitTo (le_viem L) terms = Inr (hex32 (keccak (le_evm L) plain))"
    "tl_encrypt X pub plain = Inr cipher" and g: "ecies_decrypt (le_viem L) (le_ecies L) cipher = Inr plain"
    "decodeTerms (le_viem L) (bytesToHex plain) = Inr u" "same_terms terms u"
    and t: "\<And>msg. send_checked (live_node L) addr abi ''createStream'' [AHex (t_recipient terms), AHex (t_token terms),
       AHex (hex32 (keccak (le_evm L) plain)), ABig (t_startTime terms), AHex (bytesToHex cipher)] msg w
       = (Inr (lv_receipt w1), w1)"
    "created_stream (live_node L) (rc_logs (lv_receipt w1)) = uint i" "0 < uint i"
    "send_tx (live_node L) (t_token terms) SETTLE_ERC20 ''approve'' [AHex addr, ABig (uint n)] w1 = (Inr rc, w1')"
    "\<And>msg. send_checked (live_node L) addr abi ''fund'' [ABig (uint i), ABig (uint n)] msg w1' = (Inr (lv_receipt w2), w2)"
    and o: "opened L w n r tok i plain w2"
  have "settle_open (le_viem L) X (live_node L) abi addr (Inr pub) terms (uint n) w
      = (Inr (uint i, hex32 (keccak (le_evm L) plain), bytesToHex cipher), w2)"
    using h t [unfolded assms(5)] by (simp add: settle_open_def s_bind_def seal_hex_def)
  then show thesis using g o by (rule that)
qed (simp add: SETTLE_ERC20_def)

text \<open>Cancelling with the enclave's answer: every check of the script holds.\<close>

lemma settle_cancel_runs:
  assumes "opened L w0 n r tok i plain w2" "lv_vault w = lv_vault w2" "lv_tokens w = lv_tokens w2"
    and "can_open L abi addr FXRP tok r n w0" "''cancelStream'' \<in> set abi"
    and "recoverEthSigned (le_evm L) (auth_digest (le_evm L) (SETTLE_TAG (le_evm L)) (le_chain L) (le_vault L) i
       (keccak (le_evm L) plain) (word_of_int a) (word_of_int d)) sig = Inr (v_teeSigner (lv_vault w0))"
    and "0 \<le> a" "a \<le> uint n" "int (lv_time w + le_tick L) \<le> d" "d < 2 ^ 256"
    and "hex_address employer = Some (le_me L)" "hex_address recipient = Some r"
    and "bal2 = e_balanceOf (lv_tokens w2 tok)"
  shows "\<exists>w5. settle_cancel (live_node L) abi addr employer recipient (uint n)
    (uint (bal2 (le_me L)), uint (bal2 r)) (uint i) (a, d, bytesToHex sig) w = (Inr (), w5)"
proof -
  define A D :: uint256 where "A = word_of_int a" and "D = word_of_int d"
  define s where "s = v_streams (lv_vault w2) i"
  define bal where "bal = e_balanceOf (lv_tokens w0 tok)"
  have c: "hex_address addr = Some (le_vault L)" "hex_address FXRP = Some tok" "r \<noteq> le_vault L" "le_me L \<noteq> le_vault L"
    "r \<noteq> le_me L" "unat n \<le> unat (bal (le_me L))" "unat (bal r) + unat n < 2 ^ 256"
    using assms(4) by (auto simp: can_open_def bal_def Let_def)
  have o: "v_entered (lv_vault w) = 1" "v_teeSigner (lv_vault w) = v_teeSigner (lv_vault w0)" "v_streams (lv_vault w) i = s"
    "s_employer s = le_me L" "s_recipient s = r" "s_token s = tok" "s_commitment s = keccak (le_evm L) plain" "s_funded s = n"
    "s_withdrawn s = 0" "\<not> s_cancelled s" "after_funding L n bal bal2"
    using assms(1-3,13) by (simp_all add: opened_def s_def bal_def Let_def)
  have "a < 2 ^ 256" using assms(8) uint128_range(2) [of n] by simp
  then have A: "uint A = a" unfolding A_def by (rule uint_word_of_int_256 [OF assms(7)]) simp
  have An: "unat A \<le> unat n" unfolding unat_eq_nat_uint A using assms(8) by (rule nat_mono)
  have D: "uint D = d" unfolding D_def using assms(9,10) by (intro uint_word_of_int_256 [where n = 256]) simp_all
  have T: "unat (of_nat (lv_time w + le_tick L) :: uint256) \<le> unat D"
    by (rule deadline_word [OF assms(9) D])
  have me: "unat (bal (le_me L)) < 2 ^ 256" using unsigned_less [of "bal (le_me L)"] by simp
  obtain w5 where r: "\<And>msg. send_checked (live_node L) addr abi ''cancelStream''
      [ABig (uint i), ABig (uint A), ABig (uint D), AHex (bytesToHex sig)] msg w = (Inr (lv_receipt w5), w5)"
    "uint (e_balanceOf (lv_tokens w5 tok) r) = uint (bal2 r) + uint A"
    "uint (e_balanceOf (lv_tokens w5 tok) (le_me L)) = uint (bal2 (le_me L)) + (uint n - uint A)"
    "s_cancelled (v_streams (lv_vault w5) i)"
    by (rule live_cancelled [OF c(1) assms(5) o(1,3-6,8-10) _ An T c(3-5), of sig bal2])
      (use assms(3,6,13) c o(2,7,11) me in \<open>simp_all add: after_funding_def A_def D_def\<close>)
  obtain st where "readStream (nd_rpc (live_node L) w5) (uint i) = Inr st" "oc_cancelled st"
    using live_readStream [of L w5 i] r(4) by auto
  then show ?thesis
    using r(1-3) A D assms(11,12) c(2) by (intro exI [of _ w5]) (simp add: settle_cancel_def s_bind_def)
qed

text \<open>C37: the settlement script passes.  In the world of \<open>LiveChain\<close> (the vault and the extension's server
  as modelled, the test token at every token address, nobody but the script acting, and the RPC client, the
  wallet and mining as described there), where the signing key belongs to the vault's signer, the wallet signs as
  the employer, encryption to the enclave's key can be undone, and the deployer can open and fund a stream
  (\<open>can_open\<close>), the whole run ends with every \<^verbatim>\<open>must\<close> satisfied: the stream is opened, funded, accrues
  for 45 seconds and three blocks, the enclave answers over HTTP, the vault accepts its signature, and refund
  and payout add up to the funded unit, with the payout the signed accrual and the stream cancelled.\<close>

theorem settle_script_passes:
  assumes "live_ok L (v_teeSigner (lv_vault w)) employer"
    and "script_accounts L X K env (DEMO_RECIPIENT_KEY (le_viem L)) employer recipient"
    and "hex_address recipient = Some r" "''cancelStream'' \<in> set abi" "le_decimals L \<le> 38"
    and "can_open L abi (script_vault env) FXRP tok r (word_of_int (10 ^ le_decimals L)) w"
    and "le_tick L \<le> 600" "lv_time w < 2 ^ 63"
    and "commitTo (le_viem L) (settle_terms (le_viem L) employer recipient (10 ^ le_decimals L) (int (lv_time w) * 1000))
       \<noteq> Inr (hex32 0)"
  shows "fst (settle_main (le_viem L) G X K (live_node L) abi env (uint (le_chain L)) w) = Inr ()"
proof -
  let ?V = "le_viem L" let ?E = "le_evm L" let ?N = "live_node L" let ?addr = "script_vault env"
  define dec where "dec = le_decimals L"
  define n :: uint128 where "n = word_of_int (10 ^ dec)"
  define terms where "terms = settle_terms ?V employer recipient (10 ^ dec) (int (lv_time w) * 1000)"
  have abi: "viem_abi ?V ?E" using assms(1) by (simp add: live_ok_def live_enclave_def)
  note u = unit128 [OF assms(5) [folded dec_def], folded n_def]
  have co: "can_open L abi ?addr FXRP tok r n w" using assms(6) by (simp add: n_def dec_def)
  then have fx: "v_isAddress ?V FXRP" "hex_address FXRP = Some tok" by (simp_all add: can_open_def)
  obtain key priv pub where k: "present (env (js ''DEPLOYMENT_PRIVATE_KEY'')) = Some key"
    "present (env (js ''TEE_ECIES_PRIVKEY'')) = Some priv" "kt_address K key = Inr employer"
    "kt_address K (DEMO_RECIPIENT_KEY ?V) = Inr recipient" "kt_public K priv = Inr pub" "seals_to X pub ?V (le_ecies L)"
    using assms(2) unfolding script_accounts_def by (elim conjE exE)
  have acc: "v_isAddress ?V employer" "v_isAddress ?V recipient" "hex_address employer = Some (le_me L)"
    "v_isAddress ?V ?addr" "units_ok ?addr" "hex_address ?addr = Some (le_vault L)"
    using assms(2) by (simp_all add: script_accounts_def)
  have fit: "plain_terms ?V terms"
    unfolding terms_def using settle_terms_fit [OF abi acc(1,2) fx(1) assms(5)] assms(8) by (simp add: dec_def)
  have tm: "t_token terms = FXRP" "t_recipient terms = recipient" "t_employer terms = employer"
    by (simp_all add: terms_def settle_terms_def)
  obtain i cipher plain t w2 where o: "settle_open ?V X ?N abi ?addr (Inr pub) terms (uint n) w
      = (Inr (uint i, hex32 (keccak ?E plain), bytesToHex cipher), w2)"
    "ecies_decrypt ?V (le_ecies L) cipher = Inr plain" "decodeTerms ?V (bytesToHex plain) = Inr t" "same_terms terms t"
    "opened L w n r tok i plain w2"
    by (rule settle_open_runs [OF abi k(6) fit _ tm(1) co]) (use assms(3,9) tm(2) in \<open>simp_all add: terms_def dec_def\<close>)
  define w3 where "w3 = w2\<lparr>lv_time := lv_time w2 + SETTLE_AFTER_SECONDS\<rparr>"
  have w3: "lv_vault w3 = lv_vault w2" "lv_tokens w3 = lv_tokens w2" "lv_time w3 = lv_time w + (3 * le_tick L + 45)"
    using o(5) by (simp_all add: w3_def SETTLE_AFTER_SECONDS_def opened_def)
  define a where "a = accruedAt t (int (lv_time w) + int (3 * le_tick L + 45))"
  have a: "a \<le> 10 ^ dec" "0 \<le> a"
    unfolding a_def using settle_accrual [OF o(4) [unfolded terms_def], of "int (3 * le_tick L + 45)"] assms(7) by simp_all
  have emp: "to_lower employer = to_lower (t_employer t)" using o(4) tm(3) by (simp add: same_terms_def)
  obtain st sig where ask: "settle_ask ?V G ?N (uint (le_chain L)) ?addr (uint i) (hex32 (keccak ?E plain)) (bytesToHex cipher) w3
      = (Inr (a, int (lv_time w3) + 600, bytesToHex sig), w3\<lparr>lv_app := st\<rparr>)"
    "recoverEthSigned ?E (auth_digest ?E (SETTLE_TAG ?E) (le_chain L) (le_vault L) i (keccak ?E plain)
       (word_of_int a) (word_of_int (int (lv_time w3) + 600))) sig = Inr (v_teeSigner (lv_vault w))"
    by (rule settle_ask_granted [OF assms(1) acc(4-6) _ o(2,3) emp refl refl, of w3 a G i])
      (use w3(3) assms(7,8) in \<open>simp_all add: a_def\<close>)
  obtain w5 where "settle_cancel ?N abi ?addr employer recipient (uint n)
      (uint (e_balanceOf (lv_tokens w2 tok) (le_me L)), uint (e_balanceOf (lv_tokens w2 tok) r)) (uint i)
      (a, int (lv_time w3) + 600, bytesToHex sig) (w3\<lparr>lv_app := st\<rparr>) = (Inr (), w5)"
    using settle_cancel_runs [OF o(5) _ _ co assms(4) ask(2), of "w3\<lparr>lv_app := st\<rparr>" employer recipient]
      acc(3) assms(3,7,8) a w3 u by auto
  then show ?thesis
    using k(1-5) o(1) ask(1) acc(3) assms(3) fx(2) u(3)
    by (simp add: settle_main_def s_bind_def dec_def [symmetric] terms_def w3_def)
qed


section \<open>The end-to-end script\<close>

lemma e2e_body: "e2e_buildActionBody (js ''STREAM'') (js ''AUTH_WITHDRAW'') payload now
    = Inr (buildActionBody (js ''STREAM'') (js ''AUTH_WITHDRAW'') payload now)"
proof -
  have "ident_ok (js ''STREAM'')" "ident_ok (js ''AUTH_WITHDRAW'')" by (simp_all add: ident_ok_js)
  then show ?thesis by (simp add: e2e_buildActionBody_def e2e_dataFixed_fits node_envelope_client ident_ok_def)
qed

lemma e2e_ask_granted:
  assumes "live_ok L signer employer" "v_isAddress (le_viem L) vault" "units_ok vault"
    and "hex_address vault = Some (le_vault L)" "int (lv_time w) < 2 ^ 255"
    and "ecies_decrypt (le_viem L) (le_ecies L) cipher = Inr plain"
    and "decodeTerms (le_viem L) (bytesToHex plain) = Inr terms"
    and "to_lower employer = to_lower (t_employer terms)" "c = keccak (le_evm L) plain"
    and "t = int (lv_time w)" "a = accruedAt terms t"
  obtains s sig where
    "e2e_ask (le_viem L) G (live_node L) (uint (le_chain L)) vault (uint (i :: uint256)) (hex32 c) (bytesToHex cipher) w
      = (Inr (a, t + 600, bytesToHex sig), w\<lparr>lv_app := s\<rparr>)"
    "recoverEthSigned (le_evm L) (auth_digest (le_evm L) (WITHDRAW_TAG (le_evm L)) (le_chain L) (le_vault L) i c
       (word_of_int a) (word_of_int (t + 600))) sig = Inr signer"
proof (rule live_asked [OF assms(1) disjI1 _ assms(2-11), of "withdraw_tag (le_viem L)" "WITHDRAW_TAG (le_evm L)" "js ''AUTH_WITHDRAW''" i G])
  fix req sig s v
  assume r: "sign_challenge (le_viem L) (wl_sign (nd_wallet (live_node L))) (uint (le_chain L)) vault (uint i)
       (hex32 c) (withdraw_tag (le_viem L)) t = Inr (r_callerSignature req)"
    "req = \<lparr>r_streamId = js_of_int (uint i), r_vault = vault, r_chainId = js_of_int (uint (le_chain L)),
       r_commitment = hex32 c, r_encryptedTerms = bytesToHex cipher, r_issuedAt = js_of_int t,
       r_callerSignature = r_callerSignature req\<rparr>"
    and v: "live_post L (buildActionBody (js ''STREAM'') (js ''AUTH_WITHDRAW'') (request_json req) (int (lv_time w) * 1000)) w
      = (Inr (200, json_stringify v), w\<lparr>lv_app := s\<rparr>)"
    "response_json G (Inr (200, json_stringify v)) = Inr (200, v)" "status_is_1 v" "v \<noteq> JNull"
    "data_json G v = Inr (auth_response req a (t + 600) (bytesToHex sig) (bytesToHex plain))"
    and rec: "recoverEthSigned (le_evm L) (auth_digest (le_evm L) (WITHDRAW_TAG (le_evm L)) (le_chain L) (le_vault L) i c
       (word_of_int a) (word_of_int (t + 600))) sig = Inr signer"
  have "e2e_ask (le_viem L) G (live_node L) (uint (le_chain L)) vault (uint i) (hex32 c) (bytesToHex cipher) w
      = (Inr (a, t + 600, bytesToHex sig), w\<lparr>lv_app := s\<rparr>)"
    using r(1) v r(2) [symmetric] assms(10) by (simp add: e2e_ask_def s_bind_def e2e_body answer_fields)
  then show thesis using rec by (rule that)
qed (simp_all add: command_tag_def OP_COMMAND_AUTH_SETTLE_def OP_COMMAND_AUTH_WITHDRAW_def)

lemma e2e_open_runs:
  assumes "viem_abi (le_viem L) (le_evm L)" "seals_to X pub (le_viem L) (le_ecies L)"
    and "plain_terms (le_viem L) terms" "commitTo (le_viem L) terms \<noteq> Inr (hex32 0)" "encodeTerms (le_viem L) terms = Inr h"
    and "can_open L abi addr (t_token terms) tok r n w" "hex_address (t_recipient terms) = Some r"
  obtains i cipher plain u w2 where
    "e2e_open X (le_viem L) (live_node L) abi addr (t_token terms) (t_recipient terms) pub (t_startTime terms) (uint n) h w
      = (Inr (uint i, hex32 (keccak (le_evm L) plain), bytesToHex cipher), w2)" "h = bytesToHex plain"
    "ecies_decrypt (le_viem L) (le_ecies L) cipher = Inr plain"
    "decodeTerms (le_viem L) (bytesToHex plain) = Inr u" "same_terms terms u"
    "opened L w n r tok i plain w2"
proof (rule open_steps [OF assms(1-4,6,7), of SCRIPT_ERC20])
  fix i cipher plain u w1 w1' w2 rc
  assume h: "encodeTerms (le_viem L) terms = Inr (bytesToHex plain)"
    "commitTo (le_viem L) terms = Inr (hex32 (keccak (le_evm L) plain))"
    "tl_encrypt X pub plain = Inr cipher" and g: "ecies_decrypt (le_viem L) (le_ecies L) cipher = Inr plain"
    "decodeTerms (le_viem L) (bytesToHex plain) = Inr u" "same_terms terms u"
    and t: "\<And>msg. send_checked (live_node L) addr abi ''createStream'' [AHex (t_recipient terms), AHex (t_token terms),
       AHex (hex32 (keccak (le_evm L) plain)), ABig (t_startTime terms), AHex (bytesToHex cipher)] msg w
       = (Inr (lv_receipt w1), w1)"
    "created_stream (live_node L) (rc_logs (lv_receipt w1)) = uint i" "0 < uint i"
    "send_tx (live_node L) (t_token terms) SCRIPT_ERC20 ''approve'' [AHex addr, ABig (uint n)] w1 = (Inr rc, w1')"
    "\<And>msg. send_checked (live_node L) addr abi ''fund'' [ABig (uint i), ABig (uint n)] msg w1' = (Inr (lv_receipt w2), w2)"
    and c: "s_commitment (v_streams (lv_vault w1) i) = keccak (le_evm L) plain"
    and o: "opened L w n r tok i plain w2"
  have hp: "h = bytesToHex plain" using assms(5) h(1) by simp
  obtain st where st: "readStream (nd_rpc (live_node L) w1) (uint i) = Inr st" "oc_commitment st = hex32 (keccak (le_evm L) plain)"
    using live_readStream [of L w1 i] c by auto
  have "e2e_open X (le_viem L) (live_node L) abi addr (t_token terms) (t_recipient terms) pub (t_startTime terms) (uint n) h w
      = (Inr (uint i, hex32 (keccak (le_evm L) plain), bytesToHex cipher), w2)"
    using h t st by (simp add: e2e_open_def s_bind_def seal_hex_def hp viem_abi.keccak_hex [OF assms(1)])
  then show thesis using hp g o by (rule that)
qed (simp add: SCRIPT_ERC20_def)

lemma e2e_withdraw_runs:
  assumes "opened L w0 n r tok i plain w2" "lv_vault w = lv_vault w2" "lv_tokens w = lv_tokens w2"
    and "can_open L abi addr token tok r n w0" "''withdraw'' \<in> set abi" "''revealTerms'' \<in> set abi"
    and "recoverEthSigned (le_evm L) (auth_digest (le_evm L) (WITHDRAW_TAG (le_evm L)) (le_chain L) (le_vault L) i
       (keccak (le_evm L) plain) (word_of_int a) (word_of_int d)) sig = Inr (v_teeSigner (lv_vault w0))"
    and "0 < a" "a \<le> uint n" "int (lv_time w + le_tick L) \<le> d" "d < 2 ^ 256"
    and "hex_address recipient = Some r" "e_balanceOf (lv_tokens w0 tok) r = 0"
  shows "\<exists>w5. e2e_withdraw (live_node L) abi addr token recipient (uint i) (bytesToHex plain) (a, d, bytesToHex sig) w = (Inr (), w5)"
proof -
  define A D :: uint256 where "A = word_of_int a" and "D = word_of_int d"
  define s where "s = v_streams (lv_vault w2) i"
  define bal bal2 where "bal = e_balanceOf (lv_tokens w0 tok)" and "bal2 = e_balanceOf (lv_tokens w2 tok)"
  have c: "hex_address addr = Some (le_vault L)" "hex_address token = Some tok" "r \<noteq> le_vault L" "le_me L \<noteq> 0"
    "r \<noteq> le_me L" "unat n \<le> unat (bal (le_me L))" "unat (bal r) + unat n < 2 ^ 256"
    using assms(4) by (auto simp: can_open_def bal_def Let_def)
  have o: "v_entered (lv_vault w) = 1" "v_teeSigner (lv_vault w) = v_teeSigner (lv_vault w0)" "v_streams (lv_vault w) i = s"
    "s_employer s = le_me L" "s_recipient s = r" "s_token s = tok" "s_commitment s = keccak (le_evm L) plain" "s_funded s = n"
    "s_withdrawn s = 0" "\<not> s_cancelled s" "after_funding L n bal bal2"
    using assms(1-3) by (simp_all add: opened_def s_def bal_def bal2_def Let_def)
  have b0: "bal2 r = 0" using o(11) c(3,5) assms(13) by (simp add: after_funding_def bal_def)
  have "a < 2 ^ 256" using assms(9) uint128_range(2) [of n] by simp
  with assms(8) have A: "uint A = a" unfolding A_def by (intro uint_word_of_int_256 [where n = 256]) simp_all
  have An: "unat A \<le> unat n" unfolding unat_eq_nat_uint A using assms(9) by (rule nat_mono)
  have A0: "0 < A" using A assms(8) uint_0_iff [of A] by (auto simp: word_neq_0_conv [symmetric])
  have D: "uint D = d" unfolding D_def using assms(10,11) by (intro uint_word_of_int_256 [where n = 256]) simp_all
  have T: "unat (of_nat (lv_time w + le_tick L) :: uint256) \<le> unat D"
    by (rule deadline_word [OF assms(10) D])
  obtain w5 where t: "\<And>msg. send_checked (live_node L) addr abi ''withdraw''
      [ABig (uint i), ABig (uint A), ABig (uint D), AHex (bytesToHex sig)] msg w = (Inr (lv_receipt w5), w5)"
    "uint (e_balanceOf (lv_tokens w5 tok) r) = uint (bal2 r) + uint A"
    "s_employer (v_streams (lv_vault w5) i) = le_me L" "s_commitment (v_streams (lv_vault w5) i) = s_commitment s"
    by (rule live_withdrawn [OF c(1) assms(5) c(4) o(1,3-6,8-10) _ A0 An T c(3), of sig bal2])
      (use assms(3,7) c o(2,7,11) b0 in \<open>simp_all add: after_funding_def A_def D_def bal2_def bal_def\<close>)
  have "s_employer (v_streams (lv_vault w5) i) \<noteq> 0" "s_commitment (v_streams (lv_vault w5) i) = keccak (le_evm L) plain"
    using t(3,4) c(4) o(7) by simp_all
  from live_revealed [OF c(1) assms(6) this] obtain w6 where v: "\<And>msg. send_checked (live_node L) addr abi ''revealTerms''
      [ABig (uint i), AHex (bytesToHex plain)] msg w5 = (Inr (lv_receipt w6), w6)" by metis
  show ?thesis
    using t(1,2) v A D b0 assms(3,12) c(2)
    by (intro exI [of _ w6]) (simp add: e2e_withdraw_def s_bind_def bal2_def)
qed

lemma e2e_accrual:
  assumes "t_ratePerSecond u = rate" "t_total u = 300 * 10 ^ dec" "t_startTime u = start"
    and "10 ^ 12 \<le> rate * 3600" "rate * 86400 \<le> 2 * (10 * 10 ^ dec) * 10 ^ 12" "3600 \<le> s" "s \<le> 5400"
  shows "0 < accruedAt u (start + s)" "accruedAt u (start + s) \<le> 5 * 10 ^ dec"
proof -
  define d :: int where "d = 10 ^ dec"
  have d: "1 \<le> d" by (simp add: d_def)
  have r: "0 \<le> rate" using assms(4) by simp
  have acc: "accruedAt u (start + s) = min (rate * s div 10 ^ 12) (300 * d)"
    using assms(1-3,6) r by (simp add: accruedAt_eq elapsed_since_def RATE_SCALE_def d_def)
  have "rate * 3600 \<le> rate * s" using r assms(6) by (intro mult_left_mono)
  then have "10 ^ 12 \<le> rate * s" using assms(4) by linarith
  then have "1 \<le> rate * s div 10 ^ 12" using zdiv_mono1 [of "10 ^ 12" "rate * s" "10 ^ 12"] by simp
  with acc d show "0 < accruedAt u (start + s)" by simp
  have "rate * s * 16 \<le> rate * 5400 * 16" using r assms(7) by (intro mult_right_mono mult_left_mono) simp_all
  also have "\<dots> = rate * 86400" by simp
  also have "\<dots> \<le> 2 * (10 * d) * 10 ^ 12" using assms(5) by (simp add: d_def)
  finally have "rate * s \<le> 5 * d * 10 ^ 12" using d by simp
  then have "rate * s div 10 ^ 12 \<le> 5 * d" using zdiv_mono1 [of "rate * s" "5 * d * 10 ^ 12" "10 ^ 12"] by simp
  with acc show "accruedAt u (start + s) \<le> 5 * 10 ^ dec" by (simp add: d_def)
qed

definition e2e_record :: "viem \<Rightarrow> jsstr \<Rightarrow> jsstr \<Rightarrow> jsstr \<Rightarrow> nat \<Rightarrow> int \<Rightarrow> int \<Rightarrow> jsstr \<Rightarrow> stream_terms" where
  "e2e_record V employer recipient token dec rate start salt =
     \<lparr>t_employer = employer, t_recipient = recipient, t_token = token, t_ratePerSecond = rate,
      t_total = 300 * 10 ^ dec, t_startTime = start, t_salt = salt_of V salt\<rparr>"

lemma e2e_terms_record:
  "toScaledRate (rate_text (10 * 10 ^ dec)) = Inr rate \<Longrightarrow>
   e2e_terms V employer recipient token dec start (salt_of V salt)
     = encodeTerms V (e2e_record V employer recipient token dec rate start salt)"
  by (simp add: e2e_terms_def encodeTerms_def terms_values_def e2e_record_def)

lemma e2e_record_fits:
  assumes "viem_abi V E" "v_isAddress V employer" "v_isAddress V recipient" "v_isAddress V token" "dec \<le> 37"
    and "10 ^ 12 \<le> rate * 3600" "rate * 86400 \<le> 2 * (10 * 10 ^ dec) * 10 ^ 12" "0 \<le> start" "start < 2 ^ 64"
  shows "plain_terms V (e2e_record V employer recipient token dec rate start salt)"
proof -
  have d: "(10 :: int) ^ dec \<le> 10 ^ 37" using assms(5) by (intro power_increasing) simp_all
  then have "300 * 10 ^ dec < (2 :: int) ^ 256" "rate < 2 ^ 256" "0 \<le> rate" using assms(6,7) by simp_all
  with assms(1-4,8,9) show ?thesis
    by (simp add: plain_terms_def terms_fit_def e2e_record_def salt_of_def viem_abi.keccak_bytes)
qed

lemma five_units:
  assumes "dec \<le> 37"
  shows "uint (word_of_int (5 * 10 ^ dec) :: uint128) = 5 * 10 ^ dec"
proof -
  have "(10 :: int) ^ dec \<le> 10 ^ 37" using assms by (intro power_increasing) simp_all
  then have "5 * 10 ^ dec < (2 :: int) ^ 128" by simp
  then show ?thesis by (intro uint_word_of_int_128) simp_all
qed

text \<open>C38: the end-to-end script passes.  In the same world, where only the script acts and every token is
  the test token, with any decimals from 1 to 24, and under the same conditions, for a recipient that starts empty, the run encrypts the terms, opens a stream backdated
  an hour, finds its commitment on the chain, funds it, gets an authorization from its own server over HTTP, and
  withdraws: the recipient ends with exactly the signed accrual, and the revealed plaintext is accepted.\<close>

theorem e2e_script_passes:
  assumes "live_ok L (v_teeSigner (lv_vault w)) employer"
    and "script_accounts L X K env fresh_key employer recipient" "hex_address recipient = Some r"
    and "''withdraw'' \<in> set abi" "''revealTerms'' \<in> set abi" "1 \<le> le_decimals L" "le_decimals L \<le> 24"
    and "can_open L abi (script_vault env) (e2e_token env) tok r (word_of_int (5 * 10 ^ le_decimals L)) w"
    and "e_balanceOf (lv_tokens w tok) r = 0" "le_tick L \<le> 600" "3600 \<le> lv_time w" "lv_time w < 2 ^ 63"
    and "\<And>h. e2e_terms (le_viem L) employer recipient (e2e_token env) (le_decimals L) (int (lv_time w) - 3600)
         (salt_of (le_viem L) (js ''salt-'' @ js_of_int (int (lv_time w) * 1000) @ js ''-'' @ rnd)) = Inr h \<Longrightarrow>
       v_keccak_hex (le_viem L) h \<noteq> hex32 0"
  shows "fst (e2e_main (le_viem L) G X K (live_node L) abi env (uint (le_chain L)) fresh_key rnd w) = Inr ()"
proof -
  let ?V = "le_viem L" let ?E = "le_evm L" let ?N = "live_node L" let ?addr = "script_vault env" let ?tok = "e2e_token env"
  define dec where "dec = le_decimals L"
  define n :: uint128 where "n = word_of_int (5 * 10 ^ dec)"
  define start where "start = int (lv_time w) - 3600"
  define salt where "salt = js ''salt-'' @ js_of_int (int (lv_time w) * 1000) @ js ''-'' @ rnd"
  obtain rate where rate: "toScaledRate (rate_text (10 * 10 ^ dec)) = Inr rate" "10 ^ 12 \<le> rate * 3600"
    "rate * 86400 \<le> 2 * (10 * 10 ^ dec) * 10 ^ 12" using rate_text_near [OF assms(6,7)] by (auto simp: rate_near_def dec_def)
  have d37: "le_decimals L \<le> 37" using assms(7) by simp
  define terms where "terms = e2e_record ?V employer recipient ?tok dec rate start salt"
  have abi: "viem_abi ?V ?E" using assms(1) by (simp add: live_ok_def live_enclave_def)
  have un: "uint n = 5 * 10 ^ dec" using five_units [OF d37] by (simp add: n_def dec_def)
  have co: "can_open L abi ?addr ?tok tok r n w" using assms(8) by (simp add: n_def dec_def)
  then have tk: "v_isAddress ?V ?tok" "hex_address ?tok = Some tok" by (simp_all add: can_open_def)
  obtain key priv pub where k: "present (env (js ''DEPLOYMENT_PRIVATE_KEY'')) = Some key"
    "present (env (js ''TEE_ECIES_PRIVKEY'')) = Some priv" "kt_address K key = Inr employer"
    "kt_address K fresh_key = Inr recipient" "kt_public K priv = Inr pub" "seals_to X pub ?V (le_ecies L)"
    using assms(2) unfolding script_accounts_def by (elim conjE exE)
  have acc: "v_isAddress ?V employer" "v_isAddress ?V recipient" "hex_address employer = Some (le_me L)"
    "v_isAddress ?V ?addr" "units_ok ?addr" "hex_address ?addr = Some (le_vault L)"
    using assms(2) by (simp_all add: script_accounts_def)
  have fit: "plain_terms ?V terms"
    unfolding terms_def using d37 assms(11,12) by (intro e2e_record_fits [OF abi acc(1,2) tk(1) _ rate(2,3)]) (simp_all add: dec_def start_def)
  have tm: "t_token terms = ?tok" "t_recipient terms = recipient" "t_employer terms = employer" "t_startTime terms = start"
    by (simp_all add: terms_def e2e_record_def)
  obtain h where h: "encodeTerms ?V terms = Inr h" "commitTo ?V terms = Inr (v_keccak_hex ?V h)"
    using viem_abi.plain_words [OF abi fit] by (auto simp: commitTo_def)
  have et: "e2e_terms ?V employer recipient ?tok dec start (salt_of ?V salt) = Inr h"
    using e2e_terms_record [where dec = dec, OF rate(1)] h(1) by (simp add: terms_def)
  have c0: "commitTo ?V terms \<noteq> Inr (hex32 0)" using assms(13) [of h] et h(2) by (simp add: dec_def start_def salt_def)
  obtain i cipher plain t w2 where o: "e2e_open X ?V ?N abi ?addr ?tok recipient pub start (uint n) h w
      = (Inr (uint i, hex32 (keccak ?E plain), bytesToHex cipher), w2)" "h = bytesToHex plain"
    "ecies_decrypt ?V (le_ecies L) cipher = Inr plain" "decodeTerms ?V (bytesToHex plain) = Inr t" "same_terms terms t"
    "opened L w n r tok i plain w2"
    using e2e_open_runs [OF abi k(6) fit c0 h(1), unfolded tm, OF co assms(3)] by metis
  have w2: "lv_time w2 = lv_time w + 3 * le_tick L" using o(6) by (simp add: opened_def)
  define a where "a = accruedAt t (start + int (3600 + 3 * le_tick L))"
  have a: "0 < a" "a \<le> 5 * 10 ^ dec"
    unfolding a_def using e2e_accrual [OF _ _ _ rate(2,3), of t start "int (3600 + 3 * le_tick L)"] o(5) assms(10)
    by (simp_all add: same_terms_def terms_def e2e_record_def)
  have emp: "to_lower employer = to_lower (t_employer t)" using o(5) tm(3) by (simp add: same_terms_def)
  obtain st sig where ask: "e2e_ask ?V G ?N (uint (le_chain L)) ?addr (uint i) (hex32 (keccak ?E plain)) (bytesToHex cipher) w2
      = (Inr (a, int (lv_time w2) + 600, bytesToHex sig), w2\<lparr>lv_app := st\<rparr>)"
    "recoverEthSigned ?E (auth_digest ?E (WITHDRAW_TAG ?E) (le_chain L) (le_vault L) i (keccak ?E plain)
       (word_of_int a) (word_of_int (int (lv_time w2) + 600))) sig = Inr (v_teeSigner (lv_vault w))"
    by (rule e2e_ask_granted [OF assms(1) acc(4-6) _ o(3,4) emp refl refl, of w2 a G i])
      (use w2 assms(10,12) in \<open>simp_all add: a_def start_def\<close>)
  obtain w5 where "e2e_withdraw ?N abi ?addr ?tok recipient (uint i) (bytesToHex plain)
      (a, int (lv_time w2) + 600, bytesToHex sig) (w2\<lparr>lv_app := st\<rparr>) = (Inr (), w5)"
    using e2e_withdraw_runs [OF o(6) _ _ co assms(4,5) ask(2), of "w2\<lparr>lv_app := st\<rparr>" recipient]
      assms(3,9,10,12) a w2 un by auto
  then show ?thesis
    using k(1-5) o(1,2) ask(1) et un
    by (simp add: e2e_main_def s_bind_def readTokenMeta_def dec_def [symmetric] start_def salt_def)
qed

section \<open>A concrete world\<close>

definition live_evm :: evm where
  "live_evm = demo_evm\<lparr>keccak := \<lambda>bs. set_bit 0 (keccak demo_evm bs)\<rparr>"

definition live_viem :: viem where
  "live_viem = ref_viem live_evm (\<lambda>_ _. Inr demo_employer) (\<lambda>_ _. Inr (bytesToHex (replicate 64 0 @ [27]))) (\<lambda>_ c. Inr c)"

definition demo_live :: live_env where
  "demo_live = \<lparr>le_viem = live_viem, le_engine = demo_engine, le_evm = live_evm, le_goodbye = \<lambda>_. Inl (Error []),
     le_ecies = js ''k1'', le_signer = js ''k2'', le_me = 1, le_sign = \<lambda>_. Inr (js ''0x''), le_vault = 9, le_chain = 114,
     le_decimals = 6, le_tick = 2, le_lost = Error []\<rparr>"

definition demo_script_env :: "jsstr \<Rightarrow> jsstr option" where
  "demo_script_env k = (if k = js ''DEPLOYMENT_PRIVATE_KEY'' then Some (js ''dk'')
     else if k = js ''TEE_ECIES_PRIVKEY'' then Some (js ''k1'')
     else if k = js ''STREAMVAULT_ADDRESS'' then Some (addr_text 9) else None)"

definition demo_keys_of :: keytools where
  "demo_keys_of = \<lparr>kt_address = \<lambda>k. Inr (if k = js ''dk'' then demo_employer else addr_text 2),
     kt_public = \<lambda>_. Inr []\<rparr>"

definition demo_live_world :: live where
  "demo_live_world = \<lparr>lv_vault = new_vault 1 5,
     lv_tokens = \<lambda>_. \<lparr>e_balanceOf = (\<lambda>_. 0)(1 := 5000000), e_allowance = \<lambda>_ _. 0\<rparr>, lv_time = 2000, lv_app = init_state,
     lv_receipt = \<lparr>rc_status = [], rc_logs = []\<rparr>\<rparr>"

interpretation live: viem_abi live_viem live_evm
  unfolding live_viem_def by (rule ref.viem_abi_axioms)

lemma live_keccak: "keccak live_evm bs \<noteq> 0"
proof
  assume "keccak live_evm bs = 0"
  then have "bit (keccak live_evm bs) 0 = bit (0 :: uint256) 0" by simp
  then show False by (simp add: live_evm_def bit_set_bit_iff)
qed

lemma demo_live_ok: "live_ok demo_live 5 demo_employer"
proof -
  have "recoverEthSigned live_evm h (replicate 64 0 @ [27]) = Inr 5" for h
    by (simp add: recoverEthSigned_def live_evm_def demo_evm_def Let_def)
  moreover have "viem_abi live_viem live_evm" by (rule live.viem_abi_axioms)
  ultimately show ?thesis
    by (auto simp: live_ok_def live_enclave_def demo_live_def signs_for_def signs_as_def live_node_def live_viem_def ref_viem_def
        ascii_units_ok ascii_js)
qed

lemma demo_script_vault: "script_vault demo_script_env = addr_text 9"
  by (simp add: script_vault_def env_or_def demo_script_env_def)

lemma demo_recipient_key: "kt_address demo_keys_of (DEMO_RECIPIENT_KEY live_viem) = Inr (addr_text 2)"
proof -
  have "DEMO_RECIPIENT_KEY live_viem = hex32 (keccak live_evm (v_toBytes live_viem (js ''stealthwage-demo-alice-v1'')))"
    by (simp add: DEMO_RECIPIENT_KEY_def live.keccak_bytes)
  moreover have "hex32 w \<noteq> js ''dk''" for w :: uint256
    by (simp add: hex32_def bytesToHex_def js_Cons)
  ultimately show ?thesis by (simp add: demo_keys_of_def)
qed

lemma demo_employer_text: "demo_employer = addr_text 1"
  by (simp add: demo_employer_def addr_text_def)

lemma demo_live_simps [simp]:
  "le_viem demo_live = live_viem" "le_engine demo_live = demo_engine" "le_evm demo_live = live_evm"
  "le_ecies demo_live = js ''k1''" "le_signer demo_live = js ''k2''" "le_me demo_live = 1" "le_vault demo_live = 9"
  "le_chain demo_live = 114" "le_decimals demo_live = 6" "le_tick demo_live = 2"
  by (simp_all add: demo_live_def)

lemma demo_accounts:
  assumes "kt_address demo_keys_of key = Inr (addr_text 2)"
  shows "script_accounts demo_live demo_tools demo_keys_of demo_script_env key demo_employer (addr_text 2)"
proof -
  have "ref_isAddress (addr_text a)" "units_ok (addr_text a)" for a
    by (simp_all add: addr_text_def ref_isAddress_lower ascii_units_ok ascii_bytesToHex)
  moreover have "present (demo_script_env (js ''DEPLOYMENT_PRIVATE_KEY'')) = Some (js ''dk'')"
    "present (demo_script_env (js ''TEE_ECIES_PRIVKEY'')) = Some (js ''k1'')"
    by (simp_all add: demo_script_env_def present_def js_Cons)
  ultimately show ?thesis
    using assms
    by (simp add: script_accounts_def demo_script_vault)
     (simp add: demo_keys_of_def seals_to_def demo_tools_def live_viem_def ref_viem_def demo_employer_text)
qed

lemma FXRP_address: "hex_address FXRP = Some 65167505271234605724240767235227777341768285639" "ref_isAddress FXRP"
  by code_simp+

lemma demo_ready: "vault_ready (new_vault 1 5)"
  by (simp add: vault_ready_def new_vault_def vault_ok_def)

lemma demo_can_open:
  assumes "unat n \<le> 5000000" "n \<noteq> 0" "{''createStream'', ''fund''} \<subseteq> set abi"
  shows "can_open demo_live abi (addr_text 9) FXRP 65167505271234605724240767235227777341768285639 2 n demo_live_world"
  using assms demo_ready
  by (simp add: can_open_def demo_live_world_def new_vault_def FXRP_address) (simp add: live_viem_def ref_viem_def FXRP_address)

lemma demo_commits: "plain_terms live_viem t \<Longrightarrow> commitTo live_viem t \<noteq> Inr (hex32 0)"
  using live.plain_words hex32_inj live_keccak by (metis sum.inject(2))

theorem settle_script_passes_witness:
  "fst (settle_main live_viem demo_engine demo_tools demo_keys_of (live_node demo_live)
     [''createStream'', ''fund'', ''cancelStream''] demo_script_env 114 demo_live_world) = Inr ()"
proof -
  let ?abi = "[''createStream'', ''fund'', ''cancelStream'']"
  have c: "commitTo live_viem (settle_terms live_viem demo_employer (addr_text 2) (10 ^ 6) (2000 * 1000)) \<noteq> Inr (hex32 0)"
    by (rule demo_commits [OF settle_terms_fit [OF live.viem_abi_axioms]])
      (simp_all add: live_viem_def ref_viem_def demo_employer_def addr_text_def ref_isAddress_lower FXRP_address)
  have s: "script_accounts demo_live demo_tools demo_keys_of demo_script_env (DEMO_RECIPIENT_KEY (le_viem demo_live))
      demo_employer (addr_text 2)"
    using demo_accounts [OF demo_recipient_key] by simp
  have o: "can_open demo_live ?abi (script_vault demo_script_env) FXRP 65167505271234605724240767235227777341768285639 2
      (word_of_int (10 ^ le_decimals demo_live)) demo_live_world"
    unfolding demo_script_vault by (rule demo_can_open) simp_all
  from settle_script_passes [OF _ s _ _ _ o, of demo_engine] show ?thesis
    using demo_live_ok c by (simp add: demo_live_world_def new_vault_def)
qed

theorem e2e_script_passes_witness:
  "fst (e2e_main live_viem demo_engine demo_tools demo_keys_of (live_node demo_live)
     [''createStream'', ''fund'', ''withdraw'', ''revealTerms''] demo_script_env 114 (js ''fresh'') []
     (demo_live_world\<lparr>lv_time := 5000\<rparr>)) = Inr ()"
proof -
  let ?abi = "[''createStream'', ''fund'', ''withdraw'', ''revealTerms'']" let ?w = "demo_live_world\<lparr>lv_time := 5000\<rparr>"
  obtain rate where rt: "toScaledRate (rate_text (10 * 10 ^ 6)) = Inr rate" and near: "rate_near rate 6"
    using rate_text_near [of 6] by auto
  have t: "e2e_token demo_script_env = FXRP" by (simp add: e2e_token_def env_or_def demo_script_env_def FXRP_def)
  have c: "v_keccak_hex live_viem h \<noteq> hex32 0"
    if "e2e_terms live_viem demo_employer (addr_text 2) FXRP 6 1400 (salt_of live_viem salt) = Inr h" for h salt
  proof -
    have "plain_terms live_viem (e2e_record live_viem demo_employer (addr_text 2) FXRP 6 rate 1400 salt)"
      by (rule e2e_record_fits [OF live.viem_abi_axioms])
        (use near in \<open>simp_all add: rate_near_def live_viem_def ref_viem_def demo_employer_def addr_text_def ref_isAddress_lower FXRP_address\<close>)
    from demo_commits [OF this] that show ?thesis
      by (simp add: e2e_terms_record [where dec = 6, OF rt] commitTo_def)
  qed
  have "kt_address demo_keys_of (js ''fresh'') = Inr (addr_text 2)" by (simp add: demo_keys_of_def)
  note s = demo_accounts [OF this]
  have "can_open demo_live ?abi (addr_text 9) FXRP 65167505271234605724240767235227777341768285639 2
      (word_of_int (5 * 10 ^ le_decimals demo_live)) demo_live_world"
    by (rule demo_can_open) simp_all
  then have o: "can_open demo_live ?abi (script_vault demo_script_env) (e2e_token demo_script_env)
      65167505271234605724240767235227777341768285639 2 (word_of_int (5 * 10 ^ le_decimals demo_live)) ?w"
    unfolding t demo_script_vault by (simp add: can_open_def)
  from e2e_script_passes [OF _ s _ _ _ _ _ o, of "[]" demo_engine] show ?thesis
    using demo_live_ok c by (simp add: demo_live_world_def new_vault_def t)
qed

section \<open>The demo stream\<close>

text \<open>C40: the demo stream stays funded.  From the moment \<^verbatim>\<open>create-demo-stream.ts\<close> creates it, three days backdated,
  until 29 days later, what the demo stream accrues is a quarter token a day, exact to one unit of the token,
  never exceeds the eight tokens the script funds it with and never meets the cap, for any token of 2 to 22
  decimals.\<close>

theorem demo_stream_stays_funded:
  assumes "2 \<le> dec" "dec \<le> 22" "now_ms div 1000 \<le> t" "t \<le> now_ms div 1000 + 29 * 86400"
  shows "\<exists>u. demo_script_terms V employer recipient token dec now_ms = Inr u
    \<and> accruedAt u t \<le> FUND_WHOLE * 10 ^ dec \<and> accruedAt u t < t_total u
    \<and> 10 ^ dec * (t - t_startTime u) div (4 * 86400) - 1 \<le> accruedAt u t
    \<and> accruedAt u t \<le> 10 ^ dec * (t - t_startTime u) div (4 * 86400)"
proof -
  let ?p = "(10 :: int) ^ dec"
  obtain x where d: "demo_per_day dec = Inr x" and x: "x * 4 = ?p" using demo_per_day_exact [OF assms(1,2)] by blast
  then obtain u where u: "demo_script_terms V employer recipient token dec now_ms = Inr u" by (simp add: demo_script_terms_def)
  let ?s = "t - t_startTime u"
  have p: "0 < ?p" by simp
  have f: "t_startTime u = now_ms div 1000 - 3 * 86400" "t_ratePerSecond u = ratePerDayToScaled x" "t_total u = 100 * ?p"
    using u d by (auto simp: demo_script_terms_def BACKDATE_DAYS_def TOTAL_WHOLE_def)
  have s: "0 \<le> ?s" "?s \<le> 32 * 86400" using assms(3,4) f(1) by simp_all
  have x0: "0 \<le> x" using x p by linarith
  have "x * ?s \<le> x * (32 * 86400)" using x0 s(2) by (rule mult_left_mono [rotated])
  then have le: "x * ?s div 86400 \<le> x * 32" using zdiv_mono1 [of "x * ?s" "x * (32 * 86400)" 86400] by simp
  have b: "x * 32 = 8 * ?p" "x * 32 < t_total u" using x p f(3) by linarith+
  have "?p * ?s div (4 * 86400) = (4 * (x * ?s)) div (4 * 86400)" by (simp add: x [symmetric] mult_ac)
  then have e: "?p * ?s div (4 * 86400) = x * ?s div 86400" by (simp only: div_mult_mult1)
  have "x * ?s div 86400 - 1 \<le> accruedAt u (t_startTime u + ?s)" "accruedAt u (t_startTime u + ?s) \<le> x * ?s div 86400"
    using x0 s f(2) le b(2) by (intro daily_rate_loss_parts; simp)+
  then show ?thesis using u le b e by (simp add: FUND_WHOLE_def)
qed

theorem demo_stream_stays_funded_witness:
  "\<exists>u. demo_script_terms demo_viem (js ''0xaa'') (js ''0xbb'') (js ''0xcc'') 6 1755000000000 = Inr u \<and>
     accruedAt u (1755000000 + 86400 * 9) \<le> FUND_WHOLE * 10 ^ 6"
  using demo_stream_stays_funded [of 6 1755000000000 "1755000000 + 86400 * 9" demo_viem "js ''0xaa''" "js ''0xbb''" "js ''0xcc''"]
  by auto

end
