(* ===== verification/CheckScripts.thy ===== *)
theory CheckScripts
  imports ChainScripts
begin

text \<open>
  The scripts that check one part at a time: \<^verbatim>\<open>frontend/scripts/check-enclave-client.ts\<close>, which drives
  the browser's own client against a running enclave, \<^verbatim>\<open>verify-browser-ciphertext.ts\<close>, which opens a
  ciphertext with the enclave's key, and \<^verbatim>\<open>gen-golden-vectors.ts\<close>, which prints the digests that the
  contract's tests pin.  Signing with a local key is an argument.
\<close>

section \<open>check-enclave-client.ts\<close>

definition STRANGER_KEY :: "viem \<Rightarrow> jsstr" where
  "STRANGER_KEY V = v_keccak_bytes V (v_toBytes V (js ''not-a-party''))"

text \<open>\<^verbatim>\<open>fail\<close> does not return.\<close>

definition fail_check :: "jsstr \<Rightarrow> ('w, 'a) script" where
  "fail_check msg = (\<lambda>w. (Inl (js ''FAILED: '' @ msg), w))"

text \<open>\<^verbatim>\<open>requestAuthorization\<close> of the browser's client, against the world.\<close>

definition ask_enclave ::
    "engine \<Rightarrow> 'w node \<Rightarrow> int \<Rightarrow> auth_request \<Rightarrow> jsstr \<Rightarrow> ('w, enclave_reply) script" where
  "ask_enclave G N now_ms req command = (\<lambda>w.
     case nd_post N (buildActionBody (js ''STREAM'') command (request_json req) now_ms) w of
       (r, w1) \<Rightarrow> s_result (requestAuthorization G (\<lambda>_. r) now_ms req command) w1)"

definition check_request :: "chain_config \<Rightarrow> int \<Rightarrow> jsstr \<Rightarrow> jsstr \<Rightarrow> int \<Rightarrow> jsstr \<Rightarrow> auth_request" where
  "check_request C chainId commitment sealed issuedAt sig =
     \<lparr>r_streamId = js_of_int (cc_demo_stream C), r_vault = cc_vault C, r_chainId = js_of_int chainId,
      r_commitment = commitment, r_encryptedTerms = sealed, r_issuedAt = js_of_int issuedAt,
      r_callerSignature = sig\<rparr>"

text \<open>A request signed with a key.\<close>

definition check_ask ::
    "viem \<Rightarrow> engine \<Rightarrow> 'w node \<Rightarrow> chain_config \<Rightarrow> (jsstr \<Rightarrow> jsstr \<Rightarrow> jsstr result) \<Rightarrow> int \<Rightarrow> jsstr \<Rightarrow> jsstr \<Rightarrow> int
       \<Rightarrow> jsstr \<Rightarrow> ('w, enclave_reply) script" where
  "check_ask V G N C sign_with chainId commitment sealed issuedAt key =
     s_bind (s_result (sign_challenge V (sign_with key) chainId (cc_vault C) (cc_demo_stream C) commitment
               (withdraw_tag V) issuedAt)) (\<lambda>callerSignature.
     s_bind (s_read (nd_now N)) (\<lambda>now_ms.
     ask_enclave G N now_ms (check_request C chainId commitment sealed issuedAt callerSignature)
       (js ''AUTH_WITHDRAW'')))"

definition check_main ::
    "viem \<Rightarrow> engine \<Rightarrow> keytools \<Rightarrow> 'w node \<Rightarrow> chain_config \<Rightarrow> (jsstr \<Rightarrow> jsstr \<Rightarrow> jsstr result) \<Rightarrow> int
       \<Rightarrow> ('w, unit) script" where
  "check_main V G K N C sign_with chainId =
     s_bind (s_result (kt_address K (DEMO_RECIPIENT_KEY V))) (\<lambda>alice.
     s_bind (s_bind (s_read (\<lambda>w. readStream (nd_rpc N w) (cc_demo_stream C))) s_result) (\<lambda>stream.
     s_bind (must (to_lower (oc_recipient stream) = to_lower alice)
               (js ''demo recipient mismatch: chain says '' @ oc_recipient stream @ js '', derived '' @ alice)) (\<lambda>_.
     s_bind (s_bind (s_read (\<lambda>w. fetchEncryptedTerms C (nd_rpc N w) (cc_demo_stream C))) s_result) (\<lambda>sealed.
     case present sealed of
       None \<Rightarrow> fail_check (js ''could not fetch sealed terms from the explorer API'')
     | Some sealed \<Rightarrow>
     s_bind (s_read (nd_now N)) (\<lambda>now_ms.
     s_bind (check_ask V G N C sign_with chainId (oc_commitment stream) sealed (now_ms div 1000)
               (DEMO_RECIPIENT_KEY V)) (\<lambda>res.
     case res of
       Unreachable d \<Rightarrow> fail_check (js ''unreachable: '' @ d @
         10 # js ''  (is the extension running?  cd typescript && npm run serve)'')
     | Rejected d \<Rightarrow> fail_check (js ''rejected: '' @ d)
     | AuthOk auth \<Rightarrow>
     s_bind (s_result (need_str G auth ''signature'')) (\<lambda>_.
     s_bind (s_result (need_str G auth ''terms'')) (\<lambda>termsHex.
     s_bind (must (to_lower (v_keccak_hex V termsHex) = to_lower (oc_commitment stream))
               (js ''returned terms do not hash to the on-chain commitment'')) (\<lambda>_.
     s_bind (s_result (decodeTerms V termsHex)) (\<lambda>_.
     s_bind (s_result (kt_address K (STRANGER_KEY V))) (\<lambda>_.
     s_bind (check_ask V G N C sign_with chainId (oc_commitment stream) sealed (now_ms div 1000)
               (STRANGER_KEY V)) (\<lambda>denied.
     case denied of
       AuthOk _ \<Rightarrow> fail_check (js ''a stranger was authorized '' @ 0x2014 # js '' caller-auth is broken'')
     | _ \<Rightarrow> s_return ()))))))))))))"

section \<open>verify-browser-ciphertext.ts\<close>

text \<open>The exit code, of the arguments after the script's name.\<close>

definition arg :: "jsstr list \<Rightarrow> nat \<Rightarrow> jsstr option" where
  "arg args i = (if i < length args then Some (args ! i) else None)"

definition verify_ct :: "viem \<Rightarrow> (jsstr \<Rightarrow> jsstr option) \<Rightarrow> jsstr list \<Rightarrow> nat" where
  "verify_ct V env args =
     (case present (arg args 0) of
        None \<Rightarrow> 1
      | Some ciphertextHex \<Rightarrow>
     (case present (env (js ''TEE_ECIES_PRIVKEY'')) of
        None \<Rightarrow> 1
      | Some eciesPriv \<Rightarrow>
     (let clean = (if starts_with ciphertextHex (js ''0x'') then drop 2 ciphertextHex else ciphertextHex) in
      case ecies_decrypt V eciesPriv (buffer_hex clean) of
        Inl _ \<Rightarrow> 1
      | Inr plaintext \<Rightarrow>
     (let termsHex = bytesToHex plaintext; commitment = v_keccak_hex V termsHex in
      case decodeTerms V termsHex of
        Inl _ \<Rightarrow> 1
      | Inr _ \<Rightarrow>
     (case present (arg args 1) of
        None \<Rightarrow> 0
      | Some expected \<Rightarrow> if to_lower commitment = to_lower expected then 0 else 1)))))"

section \<open>gen-golden-vectors.ts\<close>

definition GOLDEN_VAULT :: jsstr where
  "GOLDEN_VAULT = js ''0x'' @ replicate 40 49"

definition GOLDEN_COMMITMENT :: jsstr where
  "GOLDEN_COMMITMENT = js ''0x'' @ replicate 64 50"

definition golden_params :: "jsstr \<Rightarrow> auth_params" where
  "golden_params tag = \<lparr>a_tag = tag, a_chainId = 114, a_vault = GOLDEN_VAULT, a_streamId = 7,
     a_commitment = GOLDEN_COMMITMENT, a_cumulativeAccrued = 123456789000000000, a_deadline = 1893456000\<rparr>"

text \<open>The three entries of one purpose.\<close>

definition golden_entries ::
    "viem \<Rightarrow> (jsstr \<Rightarrow> jsstr result) \<Rightarrow> string \<Rightarrow> jsstr \<Rightarrow> (jsstr \<times> json) list result" where
  "golden_entries V sign name tag =
     (case buildAuthDigest V (golden_params tag) of Inl e \<Rightarrow> Inl e
      | Inr digest \<Rightarrow>
         (case sign digest of Inl e \<Rightarrow> Inl e
          | Inr sig \<Rightarrow> Inr [(js (name @ ''Tag''), JStr tag), (js (name @ ''Digest''), JStr digest),
                            (js (name @ ''Signature''), JStr sig)]))"

definition golden_vectors :: "viem \<Rightarrow> (jsstr \<Rightarrow> jsstr result) \<Rightarrow> jsstr \<Rightarrow> json result" where
  "golden_vectors V sign address =
     (let p = golden_params [] in
      case golden_entries V sign ''withdraw'' (withdraw_tag V) of Inl e \<Rightarrow> Inl e
      | Inr w \<Rightarrow>
         (case golden_entries V sign ''settle'' (settle_tag V) of Inl e \<Rightarrow> Inl e
          | Inr s \<Rightarrow> Inr (JObj ([(js ''signer'', JStr address), (js ''vault'', JStr (a_vault p)),
              (js ''chainId'', JStr (js_of_int (a_chainId p))), (js ''streamId'', JStr (js_of_int (a_streamId p))),
              (js ''commitment'', JStr (a_commitment p)),
              (js ''cumulativeAccrued'', JStr (js_of_int (a_cumulativeAccrued p))),
              (js ''deadline'', JStr (js_of_int (a_deadline p)))] @ w @ s))))"

end
