(* ===== verification/CheckTheorems.thy ===== *)
theory CheckTheorems
  imports CheckScripts ScriptSteps
begin

text \<open>
  What the checking scripts establish: the check of the browser's client passes against the enclave, the
  ciphertext check agrees with the enclave's own decision, and the golden vectors are the contract's digests.
  The concrete world of the witnesses is at the end of each section.
\<close>

section \<open>Asking as the browser does\<close>

text \<open>The extension's server behind a node.\<close>

definition serves :: "live_env \<Rightarrow> live node \<Rightarrow> bool" where
  "serves L N \<longleftrightarrow> nd_post N = live_post L \<and> nd_now N = (\<lambda>w. int (lv_time w) * 1000)"

definition signs_with :: "viem \<Rightarrow> (jsstr \<Rightarrow> jsstr result) \<Rightarrow> jsstr \<Rightarrow> bool" where
  "signs_with V sign account \<longleftrightarrow>
     (\<forall>d. \<exists>sig. sign (hex32 d) = Inr sig \<and> v_recover V (hex32 d) sig = Inr account \<and> units_ok sig)"

definition key_wallet :: "(jsstr \<Rightarrow> jsstr result) \<Rightarrow> unit wallet" where
  "key_wallet sign = \<lparr>wl_sign = sign, wl_write = \<lambda>_ _ _ _ w. (Inl (Error []), w), wl_receipt = \<lambda>_ _. Inl (Error [])\<rparr>"

lemma key_wallet_signs: "signs_as V (key_wallet sign) account \<longleftrightarrow> signs_with V sign account"
  by (simp add: signs_as_def signs_with_def key_wallet_def)

lemma ask_enclave_live:
  assumes "serves L N" "G = le_engine L"
  shows "\<exists>s. ask_enclave G N now_ms req command w =
    s_result (requestAuthorization G (post_to G (app_server (le_viem L) G (le_goodbye L)) (live_stream_env L w) None
      (le_lost L) (lv_app w)) now_ms req command) (w\<lparr>lv_app := s\<rparr>)"
  using assms
  by (subst requestAuthorization_post) (auto simp: ask_enclave_def serves_def live_post_def Let_def)

lemma check_ask_party:
  assumes "live_enclave L signer" "serves L N" "signs_with (le_viem L) (sign_with key) caller"
    and "v_isAddress (le_viem L) (cc_vault C)" "units_ok (cc_vault C)" "hex_address (cc_vault C) = Some (le_vault L)"
    and "int (lv_time w) < 2 ^ 255" "ecies_decrypt (le_viem L) (le_ecies L) cipher = Inr plain"
    and "decodeTerms (le_viem L) (bytesToHex plain) = Inr terms" "party (le_viem L) (withdraw_tag (le_viem L)) terms caller"
    and "cc_demo_stream C = uint (i :: uint256)"
  shows "\<exists>req sig a d s. check_ask (le_viem L) (le_engine L) N C sign_with (uint (le_chain L)) (hex32 (keccak (le_evm L) plain))
      (bytesToHex cipher) (int (lv_time w)) key w = (Inr (AuthOk (auth_response req a d sig (bytesToHex plain))), w\<lparr>lv_app := s\<rparr>)"
proof (rule live_granted [OF assms(1) assms(3) [folded key_wallet_signs] disjI1 assms(4-10) refl refl refl, of "WITHDRAW_TAG (le_evm L)" i])
  fix req sig n
  let ?t = "int (lv_time w)" let ?a = "accruedAt terms (int (lv_time w))"
  assume r: "sign_challenge (le_viem L) (wl_sign (key_wallet (sign_with key))) (uint (le_chain L)) (cc_vault C) (uint i)
       (hex32 (keccak (le_evm L) plain)) (withdraw_tag (le_viem L)) ?t = Inr (r_callerSignature req)"
    and req: "req = \<lparr>r_streamId = js_of_int (uint i), r_vault = cc_vault C, r_chainId = js_of_int (uint (le_chain L)),
       r_commitment = hex32 (keccak (le_evm L) plain), r_encryptedTerms = bytesToHex cipher, r_issuedAt = js_of_int ?t,
       r_callerSignature = r_callerSignature req\<rparr>"
    and ok: "json_ok (auth_response req ?a (?t + 600) (bytesToHex sig) (bytesToHex plain))"
    and run: "authorize (le_viem L) (le_engine L) (live_stream_env L w) (JStr (json_to_hex (request_json req))) (withdraw_tag (le_viem L))
       (authCount (lv_app w))
      = (Inr (Some (json_to_hex (auth_response req ?a (?t + 600) (bytesToHex sig) (bytesToHex plain))), 1, None), n)"
  obtain ms where ms: "auth_response req ?a (?t + 600) (bytesToHex sig) (bytesToHex plain) = JObj ms"
    using auth_response_obj by blast
  have ct: "command_tag (le_viem L) (js ''AUTH_WITHDRAW'') (withdraw_tag (le_viem L))"
    by (simp add: command_tag_def OP_COMMAND_AUTH_WITHDRAW_def)
  have "requestAuthorization (le_engine L) (post_to (le_engine L) (app_server (le_viem L) (le_engine L) (le_goodbye L))
      (live_stream_env L w) None (le_lost L) (lv_app w)) (?t * 1000) req (js ''AUTH_WITHDRAW'') = Inr (AuthOk (JObj ms))"
    using client_reply [OF ct run] granted_reply [OF ok [unfolded ms]] by (simp add: ms)
  then obtain s where "ask_enclave (le_engine L) N (?t * 1000) req (js ''AUTH_WITHDRAW'') w = (Inr (AuthOk (JObj ms)), w\<lparr>lv_app := s\<rparr>)"
    using ask_enclave_live [OF assms(2) refl, of "?t * 1000" req "js ''AUTH_WITHDRAW''" w] by auto
  moreover have "check_request C (uint (le_chain L)) (hex32 (keccak (le_evm L) plain)) (bytesToHex cipher) ?t (r_callerSignature req) = req"
    using req assms(11) by (simp add: check_request_def)
  ultimately have "check_ask (le_viem L) (le_engine L) N C sign_with (uint (le_chain L)) (hex32 (keccak (le_evm L) plain))
      (bytesToHex cipher) ?t key w = (Inr (AuthOk (JObj ms)), w\<lparr>lv_app := s\<rparr>)"
    using r assms(2,11) by (simp add: check_ask_def s_bind_def key_wallet_def serves_def)
  then show ?thesis unfolding ms [symmetric] by blast
qed simp

lemma check_ask_stranger:
  assumes "live_enclave L signer" "serves L N" "signs_with (le_viem L) (sign_with key) caller"
    and "v_isAddress (le_viem L) (cc_vault C)" "units_ok (cc_vault C)"
    and "int (lv_time w) < 2 ^ 255" "ecies_decrypt (le_viem L) (le_ecies L) cipher = Inr plain"
    and "decodeTerms (le_viem L) (bytesToHex plain) = Inr terms" "\<not> party (le_viem L) (withdraw_tag (le_viem L)) terms caller"
    and "cc_demo_stream C = uint (i :: uint256)" "chainId = uint (le_chain L)"
  shows "\<exists>r s. check_ask (le_viem L) (le_engine L) N C sign_with chainId (hex32 c) (bytesToHex cipher) (int (lv_time w)) key w
      = (Inr r, s) \<and> (\<forall>auth. r \<noteq> AuthOk auth)"
proof -
  let ?V = "le_viem L" let ?G = "le_engine L" let ?t = "int (lv_time w)" let ?tag = "withdraw_tag ?V" let ?env = "live_stream_env L w"
  have abi: "viem_abi ?V (le_evm L)" using assms(1) by (simp add: live_enclave_def)
  have tw: "hex_word 32 ?tag = Some (WITHDRAW_TAG (le_evm L))" by (simp add: viem_abi.tag_words [OF abi])
  have b: "0 \<le> chainId" "chainId < 2 ^ 256" using assms(11) unsigned_less [of "le_chain L"] by simp_all
  have t: "?t < 2 ^ 256" using assms(6) by simp
  obtain req where r: "sign_challenge ?V (sign_with key) chainId (cc_vault C) (uint i) (hex32 c) ?tag ?t = Inr (r_callerSignature req)"
    "req = \<lparr>r_streamId = js_of_int (uint i), r_vault = cc_vault C, r_chainId = js_of_int chainId,
       r_commitment = hex32 c, r_encryptedTerms = bytesToHex cipher, r_issuedAt = js_of_int ?t,
       r_callerSignature = r_callerSignature req\<rparr>"
    "request_ok req" "recover_caller ?V req ?tag ?t = Inr caller"
    using sign_challenge_run [OF abi tw assms(4,5) b _ t assms(3) [folded key_wallet_signs], of "bytesToHex cipher" i c]
    by (auto simp: ascii_units_ok ascii_bytesToHex key_wallet_def)
  have f: "r_encryptedTerms req = bytesToHex cipher" "r_issuedAt req = js_of_int ?t" by (subst r(2), simp)+
  obtain res n where run: "authorize ?V ?G ?env (JStr (json_to_hex (request_json req))) ?tag (authCount (lv_app w)) = (res, n)"
    by fastforce
  have no: "res \<noteq> Inr (Some d, st, er)" for d st er
  proof
    assume "res = Inr (Some d, st, er)"
    with run have "authorize ?V ?G ?env (JStr (json_to_hex (request_json req))) ?tag (authCount (lv_app w)) = (Inr (Some d, st, er), n)"
      by simp
    then obtain req' plain' terms' caller' sg where g: "granted ?V ?G ?env (JStr (json_to_hex (request_json req))) ?tag req' plain' terms' caller' sg"
      "party ?V ?tag terms' caller'" by (rule authorize_data) blast
    have "tee_keys ?env = Some (le_ecies L, le_signer L)"
      using assms(1) by (simp add: tee_keys_def live_stream_env_def present_def live_enclave_def split: list.split)
    with g(1) f r(4) assms(7,8) have "terms' = terms" "caller' = caller"
      by (auto simp: granted_def decode_request_json [OF r(3)] to_bigint_def)
    with g(2) assms(9) show False by simp
  qed
  have ct: "command_tag ?V (js ''AUTH_WITHDRAW'') ?tag" by (simp add: command_tag_def OP_COMMAND_AUTH_WITHDRAW_def)
  have "\<exists>x. requestAuthorization ?G (post_to ?G (app_server ?V ?G (le_goodbye L)) ?env None (le_lost L) (lv_app w))
      (?t * 1000) req (js ''AUTH_WITHDRAW'') = Inr x \<and> (\<forall>auth. x \<noteq> AuthOk auth)"
  proof (cases res)
    case (Inl e)
    with client_reply [OF ct run] show ?thesis by simp (simp add: requestAuthorization_def)
  next
    case (Inr y)
    obtain d st er where y: "y = (d, st, er)" by (cases y) auto
    with no Inr have "d = None" by (cases d) auto
    then obtain m where "requestAuthorization ?G (post_to ?G (app_server ?V ?G (le_goodbye L)) ?env None (le_lost L) (lv_app w))
        (?t * 1000) req (js ''AUTH_WITHDRAW'') = Inr (Rejected m)"
      using client_refused [OF r(3) ct] run Inr y by metis
    then show ?thesis by simp
  qed
  then obtain x s where x: "ask_enclave ?G N (?t * 1000) req (js ''AUTH_WITHDRAW'') w = (Inr x, w\<lparr>lv_app := s\<rparr>)" "\<forall>auth. x \<noteq> AuthOk auth"
    using ask_enclave_live [OF assms(2) refl, of "?t * 1000" req "js ''AUTH_WITHDRAW''" w] by auto
  have "check_request C chainId (hex32 c) (bytesToHex cipher) ?t (r_callerSignature req) = req"
    using r(2) assms(10) by (simp add: check_request_def)
  with x(1) r(1) have "check_ask ?V ?G N C sign_with chainId (hex32 c) (bytesToHex cipher) ?t key w = (Inr x, w\<lparr>lv_app := s\<rparr>)"
    using assms(2,10) by (simp add: check_ask_def s_bind_def serves_def)
  with x(2) show ?thesis by blast
qed

text \<open>C39: the check of the browser's client comes out.  Against a live enclave registered for the contract, with the
  demo stream on the chain, its terms sealed to the enclave and published, and the demo recipient's and the
  stranger's keys signing for their accounts, \<^verbatim>\<open>check-enclave-client.ts\<close> runs to its end: the recipient is
  granted an authorization whose terms hash to the commitment and decode, and the stranger, who is neither party,
  is refused.\<close>

theorem check_client_passes:
  assumes "live_enclave L signer" "serves L N" "v_isAddress (le_viem L) (cc_vault C)" "units_ok (cc_vault C)"
    and "hex_address (cc_vault C) = Some (le_vault L)" "cc_demo_stream C = uint (i :: uint256)" "int (lv_time w) < 2 ^ 255"
    and "readStream (nd_rpc N w) (uint i) = Inr st" "oc_commitment st = hex32 (keccak (le_evm L) plain)"
    and "fetchEncryptedTerms C (nd_rpc N w) (uint i) = Inr (Some (bytesToHex cipher))"
    and "ecies_decrypt (le_viem L) (le_ecies L) cipher = Inr plain" "decodeTerms (le_viem L) (bytesToHex plain) = Inr terms"
    and "kt_address K (DEMO_RECIPIENT_KEY (le_viem L)) = Inr acct" "kt_address K (STRANGER_KEY (le_viem L)) = Inr stranger"
    and "signs_with (le_viem L) (sign_with (DEMO_RECIPIENT_KEY (le_viem L))) acct"
    and "signs_with (le_viem L) (sign_with (STRANGER_KEY (le_viem L))) stranger"
    and "to_lower (oc_recipient st) = to_lower acct" "to_lower (t_recipient terms) = to_lower acct"
    and "to_lower stranger \<notin> {to_lower (t_recipient terms), to_lower (t_employer terms)}"
    and "withdraw_tag (le_viem L) \<noteq> settle_tag (le_viem L)"
  shows "fst (check_main (le_viem L) (le_engine L) K N C sign_with (uint (le_chain L)) w) = Inr ()"
proof -
  let ?V = "le_viem L" let ?c = "hex32 (keccak (le_evm L) plain)" let ?t = "int (lv_time w)"
  have p: "party ?V (withdraw_tag ?V) terms acct" "\<not> party ?V (withdraw_tag ?V) terms stranger"
    using assms(18-20) by (auto simp: party_def)
  obtain req sig a d s where ok: "check_ask ?V (le_engine L) N C sign_with (uint (le_chain L)) ?c (bytesToHex cipher) ?t
      (DEMO_RECIPIENT_KEY ?V) w = (Inr (AuthOk (auth_response req a d sig (bytesToHex plain))), w\<lparr>lv_app := s\<rparr>)"
    using check_ask_party [where sign_with = sign_with, OF assms(1,2,15,3-5,7,11,12) p(1) assms(6)] by blast
  have t: "int (lv_time (w\<lparr>lv_app := s\<rparr>)) = ?t" by simp
  obtain r w2 where no: "check_ask ?V (le_engine L) N C sign_with (uint (le_chain L)) ?c (bytesToHex cipher) ?t
      (STRANGER_KEY ?V) (w\<lparr>lv_app := s\<rparr>) = (Inr r, w2)" "\<forall>auth. r \<noteq> AuthOk auth"
    using check_ask_stranger [where sign_with = sign_with, OF assms(1,2,16,3,4) _ assms(11,12) p(2) assms(6) refl, of "w\<lparr>lv_app := s\<rparr>" "keccak (le_evm L) plain"]
      assms(7) unfolding t by auto
  have h: "v_keccak_hex ?V (bytesToHex plain) = ?c"
    using viem_abi.keccak_hex [of ?V "le_evm L"] assms(1) by (simp add: live_enclave_def)
  have f: "need_str (le_engine L) (auth_response req a d sig (bytesToHex plain)) ''terms'' = Inr (bytesToHex plain)"
    by (simp add: need_str_def auth_response_def str_prop_def get_prop_def)
  obtain x y where b: "bytesToHex cipher = x # y" by (cases "bytesToHex cipher") (simp_all add: bytesToHex_def)
  have now: "nd_now N w = ?t * 1000" using assms(2) by (simp add: serves_def)
  show ?thesis
    using ok no assms(6,8-10,12-14,17) h f b now answer_fields
    by (cases r) (simp_all add: check_main_def s_bind_def present_def)
qed

definition check_viem :: viem where
  "check_viem = ref_viem demo_evm (\<lambda>_ sg. Inr (if sg = js ''0xbb'' then addr_text 3 else addr_text 2))
     (\<lambda>_ _. Inr (bytesToHex (replicate 64 0 @ [27]))) (\<lambda>_ c. Inr c)"

interpretation check: viem_abi check_viem demo_evm
  unfolding check_viem_def by (rule ref.viem_abi_axioms)

definition check_live :: live_env where
  "check_live = \<lparr>le_viem = check_viem, le_engine = demo_engine, le_evm = demo_evm, le_goodbye = \<lambda>_. Inl (Error []),
     le_ecies = js ''k1'', le_signer = js ''k2'', le_me = 1, le_sign = \<lambda>_. Inr (js ''0x''), le_vault = 9, le_chain = 114,
     le_decimals = 6, le_tick = 2, le_lost = Error []\<rparr>"

definition check_rpc :: rpc where
  "check_rpc = demo_rpc\<lparr>rpc_streams := \<lambda>_. Inr (addr_text 1, addr_text 2, addr_text 7, hex32 (keccak demo_evm demo_plain), 1000, 0, 1000, False),
     rpc_decode_created := \<lambda>_. Inr (bytesToHex demo_plain)\<rparr>"

definition check_keys :: keytools where
  "check_keys = \<lparr>kt_address = \<lambda>k. Inr (if k = STRANGER_KEY check_viem then addr_text 3 else addr_text 2), kt_public = \<lambda>_. Inr []\<rparr>"

definition check_sign :: "jsstr \<Rightarrow> jsstr \<Rightarrow> jsstr result" where
  "check_sign k _ = Inr (if k = STRANGER_KEY check_viem then js ''0xbb'' else js ''0xaa'')"

lemma keys_differ: "DEMO_RECIPIENT_KEY check_viem \<noteq> STRANGER_KEY check_viem"
proof -
  have u: "v_toBytes check_viem = utf8_encode" by (simp add: check_viem_def ref_viem_def)
  have "keccak demo_evm (ascii_bytes ''stealthwage-demo-alice-v1'') \<noteq> keccak demo_evm (ascii_bytes ''not-a-party'')"
    by (simp add: demo_evm_def ascii_bytes_def)
  then show ?thesis
    using hex32_inj by (auto simp: DEMO_RECIPIENT_KEY_def STRANGER_KEY_def check.keccak_bytes u ascii_utf8)
qed

lemma check_fetch: "fetchEncryptedTerms (demo_config\<lparr>cc_vault := addr_text 9, cc_demo_stream := 1\<rparr>) check_rpc 1 = Inr (Some (bytesToHex demo_plain))"
  by (simp add: fetchEncryptedTerms_def queryCreatedLogs_def decodeCreatedLog_def check_rpc_def demo_rpc_def)

theorem check_client_passes_witness:
  "fst (check_main check_viem demo_engine check_keys ((live_node check_live)\<lparr>nd_rpc := \<lambda>_. check_rpc\<rparr>)
     (demo_config\<lparr>cc_vault := addr_text 9, cc_demo_stream := 1\<rparr>) check_sign 114
     \<lparr>lv_vault = new_vault 1 5, lv_tokens = \<lambda>_. \<lparr>e_balanceOf = \<lambda>_. 0, e_allowance = \<lambda>_ _. 0\<rparr>, lv_time = 2000,
      lv_app = init_state, lv_receipt = \<lparr>rc_status = [], rc_logs = []\<rparr>\<rparr>) = Inr ()"
proof -
  let ?C = "demo_config\<lparr>cc_vault := addr_text 9, cc_demo_stream := 1\<rparr>"
  let ?N = "(live_node check_live)\<lparr>nd_rpc := \<lambda>_. check_rpc\<rparr>"
  have "recoverEthSigned demo_evm h (replicate 64 0 @ [27]) = Inr 5" for h
    by (simp add: recoverEthSigned_def demo_evm_def Let_def)
  then have sf: "signs_for check_viem demo_evm k 5" for k
    unfolding signs_for_def check_viem_def ref_viem_def by (auto intro!: exI [of _ "replicate 64 0 @ [27]"])
  have e: "live_enclave check_live 5"
    using check.viem_abi_axioms sf by (auto simp: live_enclave_def check_live_def)
  have n: "serves check_live ?N" by (auto simp: serves_def)
  have s: "signs_with check_viem (check_sign k) (if k = STRANGER_KEY check_viem then addr_text 3 else addr_text 2)" for k
    by (simp add: signs_with_def check_sign_def) (simp add: check_viem_def ref_viem_def ascii_units_ok ascii_js)
  have d: "decodeTerms check_viem (bytesToHex demo_plain) = Inr demo_stream_terms"
    using demo_decode by (simp add: decodeTerms_def check_viem_def ref_viem_def demo_viem_def)
  have r: "readStream check_rpc (uint (1 :: uint256)) = Inr \<lparr>oc_employer = addr_text 1, oc_recipient = addr_text 2, oc_token = addr_text 7,
     oc_commitment = hex32 (keccak demo_evm demo_plain), oc_funded = 1000, oc_withdrawn = 0, oc_startTime = 1000, oc_cancelled = False\<rparr>"
    by (simp add: readStream_def check_rpc_def)
  have t: "t_recipient demo_stream_terms = addr_text 2" "t_employer demo_stream_terms = addr_text 1"
    by (simp_all add: demo_stream_terms_def demo_employer_def addr_text_def)
  have l: "to_lower (addr_text a) = addr_text a" for a by (simp add: addr_text_def)
  have g: "withdraw_tag check_viem \<noteq> settle_tag check_viem"
    unfolding check.tag_words using demo_tags unfolding demo.tag_words by simp
  have a: "ref_isAddress (addr_text 9)" "units_ok (addr_text 9)" by (simp_all add: addr_text_def ref_isAddress_lower ascii_units_ok ascii_bytesToHex)
  have x: "ecies_decrypt check_viem k c = Inr c" "v_isAddress check_viem = ref_isAddress" for k c
    by (simp_all add: check_viem_def ref_viem_def)
  note proj = check_live_def live_env.simps
  have c: "check_main (le_viem check_live) (le_engine check_live) = check_main check_viem demo_engine"
    "uint (le_chain check_live) = 114" by (simp_all add: proj)
  show ?thesis
    unfolding c(1) [symmetric] c(2) [symmetric]
    by (rule check_client_passes [OF e n, where i = 1 and plain = demo_plain and cipher = demo_plain and terms = demo_stream_terms
          and st = "\<lparr>oc_employer = addr_text 1, oc_recipient = addr_text 2, oc_token = addr_text 7,
            oc_commitment = hex32 (keccak demo_evm demo_plain), oc_funded = 1000, oc_withdrawn = 0, oc_startTime = 1000,
            oc_cancelled = False\<rparr>" and acct = "addr_text 2" and stranger = "addr_text 3"])
       (use r t l g a x d s [of "DEMO_RECIPIENT_KEY check_viem"] s [of "STRANGER_KEY check_viem"] keys_differ check_fetch in
         \<open>simp_all add: proj check_keys_def onchain_stream.simps addr_text_inj\<close>)
qed

section \<open>The ciphertext check\<close>

text \<open>\<^verbatim>\<open>Buffer.from(s, "hex")\<close> reads what \<^verbatim>\<open>hexToBytes\<close> accepts.\<close>

lemma buffer_hex_pairs: "is_hex s \<Longrightarrow> even (length s) \<Longrightarrow> buffer_hex s = hex_pairs s"
  by (induction s rule: hex_pairs.induct) (auto simp: is_hex_def hex_num_def)

lemma buffer_hexToBytes:
  assumes "hexToBytes (Some s) = Inr c" "\<not> starts_with s (js ''0X'')"
  shows "buffer_hex (if starts_with s (js ''0x'') then drop 2 s else s) = c"
proof -
  have z: "strip_0x s = (if starts_with s (js ''0x'') then drop 2 s else s)" using assms(2) by (simp add: strip_0x_def)
  show ?thesis
    using assms(1) unfolding z [symmetric]
    by (auto simp: hexToBytes_def Let_def even_iff_mod_2_eq_zero buffer_hex_pairs split: if_splits)
qed

text \<open>The ciphertext check agrees with the enclave.  Run on a sealed blob and a commitment with the enclave's
  own key in its environment, \<^verbatim>\<open>verify-browser-ciphertext.ts\<close> exits with 0 exactly when the enclave, handed
  the same blob and commitment, decrypts it, finds the commitment and decodes the terms.\<close>

theorem verify_ct_agrees:
  assumes "viem_abi V E" "present (env (js ''TEE_ECIES_PRIVKEY'')) = Some key"
    and "hexToBytes (Some (r_encryptedTerms req)) = Inr c" "r_encryptedTerms req \<noteq> []"
    and "\<not> starts_with (r_encryptedTerms req) (js ''0X'')" "r_commitment req \<noteq> []"
  shows "verify_ct V env [r_encryptedTerms req, r_commitment req] = 0 \<longleftrightarrow>
    (\<exists>h t. open_terms V key req = Inr (h, t))"
proof -
  have k: "to_lower (v_keccak_hex V (bytesToHex p)) = v_keccak_hex V (bytesToHex p)" for p
    by (simp add: viem_abi.keccak_hex [OF assms(1)])
  have a: "present (arg [r_encryptedTerms req, r_commitment req] 0) = Some (r_encryptedTerms req)"
    "present (arg [r_encryptedTerms req, r_commitment req] 1) = Some (r_commitment req)"
    using assms(4,6) by (simp_all add: arg_def present_def split: list.split)
  show ?thesis
    unfolding verify_ct_def a assms(2) option.case Let_def buffer_hexToBytes [OF assms(3,5)]
    by (simp add: open_terms_def Let_def assms(3) k split: sum.split)
qed

definition check_req :: auth_request where
  "check_req = \<lparr>r_streamId = js ''1'', r_vault = addr_text 9, r_chainId = js ''114'',
     r_commitment = hex32 (keccak demo_evm demo_plain), r_encryptedTerms = bytesToHex demo_plain, r_issuedAt = js ''0'',
     r_callerSignature = js ''0x''\<rparr>"

theorem verify_ct_agrees_witness:
  "verify_ct check_viem (\<lambda>_. Some (js ''0x01'')) [r_encryptedTerms check_req, r_commitment check_req] = 0"
proof -
  have d: "decodeTerms check_viem (bytesToHex demo_plain) = Inr demo_stream_terms"
    using demo_decode by (simp add: decodeTerms_def check_viem_def ref_viem_def demo_viem_def)
  have x: "ecies_decrypt check_viem k c = Inr c" for k c by (simp add: check_viem_def ref_viem_def)
  have "open_terms check_viem (js ''0x01'') check_req = Inr (bytesToHex demo_plain, demo_stream_terms)"
    by (simp add: open_terms_def check_req_def Let_def x d check.keccak_hex)
  moreover have "r_encryptedTerms check_req \<noteq> []" "\<not> starts_with (r_encryptedTerms check_req) (js ''0X'')"
    "r_commitment check_req \<noteq> []"
    by (simp_all add: check_req_def bytesToHex_def hex32_def js_def starts_with_def)
  ultimately show ?thesis
    using verify_ct_agrees [of check_viem demo_evm "\<lambda>_. Some (js ''0x01'')" "js ''0x01''" check_req demo_plain] check.viem_abi_axioms
    by (simp add: present_def check_req_def js_def)
qed

section \<open>The golden vectors\<close>

definition golden_digest :: "evm \<Rightarrow> uint256 \<Rightarrow> uint256" where
  "golden_digest E tag = auth_digest E tag 114 0x1111111111111111111111111111111111111111 7
     0x2222222222222222222222222222222222222222222222222222222222222222 123456789000000000 1893456000"

lemma concat_replicate_pair: "concat (replicate n [a, a]) = replicate (2 * n) a"
  by (induction n) simp_all

lemma golden_bytes:
  "GOLDEN_VAULT = bytesToHex (replicate 20 0x11)" "GOLDEN_COMMITMENT = bytesToHex (replicate 32 0x22)"
proof -
  have "byte_hex 0x11 = [49, 49]" "byte_hex 0x22 = [50, 50]" by (simp_all add: byte_hex_def hex_char_def)
  then show "GOLDEN_VAULT = bytesToHex (replicate 20 0x11)" "GOLDEN_COMMITMENT = bytesToHex (replicate 32 0x22)"
    by (simp_all only: GOLDEN_VAULT_def GOLDEN_COMMITMENT_def bytesToHex_def map_replicate concat_replicate_pair) (simp_all add: js_def)
qed

lemma be_nat_replicate: "be_nat (replicate n b) * 255 + unat b = unat b * 256 ^ n"
proof (induction n)
  case (Suc n)
  have "be_nat (replicate (Suc n) b) = be_nat (replicate n b) * 256 + unat b"
    unfolding replicate_Suc replicate_append_same [symmetric] by (rule be_nat_snoc)
  then have "be_nat (replicate (Suc n) b) * 255 + unat b = (be_nat (replicate n b) * 255 + unat b) * 256" by simp
  then show ?case using Suc by simp
qed (simp add: be_nat_def)

lemma golden_words:
  "be_word (replicate 20 0x11) = 0x1111111111111111111111111111111111111111"
  "be_word (replicate 32 0x22) = 0x2222222222222222222222222222222222222222222222222222222222222222"
proof -
  have n: "be_nat (replicate 20 0x11) = 0x1111111111111111111111111111111111111111"
    using be_nat_replicate [of 20 "0x11"] by simp
  have m: "be_nat (replicate 32 0x22) = 0x2222222222222222222222222222222222222222222222222222222222222222"
    using be_nat_replicate [of 32 "0x22"] by simp
  show "be_word (replicate 20 0x11) = 0x1111111111111111111111111111111111111111"
    "be_word (replicate 32 0x22) = 0x2222222222222222222222222222222222222222222222222222222222222222"
    unfolding be_word_of_nat n m by simp_all
qed

lemma golden_hex:
  "hex_address GOLDEN_VAULT = Some 0x1111111111111111111111111111111111111111"
  "GOLDEN_COMMITMENT = hex32 0x2222222222222222222222222222222222222222222222222222222222222222"
proof -
  show "hex_address GOLDEN_VAULT = Some 0x1111111111111111111111111111111111111111"
    unfolding golden_bytes hex_address_def hex_word_def hexToBytes_bytesToHex sum.case golden_words by (simp add: starts_with_def bytesToHex_def js_def)
  have "word_be (be_word (replicate 32 0x22)) = replicate 32 0x22" by (subst word_be_be_word) simp_all
  then show "GOLDEN_COMMITMENT = hex32 0x2222222222222222222222222222222222222222222222222222222222222222"
    unfolding golden_bytes hex32_def golden_words(2) by simp
qed

text \<open>The golden vectors are the contract's digests.  Whatever test key signs, the script's output holds, under
  \<^verbatim>\<open>withdrawDigest\<close> and \<^verbatim>\<open>settleDigest\<close>, the hex of the digests the contract rebuilds for the pinned vault,
  chain 114, stream 7, commitment, amount and deadline under its two tags, and under \<^verbatim>\<open>withdrawSignature\<close> and
  \<^verbatim>\<open>settleSignature\<close> signatures from which the contract recovers the test signer.\<close>

theorem golden_vectors_contract:
  assumes "viem_abi V E" "v_isAddress V GOLDEN_VAULT"
    and "\<And>h. \<exists>sig. sign (hex32 h) = Inr (bytesToHex sig) \<and> recoverEthSigned E h sig = Inr signer"
  shows "\<exists>ms ws ss. golden_vectors V sign address = Inr (JObj ms)
      \<and> map_of ms (js ''withdrawDigest'') = Some (JStr (hex32 (golden_digest E (WITHDRAW_TAG E))))
      \<and> map_of ms (js ''settleDigest'') = Some (JStr (hex32 (golden_digest E (SETTLE_TAG E))))
      \<and> map_of ms (js ''withdrawSignature'') = Some (JStr (bytesToHex ws))
      \<and> map_of ms (js ''settleSignature'') = Some (JStr (bytesToHex ss))
      \<and> recoverEthSigned E (golden_digest E (WITHDRAW_TAG E)) ws = Inr signer
      \<and> recoverEthSigned E (golden_digest E (SETTLE_TAG E)) ss = Inr signer"
proof -
  have d: "buildAuthDigest V (golden_params tag) = Inr (hex32 (golden_digest E w))" if "tag = hex32 w" for tag w
    using viem_abi.auth_digest_agrees [OF assms(1), of "golden_params tag" w "0x1111111111111111111111111111111111111111"
        "0x2222222222222222222222222222222222222222222222222222222222222222"] that assms(2)
    by (simp add: golden_params_def golden_hex golden_digest_def)
  obtain ws ss where s: "sign (hex32 (golden_digest E (WITHDRAW_TAG E))) = Inr (bytesToHex ws)"
    "recoverEthSigned E (golden_digest E (WITHDRAW_TAG E)) ws = Inr signer"
    "sign (hex32 (golden_digest E (SETTLE_TAG E))) = Inr (bytesToHex ss)"
    "recoverEthSigned E (golden_digest E (SETTLE_TAG E)) ss = Inr signer"
    using assms(3) by metis
  have "golden_entries V sign ''withdraw'' (withdraw_tag V) = Inr [(js ''withdrawTag'', JStr (withdraw_tag V)),
      (js ''withdrawDigest'', JStr (hex32 (golden_digest E (WITHDRAW_TAG E)))), (js ''withdrawSignature'', JStr (bytesToHex ws))]"
    "golden_entries V sign ''settle'' (settle_tag V) = Inr [(js ''settleTag'', JStr (settle_tag V)),
      (js ''settleDigest'', JStr (hex32 (golden_digest E (SETTLE_TAG E)))), (js ''settleSignature'', JStr (bytesToHex ss))]"
    using s by (simp_all add: golden_entries_def d [OF viem_abi.tag_words(1) [OF assms(1)]] d [OF viem_abi.tag_words(2) [OF assms(1)]])
  then obtain ms where "golden_vectors V sign address = Inr (JObj ms)"
    and "map_of ms (js ''withdrawDigest'') = Some (JStr (hex32 (golden_digest E (WITHDRAW_TAG E))))"
    and "map_of ms (js ''settleDigest'') = Some (JStr (hex32 (golden_digest E (SETTLE_TAG E))))"
    and "map_of ms (js ''withdrawSignature'') = Some (JStr (bytesToHex ws))"
    and "map_of ms (js ''settleSignature'') = Some (JStr (bytesToHex ss))"
    by (simp add: golden_vectors_def Let_def)
  then show ?thesis using s(2,4) by blast
qed

theorem golden_vectors_contract_witness:
  "\<exists>ms ws ss. golden_vectors check_viem (\<lambda>_. Inr (bytesToHex (replicate 64 0 @ [27]))) (js ''0xaa'') = Inr (JObj ms)
      \<and> map_of ms (js ''withdrawDigest'') = Some (JStr (hex32 (golden_digest demo_evm (WITHDRAW_TAG demo_evm))))
      \<and> map_of ms (js ''settleDigest'') = Some (JStr (hex32 (golden_digest demo_evm (SETTLE_TAG demo_evm))))
      \<and> map_of ms (js ''withdrawSignature'') = Some (JStr (bytesToHex ws))
      \<and> map_of ms (js ''settleSignature'') = Some (JStr (bytesToHex ss))
      \<and> recoverEthSigned demo_evm (golden_digest demo_evm (WITHDRAW_TAG demo_evm)) ws = Inr 5
      \<and> recoverEthSigned demo_evm (golden_digest demo_evm (SETTLE_TAG demo_evm)) ss = Inr 5"
proof (rule golden_vectors_contract [OF check.viem_abi_axioms])
  show "v_isAddress check_viem GOLDEN_VAULT"
    unfolding golden_bytes check_viem_def ref_viem_def by (simp add: ref_isAddress_lower)
  show "\<exists>sig. Inr (bytesToHex (replicate 64 0 @ [27])) = Inr (bytesToHex sig) \<and> recoverEthSigned demo_evm h sig = Inr 5" for h
    by (rule exI [of _ "replicate 64 0 @ [27]"]) (simp add: recoverEthSigned_def demo_evm_def Let_def)
qed

end
