(* ===== verification/View.thy ===== *)
theory View
  imports Pages JsDate
begin

text \<open>
  What a page renders: React's elements as a tree, with the attributes that matter to what can be read or
  clicked.  Styling (\<^verbatim>\<open>className\<close>), \<^verbatim>\<open>key\<close>, \<^verbatim>\<open>target\<close>, \<^verbatim>\<open>rel\<close>, \<^verbatim>\<open>type\<close>, \<^verbatim>\<open>aria-label\<close> and
  \<^verbatim>\<open>spellCheck\<close> are left out.  An event is the page's own; \<open>'e\<close> is their type.  \<open>page_text\<close> is what can
  be read, \<open>clickable\<close> the events of the buttons that are not disabled.
\<close>

section \<open>Elements\<close>

datatype 'e attr = Disabled bool | OnClick 'e | OnChange "jsstr \<Rightarrow> 'e" | Href jsstr | Value jsstr | Placeholder jsstr | Title jsstr

datatype 'e view = Txt jsstr | El string "'e attr list" "'e view list"

primrec view_text :: "'e view \<Rightarrow> jsstr" where
  "view_text (Txt s) = s"
| "view_text (El tag as vs) = concat (map view_text vs)"

definition page_text :: "'e view list \<Rightarrow> jsstr" where
  "page_text vs = concat (map view_text vs)"

fun disables :: "'e attr \<Rightarrow> bool" where
  "disables (Disabled b) = b"
| "disables _ = False"

fun click_of :: "'e attr \<Rightarrow> 'e list" where
  "click_of (OnClick e) = [e]"
| "click_of _ = []"

primrec view_clicks :: "'e view \<Rightarrow> 'e list" where
  "view_clicks (Txt s) = []"
| "view_clicks (El tag as vs) =
     (if list_ex disables as then [] else concat (map click_of as)) @ concat (map view_clicks vs)"

definition clickable :: "'e view list \<Rightarrow> 'e list" where
  "clickable vs = concat (map view_clicks vs)"

lemma page_simps [simp]:
  "page_text [] = []" "page_text (v # vs) = view_text v @ page_text vs" "page_text (us @ vs) = page_text us @ page_text vs"
  "clickable [] = []" "clickable (v # vs) = view_clicks v @ clickable vs" "clickable (us @ vs) = clickable us @ clickable vs"
  by (simp_all add: page_text_def clickable_def)

text \<open>\<^verbatim>\<open>{cond && ...}\<close>, and \<^verbatim>\<open>{x && ...}\<close> for what may be null.\<close>

definition shown_if :: "bool \<Rightarrow> 'e view list \<Rightarrow> 'e view list" where
  "shown_if b vs = (if b then vs else [])"

definition shown_some :: "'a option \<Rightarrow> ('a \<Rightarrow> 'e view list) \<Rightarrow> 'e view list" where
  "shown_some x f = (case x of None \<Rightarrow> [] | Some a \<Rightarrow> f a)"

lemma shown_simps [simp]:
  "shown_if True vs = vs" "shown_if False vs = []" "shown_some None f = []" "shown_some (Some a) f = f a"
  by (simp_all add: shown_if_def shown_some_def)

definition lit :: "string \<Rightarrow> 'e view" where
  "lit s = Txt (js s)"

text \<open>The characters outside ASCII.\<close>

definition DASH :: jsstr where "DASH = [0x2014]"
definition DOTS :: jsstr where "DOTS = [0x2026]"
definition MIDDOT :: jsstr where "MIDDOT = [0xB7]"
definition ARROW :: jsstr where "ARROW = [0x2192]"
definition BACK :: jsstr where "BACK = [0x2190]"
definition CHECK :: jsstr where "CHECK = [0x2713]"

section \<open>Parts the pages share\<close>

definition Field :: "string \<Rightarrow> 'e view list \<Rightarrow> 'e view" where
  "Field label children = El ''div'' [] [El ''dt'' [] [lit label], El ''dd'' [] children]"

definition Mono :: "'e view list \<Rightarrow> 'e view" where
  "Mono children = El ''span'' [] children"

lemma part_simps [simp]:
  "view_clicks (lit s) = []" "view_text (lit s) = js s"
  "view_clicks (Field l vs) = clickable vs" "view_text (Field l vs) = js l @ page_text vs"
  "view_clicks (Mono vs) = clickable vs" "view_text (Mono vs) = page_text vs"
  by (simp_all add: lit_def Field_def Mono_def page_text_def clickable_def)

lemma element_simps [simp]:
  "view_clicks (El tag as vs) = (if list_ex disables as then [] else concat (map click_of as)) @ clickable vs"
  "view_text (El tag as vs) = page_text vs"
  by (simp_all add: page_text_def clickable_def)

declare view_text.simps(2) [simp del] view_clicks.simps(2) [simp del]

text \<open>\<^verbatim>\<open>fmt\<close>; viem's \<^verbatim>\<open>formatUnits\<close> is the argument \<open>fu\<close>.\<close>

definition fmt :: "(int \<Rightarrow> nat \<Rightarrow> jsstr) \<Rightarrow> (nat \<times> jsstr) option \<Rightarrow> int option \<Rightarrow> nat \<Rightarrow> jsstr" where
  "fmt fu meta v dp =
     (case (v, meta) of
        (Some v, Some (decimals, symbol)) \<Rightarrow> to_fixed (number_of_string (fu v decimals)) dp
      | _ \<Rightarrow> DASH)"

text \<open>An amount and its unit.\<close>

definition amount :: "jsstr \<Rightarrow> jsstr \<Rightarrow> 'e view" where
  "amount a symbol = Mono [Txt a, lit '' '', Txt symbol]"

end
