(* ===== verification/RecipientView.thy ===== *)
theory RecipientView
  imports View RecipientPage
begin

text \<open>
  What \<^verbatim>\<open>frontend/app/stream/[id]/page.tsx\<close> renders from its state: the public record, the terms behind the
  signature, the withdrawal and the messages; and the page as a state machine whose events are the clicks that
  the rendered page allows.
\<close>

section \<open>The elements\<close>

datatype revent = RConnect jsstr | RUnlock | RWithdraw

definition ENCLAVE_URL :: "(jsstr \<Rightarrow> jsstr option) \<Rightarrow> jsstr" where
  "ENCLAVE_URL env = env_or env ''NEXT_PUBLIC_ENCLAVE_URL'' ''http://127.0.0.1:18080''"

text \<open>The connect button, or the account; wagmi gives a connected account its address.\<close>

definition recipient_account :: "engine \<Rightarrow> jsstr list \<Rightarrow> bool \<Rightarrow> jsstr option \<Rightarrow> revent view list result" where
  "recipient_account G connectors isConnected address =
     (if \<not> isConnected then
        Inr (map (\<lambda>c. El ''button'' [OnClick (RConnect c)] [lit ''Connect wallet'']) (take 1 connectors))
      else case address of
             None \<Rightarrow> Inl (type_error G)
           | Some a \<Rightarrow> Inr [El ''div'' [] [Txt (short a 6)]])"

definition recipient_header :: "jsstr \<Rightarrow> revent view list \<Rightarrow> revent view" where
  "recipient_header param_id account =
     El ''header'' [] [El ''div'' []
       ([El ''div'' []
           [El ''div'' [] [Txt (js ''StealthWage '' @ MIDDOT @ js '' recipient'')],
            El ''h1'' [] [lit ''Stream #'', Txt param_id]]]
        @ account)]"

definition public_record :: "(int \<Rightarrow> nat \<Rightarrow> jsstr) \<Rightarrow> onchain_stream \<Rightarrow> nat \<times> jsstr \<Rightarrow> 'e view" where
  "public_record fu s m =
     El ''section'' []
       [El ''h2'' [] [lit ''Public record''],
        El ''dl'' []
          [Field ''employer'' [Mono [Txt (short (oc_employer s) 6)]],
           Field ''recipient'' [Mono [Txt (short (oc_recipient s) 6)]],
           Field ''funded'' [amount (fmt fu (Some m) (Some (oc_funded s)) 2) (snd m)],
           Field ''withdrawn'' [amount (fmt fu (Some m) (Some (oc_withdrawn s)) 6) (snd m)]]]"

text \<open>Before the terms are known.\<close>

definition locked_terms :: "bool \<Rightarrow> jsstr option \<Rightarrow> rpage \<Rightarrow> revent view" where
  "locked_terms isConnected address p =
     El ''div'' []
       ([El ''p'' [] [Txt (js ''The rate is sealed to the enclave '' @ DASH @
            js '' not even you can decrypt it locally. Sign a challenge to prove you are a party to this stream, and the enclave will return your terms along with a withdrawal authorization.'')],
         El ''button'' [Disabled (unlock_disabled isConnected address p), OnClick RUnlock]
           [Txt (if p_busy p then js ''working'' @ DOTS else js ''Sign to unlock'')]]
        @ shown_if (isConnected \<and> \<not> isParty address p)
            [El ''p'' [] [Txt (js ''This wallet is neither the employer nor the recipient. The enclave will refuse '' @
               DASH @ js '' that is the point.'')]]
        @ shown_if (present (p_sealed p) = None \<and> present (p_chainError p) = None)
            [El ''p'' [] [Txt (js ''locating sealed terms'' @ DOTS)]])"

definition unlocked_terms ::
    "(int \<Rightarrow> nat \<Rightarrow> jsstr) \<Rightarrow> rpage \<Rightarrow> nat \<times> jsstr \<Rightarrow> stream_terms \<Rightarrow> int \<Rightarrow> revent view" where
  "unlocked_terms fu p m t now =
     El ''dl'' []
       [Field ''rate'' [Mono [Txt (fu (per_day t) (fst m)), lit '' '', Txt (snd m), lit ''/day'']],
        Field ''accrued''
          [El ''span'' [] [Txt (fmt fu (Some m) (page_accrued p now) 6)], lit '' '', El ''span'' [] [Txt (snd m)]],
        Field ''available now'' [amount (fmt fu (Some m) (available p now) 6) (snd m)],
        Field ''total cap'' [amount (fmt fu (Some m) (Some (t_total t)) 2) (snd m)]]"

text \<open>\<^verbatim>\<open>auth ? BigInt(auth.cumulativeAccrued) : null\<close>, which may throw.\<close>

definition signed_amount :: "engine \<Rightarrow> rpage \<Rightarrow> int option result" where
  "signed_amount G p =
     (case p_auth p of
        None \<Rightarrow> Inr None
      | Some auth \<Rightarrow>
         (case str_prop auth (js ''cumulativeAccrued'') of
            None \<Rightarrow> Inl (type_error G)
          | Some a \<Rightarrow> (case to_bigint a of Inl e \<Rightarrow> Inl e | Inr i \<Rightarrow> Inr (Some i))))"

definition withdraw_section ::
    "(int \<Rightarrow> nat \<Rightarrow> jsstr) \<Rightarrow> rpage \<Rightarrow> nat \<times> jsstr \<Rightarrow> int option \<Rightarrow> int \<Rightarrow> revent view" where
  "withdraw_section fu p m authorized now =
     El ''section'' []
       [El ''h2'' [] [lit ''Withdraw''],
        El ''p'' []
          [lit ''The enclave signed for '',
           El ''span'' [] [Txt (fmt fu (Some m) authorized 6), lit '' '', Txt (snd m)],
           lit '' '',
           lit ''cumulative. The vault pays the difference against what you have already taken, so replaying this authorization is harmless.''],
        El ''button'' [Disabled (withdraw_disabled p now), OnClick RWithdraw]
          [Txt (if p_busy p then js ''working'' @ DOTS
                else if p_auth p \<noteq> None then js ''Withdraw'' else js ''Sign again for a fresh authorization'')]]"

definition failure_view :: "jsstr \<Rightarrow> jsstr \<Rightarrow> jsstr \<times> jsstr \<Rightarrow> 'e view" where
  "failure_view url param_id f =
     El ''div'' []
       ([El ''p'' [] [Txt (failure_title f)], El ''p'' [] [Txt (snd f)]]
        @ shown_if (fst f = js ''unreachable'')
           [El ''p'' []
             [lit ''Withdrawals need the enclave; the rest of StealthWage does not. The'', lit '' '',
              El ''a'' [Href (js ''/'')] [lit ''landing page''], lit '' '', lit ''and'', lit '' '',
              El ''a'' [Href (js ''/verify/'' @ param_id)] [lit ''audit record''], lit '' '',
              lit ''read only from the chain and are unaffected.'',
              El ''span'' [] [lit ''endpoint: '', Txt url]]])"

definition withdrawn_view :: "chain_config \<Rightarrow> jsstr \<Rightarrow> 'e view" where
  "withdrawn_view C tx =
     El ''p'' [] [lit ''Withdrawal confirmed.'', lit '' '',
       El ''a'' [Href (cc_explorer C @ js ''/tx/'' @ tx)] [lit ''view transaction'']]"

definition recipient_footer :: "jsstr \<Rightarrow> 'e view" where
  "recipient_footer param_id =
     El ''footer'' []
       [El ''a'' [Href (js ''/'')] [Txt (BACK @ js '' StealthWage'')], lit '' '', Txt (MIDDOT @ js '' ''),
        El ''a'' [Href (js ''/verify/'' @ param_id)] [lit ''audit record''], lit '' '',
        Txt (MIDDOT @ js '' Coston2'')]"

text \<open>The part that needs the stream and its token.\<close>

definition recipient_body ::
    "(int \<Rightarrow> nat \<Rightarrow> jsstr) \<Rightarrow> chain_config \<Rightarrow> jsstr \<Rightarrow> jsstr \<Rightarrow> bool \<Rightarrow> jsstr option \<Rightarrow> rpage \<Rightarrow> int \<Rightarrow>
     onchain_stream \<Rightarrow> nat \<times> jsstr \<Rightarrow> int option \<Rightarrow> revent view list" where
  "recipient_body fu C url param_id isConnected address p now s m authorized =
     [public_record fu s m,
      El ''section'' []
        ([El ''h2'' [] [lit ''Your terms'']]
         @ shown_if (p_terms p = None) [locked_terms isConnected address p]
         @ shown_some (p_terms p) (\<lambda>t. [unlocked_terms fu p m t now]))]
     @ shown_some (p_terms p) (\<lambda>_. [withdraw_section fu p m authorized now])
     @ shown_some (present (p_status p)) (\<lambda>s. [El ''p'' [] [Txt s]])
     @ shown_some (p_failure p) (\<lambda>f. [failure_view url param_id f])
     @ shown_some (present (p_withdrawTx p)) (\<lambda>tx. [withdrawn_view C tx])"

definition recipient_view ::
    "(int \<Rightarrow> nat \<Rightarrow> jsstr) \<Rightarrow> engine \<Rightarrow> chain_config \<Rightarrow> jsstr \<Rightarrow> jsstr list \<Rightarrow> jsstr \<Rightarrow> bool \<Rightarrow> jsstr option \<Rightarrow>
     rpage \<Rightarrow> int \<Rightarrow> revent view list result" where
  "recipient_view fu G C url connectors param_id isConnected address p now =
     (case recipient_account G connectors isConnected address of
        Inl e \<Rightarrow> Inl e
      | Inr account \<Rightarrow>
         (let top = [recipient_header param_id account]
                @ shown_some (present (p_chainError p)) (\<lambda>e. [El ''p'' [] [Txt e]]);
              bottom = [recipient_footer param_id] in
          case (p_stream p, p_meta p) of
            (Some s, Some m) \<Rightarrow>
              (case (if p_terms p = None then Inr None else signed_amount G p) of
                 Inl e \<Rightarrow> Inl e
               | Inr authorized \<Rightarrow>
                   Inr [El ''main'' [] (top @ recipient_body fu C url param_id isConnected address p now s m authorized @ bottom)])
          | _ \<Rightarrow> Inr [El ''main'' [] (top @ bottom)]))"

section \<open>What can be clicked\<close>

lemma account_clicks: "recipient_account G connectors isConnected address = Inr vs \<Longrightarrow>
    clickable vs = (if isConnected then [] else map RConnect (take 1 connectors))"
  by (auto simp: recipient_account_def split: if_splits option.splits) (induction connectors; simp)

lemma recipient_part_clicks [simp]:
  "view_clicks (recipient_header i account) = clickable account"
  "view_clicks (public_record fu s m) = []"
  "view_clicks (unlocked_terms fu p m t now) = []"
  "view_clicks (failure_view url i f) = []" "view_clicks (withdrawn_view C tx) = []" "view_clicks (recipient_footer i) = []"
  "view_clicks (locked_terms isConnected address p) = (if unlock_disabled isConnected address p then [] else [RUnlock])"
  "view_clicks (withdraw_section fu p m a now) = (if withdraw_disabled p now then [] else [RWithdraw])"
  by (simp_all add: recipient_header_def public_record_def unlocked_terms_def failure_view_def withdrawn_view_def
      recipient_footer_def locked_terms_def withdraw_section_def amount_def shown_if_def)

lemma recipient_clicks:
  assumes "recipient_view fu G C url connectors i isConnected address p now = Inr vs"
  shows "RUnlock \<in> set (clickable vs) \<longleftrightarrow>
      p_stream p \<noteq> None \<and> p_meta p \<noteq> None \<and> p_terms p = None \<and> \<not> unlock_disabled isConnected address p"
    and "RWithdraw \<in> set (clickable vs) \<longleftrightarrow>
      p_stream p \<noteq> None \<and> p_meta p \<noteq> None \<and> p_terms p \<noteq> None \<and> \<not> withdraw_disabled p now"
  using assms
  by (auto simp: recipient_view_def recipient_body_def Let_def shown_if_def shown_some_def
      split: sum.splits option.splits if_splits dest!: account_clicks)

section \<open>The page as a state machine\<close>

text \<open>What changes the page: the load of the chain's record, a click on a button that can be clicked, with any
  wallet and any answer of the enclave; and the chain moves on its own.  The account, the time and the connectors
  are the browser's.\<close>

inductive recipient_step ::
    "viem \<Rightarrow> engine \<Rightarrow> chain_config \<Rightarrow> (int \<Rightarrow> nat \<Rightarrow> jsstr) \<Rightarrow> int \<Rightarrow> ('w \<Rightarrow> rpc) \<Rightarrow> jsstr \<Rightarrow> rpage \<times> 'w \<Rightarrow> rpage \<times> 'w \<Rightarrow> bool"
  for V G C fu chainId R param_id where
  step_load: "recipient_step V G C fu chainId R param_id (p, w) (loadChain C (R w) (stream_id_of param_id) p, w)"
| step_unlock: "recipient_view fu G C url connectors param_id isConnected address p now = Inr vs \<Longrightarrow>
    RUnlock \<in> set (clickable vs) \<Longrightarrow>
    recipient_step V G C fu chainId R param_id (p, w) (unlock V G C chainId post (wl :: 'w wallet option) now_ms send_ms (stream_id_of param_id) p, w)"
| step_withdraw: "recipient_view fu G C url connectors param_id isConnected address p now = Inr vs \<Longrightarrow>
    RWithdraw \<in> set (clickable vs) \<Longrightarrow>
    recipient_step V G C fu chainId R param_id (p, w) (withdraw_page C R wl (stream_id_of param_id) (p, w))"
| step_chain: "recipient_step V G C fu chainId R param_id (p, w) (p, w')"

inductive_cases recipient_stepE: "recipient_step V G C fu chainId R param_id pw pw'"

lemma loadChain_keeps [simp]:
  "p_terms (loadChain C R i p) = p_terms p" "p_auth (loadChain C R i p) = p_auth p" "p_withdrawTx (loadChain C R i p) = p_withdrawTx p"
  by (auto simp: loadChain_def Let_def split: option.splits sum.splits)

lemma withdraw_page_keeps:
  "p_terms (fst (withdraw_page C R wl i (p, w))) = p_terms p \<and>
   (p_auth (fst (withdraw_page C R wl i (p, w))) = p_auth p \<or> p_auth (fst (withdraw_page C R wl i (p, w))) = None)"
  by (auto simp: withdraw_page_def Let_def split: option.splits sum.splits prod.splits)

lemma step_after_unlock:
  assumes "recipient_step V G C fu chainId R param_id pw pw'" "p_terms (fst pw) = Some t"
  shows "p_terms (fst pw') = Some t \<and> (p_auth (fst pw') = p_auth (fst pw) \<or> p_auth (fst pw') = None)"
  using assms(1)
proof cases
  case (step_unlock url connectors isConnected address p now vs w post wl now_ms send_ms)
  then show ?thesis using recipient_clicks(1) [OF step_unlock(3)] assms(2) by simp
next
  case (step_withdraw url connectors isConnected address p now vs w wl)
  then show ?thesis using withdraw_page_keeps [of C R wl "stream_id_of param_id" p w] assms(2) by simp
qed (use assms(2) in simp_all)

lemma run_after_unlock:
  assumes "(recipient_step V G C fu chainId R param_id)\<^sup>*\<^sup>* pw pw'" "p_terms (fst pw) = Some t"
  shows "p_terms (fst pw') = Some t \<and> (p_auth (fst pw') = p_auth (fst pw) \<or> p_auth (fst pw') = None)"
  using assms
proof (induction rule: rtranclp_induct)
  case (step y z)
  then show ?case using step_after_unlock [OF step(2), of t] by auto
qed simp

end
