(* ===== verification/VerifyView.thy ===== *)
theory VerifyView
  imports View VerifyPage
begin

text \<open>
  What \<^verbatim>\<open>frontend/app/verify/[id]/page.tsx\<close> renders: the verdict, the two hashes, the decoded terms and the box
  the terms are pasted into.
\<close>

section \<open>The elements\<close>

datatype vevent = VSetTerms jsstr | VCopy

definition Shell :: "'e view list \<Rightarrow> 'e view" where
  "Shell children = El ''main'' [] children"

text \<open>What is shown while the parameters of the URL are not there yet.\<close>

definition verify_fallback :: "'e view" where
  "verify_fallback = Shell [El ''p'' [] [Txt (js ''loading'' @ DOTS)]]"

definition verify_header :: "jsstr \<Rightarrow> 'e view" where
  "verify_header param_id =
     El ''header'' []
       [El ''div'' [] [Txt (js ''StealthWage '' @ MIDDOT @ js '' audit record'')],
        El ''h1'' [] [lit ''Verify stream #'', Txt param_id],
        El ''p'' [] [Txt (js ''Check a set of stream terms against the commitment stored on Flare. Everything below is computed in your browser from public chain data '' @
          DASH @ js '' no wallet, no server, nothing to trust here.'')]]"

definition verdict_section :: "verdict \<Rightarrow> 'e view" where
  "verdict_section v =
     El ''section'' []
       [El ''h2'' [] [lit ''Verdict''],
        El ''div'' []
          (shown_if (v = Match)
             [El ''p'' [] [El ''span'' [] [lit ''Terms match the on-chain commitment.''],
                           El ''span'' [] [lit ''keccak256(terms) == commitment'']]]
           @ shown_if (v = Mismatch)
             [El ''p'' [] [El ''span'' [] [lit ''These terms do NOT match this stream.''],
                           El ''span'' [] [lit ''The published terms have been altered, or they belong to a different stream.'']]]
           @ shown_if (v = Absent)
             [El ''p'' [] [lit ''No terms supplied yet. Paste them below, or open a link that carries them.'']])]"

definition comparison_section :: "onchain_stream \<Rightarrow> jsstr option \<Rightarrow> 'e view" where
  "comparison_section s hash =
     El ''section'' []
       [El ''h2'' [] [lit ''The comparison''],
        El ''dl'' []
          [El ''div'' [] [El ''dt'' [] [lit ''commitment stored on chain''], El ''dd'' [] [Txt (oc_commitment s)]],
           El ''div'' [] [El ''dt'' [] [lit ''keccak256 of the supplied terms''],
                          El ''dd'' [] [Txt (case hash of None \<Rightarrow> DASH | Some h \<Rightarrow> h)]]]]"

text \<open>\<open>started\<close> is the text of the start time; \<open>now\<close> is \<^verbatim>\<open>Date.now()\<close> in seconds.\<close>

definition decoded_section ::
    "(int \<Rightarrow> nat \<Rightarrow> jsstr) \<Rightarrow> onchain_stream \<Rightarrow> nat \<times> jsstr \<Rightarrow> stream_terms \<Rightarrow> jsstr \<Rightarrow> int \<Rightarrow> 'e view" where
  "decoded_section fu s m t started now =
     El ''section'' []
       [El ''h2'' [] [lit ''Terms, decoded''],
        El ''dl'' []
          [Field ''employer'' [Mono [Txt (short (t_employer t) 6)]],
           Field ''recipient'' [Mono [Txt (short (t_recipient t) 6)]],
           Field ''rate'' [Mono [Txt (fu (per_day t) (fst m)), lit '' '', Txt (snd m), lit ''/day'']],
           Field ''total cap'' [amount (fmt fu (Some m) (Some (t_total t)) 2) (snd m)],
           Field ''started'' [Mono [Txt started]],
           Field ''accrued to date'' [amount (fmt fu (Some m) (Some (accruedAt t now)) 6) (snd m)],
           Field ''funded on chain'' [amount (fmt fu (Some m) (Some (oc_funded s)) 2) (snd m)],
           Field ''withdrawn on chain'' [amount (fmt fu (Some m) (Some (oc_withdrawn s)) 6) (snd m)]]]"

definition terms_input :: "tools \<Rightarrow> vpage \<Rightarrow> vevent view" where
  "terms_input X p =
     El ''section'' []
       ([El ''h2'' [] [lit ''Terms (ABI-encoded hex)''],
         El ''textarea'' [Placeholder (js ''0x'' @ DOTS), Value (vp_termsHex p), OnChange VSetTerms] []]
        @ shown_if (length (trim (vp_termsHex p)) > 2 \<and> \<not> termsValid X p)
            [El ''p'' [] [Txt (js ''Not valid hex '' @ DASH @ js '' terms should start with 0x.'')]]
        @ shown_if (termsValid X p)
            [El ''button'' [OnClick VCopy] [lit ''Copy shareable verification link'']])"

definition scope_section :: "jsstr \<Rightarrow> 'e view" where
  "scope_section param_id =
     El ''section'' []
       [El ''h2'' [] [lit ''What this does and does not prove''],
        El ''ul'' []
          [El ''li'' [] [lit ''It proves these exact terms produced the commitment this vault stores for stream #'', Txt param_id,
             lit ''. The employer cannot show one set of terms here and have enforced another.''],
           El ''li'' [] [lit ''It does not prove the employer funded the stream adequately, nor that they have not cancelled it. Those are separate on-chain facts, shown above as funded and withdrawn.''],
           El ''li'' [] [Txt (js ''Revealing terms is voluntary. A stream with no published terms is not suspicious '' @ DASH @
             js '' confidentiality is the default, and disclosure is the exception the employer chooses.'')]]]"

definition verify_footer :: "chain_config \<Rightarrow> 'e view" where
  "verify_footer C =
     El ''footer'' []
       [El ''a'' [Href (cc_explorer C @ js ''/address/'' @ cc_vault C)] [lit ''StreamVault '', Txt (short (cc_vault C) 6)],
        lit '' '', Txt (MIDDOT @ js '' Flare Coston2'')]"

text \<open>The start time is printed for terms that are shown only; it throws for a time that is no date.\<close>

definition decoded_view ::
    "(int \<Rightarrow> nat \<Rightarrow> jsstr) \<Rightarrow> viem \<Rightarrow> tools \<Rightarrow> vpage \<Rightarrow> onchain_stream \<Rightarrow> int \<Rightarrow> 'e view list result" where
  "decoded_view fu V X p s now =
     (case (decoded_of V X p, vp_meta p) of
        (Some t, Some m) \<Rightarrow>
          (case started_text (t_startTime t) of
             Inl e \<Rightarrow> Inl e
           | Inr started \<Rightarrow> Inr [decoded_section fu s m t started now])
      | _ \<Rightarrow> Inr [])"

definition verify_view ::
    "(int \<Rightarrow> nat \<Rightarrow> jsstr) \<Rightarrow> viem \<Rightarrow> tools \<Rightarrow> chain_config \<Rightarrow> jsstr \<Rightarrow> vpage \<Rightarrow> int \<Rightarrow> vevent view list result" where
  "verify_view fu V X C param_id p now =
     (let top = [verify_header param_id]
            @ shown_if (vp_loading p) [El ''p'' [] [Txt (js ''reading Coston2'' @ DOTS)]]
            @ shown_some (present (vp_error p)) (\<lambda>e. [El ''p'' [] [Txt e]]) in
      case vp_stream p of
        None \<Rightarrow> Inr [Shell top]
      | Some s \<Rightarrow>
         (case decoded_view fu V X p s now of
            Inl e \<Rightarrow> Inl e
          | Inr shown \<Rightarrow> Inr [Shell (top @
              [verdict_section (verdict_of V X p), comparison_section s (computed V X p)] @ shown @
              [terms_input X p, scope_section param_id, verify_footer C])]))"

end
