(* ===== verification/LandingView.thy ===== *)
theory LandingView
  imports View LandingPage
begin

text \<open>
  What \<^verbatim>\<open>frontend/app/page.tsx\<close> renders: the two columns of the live panel, and the static parts of the page.
  The page has no events.
\<close>

section \<open>Parts\<close>

definition FAUCET :: jsstr where
  "FAUCET = js ''https://faucet.flare.network/coston2''"

definition WITHDRAW_TX :: jsstr where
  "WITHDRAW_TX = js ''0x347bc3183a47f1f8fbea30f3bc5257bd0181d0f40be308e4bead1ea97a9e4ccb''"

definition Num :: "'e view list \<Rightarrow> 'e view" where
  "Num children = El ''span'' [] children"

definition Unit :: "'e view list \<Rightarrow> 'e view" where
  "Unit children = El ''span'' [] children"

definition Code :: "'e view list \<Rightarrow> 'e view" where
  "Code children = El ''code'' [] children"

text \<open>Ten full blocks.\<close>

definition Redacted :: "'e view" where
  "Redacted = El ''span'' [Title (js ''not stored on chain'')] [Txt (replicate 10 0x2588)]"

definition Step :: "string \<Rightarrow> 'e view list \<Rightarrow> 'e view" where
  "Step n children = El ''li'' [] [El ''span'' [] [lit n], El ''span'' [] children]"

definition Ref :: "jsstr \<Rightarrow> 'e view list \<Rightarrow> 'e view" where
  "Ref href children = El ''li'' [] [El ''a'' [Href href] children]"

section \<open>The page\<close>

definition symbol_of :: "lpage \<Rightarrow> jsstr" where
  "symbol_of p = (case l_data p of None \<Rightarrow> [] | Some d \<Rightarrow> ld_symbol d)"

definition landing_fmt :: "(int \<Rightarrow> nat \<Rightarrow> jsstr) \<Rightarrow> lpage \<Rightarrow> int option \<Rightarrow> nat \<Rightarrow> jsstr" where
  "landing_fmt fu p v dp = fmt fu (map_option (\<lambda>d. (ld_decimals d, ld_symbol d)) (l_data p)) v dp"

definition masthead :: "int \<Rightarrow> lpage \<Rightarrow> 'e view" where
  "masthead chainId p =
     El ''header'' []
       [El ''div'' [] [Txt (js ''Flare Confidential Compute '' @ MIDDOT @ js '' Coston2'')],
        El ''h1'' [] [lit ''Private payroll on Flare.''],
        El ''p'' [] [lit ''Stream salaries where the chain proves the payment but never reveals the amount. Terms are sealed to a confidential compute enclave; only a commitment reaches the explorer.''],
        El ''p'' [] [lit ''We call this '', El ''span'' [] [lit ''selective transparency''],
          lit ''. Confidentiality is the default; disclosure is a deliberate choice.''],
        El ''dl'' []
          (map (\<lambda>(k, v). El ''div'' [] [El ''dt'' [] [lit k], El ''dd'' [] [Txt v]])
             [(''network'', js ''Coston2''), (''chain'', js_of_int chainId), (''enclave'', js ''FCC (simulated)''),
              (''asset'', case l_data p of None \<Rightarrow> DOTS | Some d \<Rightarrow> ld_symbol d)])]"

text \<open>The public column.\<close>

definition chain_column :: "(int \<Rightarrow> nat \<Rightarrow> jsstr) \<Rightarrow> lpage \<Rightarrow> 'e view" where
  "chain_column fu p =
     El ''div'' []
       [El ''h3'' [] [lit ''What the chain sees'', El ''span'' [] [Txt (MIDDOT @ js '' public'')]],
        El ''dl'' []
          [Field ''commitment'' [El ''span'' [] [Txt (case l_data p of None \<Rightarrow> DOTS | Some d \<Rightarrow> oc_commitment (ld_stream d))]],
           Field ''funded'' [Num [Txt (landing_fmt fu p (map_option (\<lambda>d. oc_funded (ld_stream d)) (l_data p)) 2)], lit '' '', Unit [Txt (symbol_of p)]],
           Field ''withdrawn'' [Num [Txt (landing_fmt fu p (map_option (\<lambda>d. oc_withdrawn (ld_stream d)) (l_data p)) 6)], lit '' '', Unit [Txt (symbol_of p)]],
           Field ''recipient'' [El ''span'' [] [Txt (case l_data p of None \<Rightarrow> DOTS | Some d \<Rightarrow> short (oc_recipient (ld_stream d)) 6)]],
           Field ''rate'' [Redacted],
           Field ''salary'' [Redacted]]]"

text \<open>The column of the revealed terms.\<close>

definition landing_terms :: "lpage \<Rightarrow> stream_terms option" where
  "landing_terms p = (case l_data p of None \<Rightarrow> None | Some d \<Rightarrow> ld_terms d)"

definition landing_rate :: "(int \<Rightarrow> nat \<Rightarrow> jsstr) \<Rightarrow> lpage \<Rightarrow> jsstr option" where
  "landing_rate fu p =
     (case l_data p of
        None \<Rightarrow> None
      | Some d \<Rightarrow> map_option (\<lambda>t. fu (per_day t) (ld_decimals d)) (ld_terms d))"

definition recipient_column :: "(int \<Rightarrow> nat \<Rightarrow> jsstr) \<Rightarrow> lpage \<Rightarrow> int \<Rightarrow> jsstr \<Rightarrow> 'e view" where
  "recipient_column fu p now started =
     El ''div'' []
       [El ''h3'' [] [lit ''What the recipient sees'', El ''span'' [] [Txt (MIDDOT @ js '' revealed'')]],
        El ''dl'' []
          [Field ''rate'' [Num [Txt (case landing_rate fu p of None \<Rightarrow> DOTS | Some r \<Rightarrow> r)], lit '' '', Unit [Txt (symbol_of p), lit ''/day'']],
           Field ''accrued'' [El ''span'' [] [Txt (landing_fmt fu p (landing_accrued p now) 6)], lit '' '', Unit [Txt (symbol_of p)]],
           Field ''total cap'' [Num [Txt (landing_fmt fu p (map_option t_total (landing_terms p)) 2)], lit '' '', Unit [Txt (symbol_of p)]],
           Field ''started'' [El ''span'' [] [Txt started]],
           Field ''proof'' [El ''span'' [] [Txt (landing_proof p)]]]]"

definition live_panel :: "(int \<Rightarrow> nat \<Rightarrow> jsstr) \<Rightarrow> chain_config \<Rightarrow> lpage \<Rightarrow> int \<Rightarrow> jsstr \<Rightarrow> 'e view" where
  "live_panel fu C p now started =
     El ''section'' []
       ([El ''div'' []
           [El ''h2'' [] [lit ''The same stream, two views''],
            El ''span'' [] [El ''span'' [] [], Txt (js ''live '' @ MIDDOT @ js '' stream #''), Txt (js_of_int (cc_demo_stream C))]]]
        @ shown_some (present (l_error p)) (\<lambda>e. [El ''p'' [] [Txt (js ''Could not reach Coston2 '' @ DASH @ js '' ''), Txt e]])
        @ [El ''div'' [] [chain_column fu p, recipient_column fu p now started],
           El ''p'' [] [Txt (js ''Both columns read live from Coston2. The right-hand terms are public only because this employer chose to publish them '' @ DASH @
             js '' your browser re-hashes that plaintext against the on-chain commitment on the left. The accrued figure advances locally using the same function the enclave signs with.'')]])"

definition entry_points :: "int \<Rightarrow> chain_config \<Rightarrow> 'e view" where
  "entry_points chainId C =
     El ''section'' []
       [El ''h2'' [] [lit ''Use it''],
        El ''p'' [] [Txt (js ''Everything above is read-only and needs no wallet. The two screens below do '' @ DASH @
          js '' they sign transactions on Coston2 (chain ''), Txt (js_of_int chainId), lit '').''],
        El ''div'' []
          [El ''a'' [Href (js ''/app'')] [Txt (js ''Open a stream '' @ ARROW), El ''span'' [] [lit ''employer'']],
           El ''a'' [Href (js ''/stream/'' @ js_of_int (cc_demo_stream C))] [Txt (js ''Withdraw '' @ ARROW), El ''span'' [] [lit ''recipient'']],
           El ''a'' [Href (js ''/verify/'' @ js_of_int (cc_demo_stream C))] [Txt (js ''Audit this stream '' @ ARROW), El ''span'' [] [lit ''no wallet'']]],
        El ''p'' [] [lit ''Withdrawing also needs the confidential compute extension to be reachable. If it is offline the recipient screen says so plainly, and nothing else on this site is affected.'']]"

definition references :: "chain_config \<Rightarrow> 'e view" where
  "references C =
     El ''section'' []
       [El ''h2'' [] [lit ''References''],
        El ''ul'' []
          [Ref (cc_explorer C @ js ''/address/'' @ cc_vault C) [Txt (js ''StreamVault '' @ DASH @ js '' ''), Txt (short (cc_vault C) 6)],
           Ref (cc_explorer C @ js ''/tx/'' @ WITHDRAW_TX) [lit ''A real confidential withdrawal''],
           Ref FAUCET [Txt (js ''Coston2 faucet '' @ DASH @ js '' test tokens'')]]]"

definition how_it_works :: "'e view" where
  "how_it_works =
     El ''section'' []
       [El ''h2'' [] [lit ''How it works''],
        El ''ol'' []
          [Step ''01'' [Txt (js ''The employer'' @ [39] @ js ''s browser seals the stream terms to the enclave'' @ [39] @
             js ''s public key. Plaintext never leaves the device.'')],
           Step ''02'' [Code [lit ''createStream''], lit '' stores only keccak256(terms). The rate and the salary appear nowhere on chain.''],
           Step ''03'' [lit ''To withdraw, the recipient signs a challenge. The confidential compute extension decrypts the terms, checks them against the commitment, computes accrual, and signs an authorization.''],
           Step ''04'' [lit ''The vault verifies that signature with '', Code [lit ''ecrecover''],
             lit '' and releases exactly what accrued. Remove the enclave and nothing can be withdrawn.'']]]"

definition limitations :: "'e view" where
  "limitations =
     El ''section'' []
       [El ''h2'' [] [lit ''What this does not hide''],
        El ''ul'' []
          [El ''li'' [] [lit ''Withdrawal amounts and timing are public. Frequent, regular withdrawals leak the rate over time; irregular ones preserve more.''],
           El ''li'' [] [Txt (js ''The counterparty graph is visible '' @ DASH @ js '' employer, recipient and token are on chain. What stays hidden is the rate, the total, and therefore the salary.'')],
           El ''li'' [] [lit ''This runs on a simulated TEE. Flare Confidential Compute is pre-production; the production path is Confidential Space attestation with enclave-held keys.'']]]"

definition landing_footer :: "int \<Rightarrow> 'e view" where
  "landing_footer chainId =
     El ''footer'' [] [Txt (js ''StealthWage '' @ MIDDOT @ js '' Flare Coston2 '' @ MIDDOT @ js '' chain ''), Txt (js_of_int chainId)]"

text \<open>The start of revealed terms is printed, which throws for a time that is no date.\<close>

definition landing_view ::
    "(int \<Rightarrow> nat \<Rightarrow> jsstr) \<Rightarrow> chain_config \<Rightarrow> int \<Rightarrow> lpage \<Rightarrow> int \<Rightarrow> 'e view list result" where
  "landing_view fu C chainId p now =
     (case (case landing_terms p of None \<Rightarrow> Inr DOTS | Some t \<Rightarrow> started_text (t_startTime t)) of
        Inl e \<Rightarrow> Inl e
      | Inr started \<Rightarrow> Inr [El ''main'' []
          [masthead chainId p, live_panel fu C p now started, entry_points chainId C, references C, how_it_works,
           limitations, landing_footer chainId]])"

end
