(* ===== verification/EmployerView.thy ===== *)
theory EmployerView
  imports View EmployerPage
begin

text \<open>
  What \<^verbatim>\<open>frontend/app/app/page.tsx\<close> renders: the form, the preview of what will be published and what will not,
  the button and the messages; and what the form's inputs do to the state.
\<close>

section \<open>Events\<close>

datatype eevent = EConnect jsstr | EDisconnect | ERecipient jsstr | EToken jsstr | EPerDay jsstr | ETotalCap jsstr
  | EFundAmount jsstr | ESubmit

text \<open>The inputs and the token's buttons; the others go to the wallet and to \<open>submit\<close>.\<close>

fun edit :: "eevent \<Rightarrow> epage \<Rightarrow> epage" where
  "edit (ERecipient s) p = p\<lparr>e_recipient := s\<rparr>"
| "edit (EToken t) p = p\<lparr>e_token := t\<rparr>"
| "edit (EPerDay s) p = p\<lparr>e_perDay := s\<rparr>"
| "edit (ETotalCap s) p = p\<lparr>e_totalCap := s\<rparr>"
| "edit (EFundAmount s) p = p\<lparr>e_fundAmount := s\<rparr>"
| "edit _ p = p"

section \<open>Parts\<close>

definition Input :: "string \<Rightarrow> jsstr \<Rightarrow> (jsstr \<Rightarrow> 'e) \<Rightarrow> jsstr option \<Rightarrow> jsstr option \<Rightarrow> 'e view" where
  "Input label value onChange placeholder hint =
     El ''div'' []
       ([El ''label'' [] [lit label],
         El ''input'' (Value value # (case placeholder of None \<Rightarrow> [] | Some s \<Rightarrow> [Placeholder s]) @ [OnChange onChange]) []]
        @ shown_some (present hint) (\<lambda>s. [El ''p'' [] [Txt s]]))"

text \<open>A value that stays off the chain.\<close>

definition Sealed :: "'e view list \<Rightarrow> 'e view" where
  "Sealed children = El ''span'' [] [El ''span'' [] children, El ''span'' [] [lit ''sealed'']]"

section \<open>The page\<close>

definition employer_account :: "engine \<Rightarrow> jsstr list \<Rightarrow> bool \<Rightarrow> jsstr option \<Rightarrow> eevent view list result" where
  "employer_account G connectors isConnected address =
     (if isConnected then
        (case address of
           None \<Rightarrow> Inl (type_error G)
         | Some a \<Rightarrow> Inr [El ''div'' [] [Txt (short a 6)], El ''button'' [OnClick EDisconnect] [lit ''disconnect'']])
      else Inr (map (\<lambda>c. El ''button'' [OnClick (EConnect c)] [lit ''Connect wallet'']) (take 1 connectors)))"

definition employer_header :: "int \<Rightarrow> bool \<Rightarrow> eevent view list \<Rightarrow> eevent view" where
  "employer_header chainId wrong account =
     El ''header'' []
       ([El ''div'' []
          [El ''div'' []
             [El ''div'' [] [Txt (js ''StealthWage '' @ MIDDOT @ js '' employer'')],
              El ''h1'' [] [lit ''Open a confidential stream'']],
           El ''div'' [] account]]
        @ shown_if wrong
            [El ''p'' [] [Txt (js ''Wrong network '' @ DASH @ js '' switch your wallet to Coston2 (chain ''),
              Txt (js_of_int chainId), lit '').'']])"

definition recipient_hint :: "epage \<Rightarrow> jsstr option" where
  "recipient_hint p = (if e_recipient p \<noteq> [] \<and> \<not> recipientValid p then Some (js ''Must be a 20-byte address'') else None)"

definition employer_form :: "epage \<Rightarrow> eevent view" where
  "employer_form p =
     El ''section'' []
       [El ''h2'' [] [lit ''Stream terms''],
        El ''div'' []
          [Input ''recipient address'' (e_recipient p) ERecipient (Some (js ''0x'' @ DOTS)) (recipient_hint p),
           El ''div'' []
             [El ''label'' [] [lit ''token''],
              El ''div'' [] (map (\<lambda>(label, address). El ''button'' [OnClick (EToken address)] [Txt label]) TOKENS)],
           Input ''rate per day'' (e_perDay p) EPerDay None None,
           Input ''total cap'' (e_totalCap p) ETotalCap None None,
           Input ''fund now'' (e_fundAmount p) EFundAmount None (Some (js ''Transferred to the vault. Can be topped up later.''))]]"

definition token_label :: "jsstr \<Rightarrow> jsstr" where
  "token_label token =
     (case filter (\<lambda>(label, address). address = token) TOKENS of [] \<Rightarrow> [] | (label, _) # _ \<Rightarrow> label)"

text \<open>What the chain will hold.\<close>

definition published :: "epage \<Rightarrow> jsstr option \<Rightarrow> 'e view" where
  "published p commitment =
     El ''div'' []
       [El ''h3'' [] [lit ''Published on chain''],
        El ''dl'' []
          [Field ''commitment'' [El ''span'' [] [case commitment of
               None \<Rightarrow> El ''span'' [] [Txt (js ''fill the form'' @ DOTS)] | Some h \<Rightarrow> Txt h]],
           Field ''recipient'' [Mono [Txt (if recipientValid p then short (trim (e_recipient p)) 6 else DASH)]],
           Field ''token'' [Mono [Txt (token_label (e_token p))]],
           Field ''amount funded'' [Mono [Txt (or_zero (e_fundAmount p))]],
           Field ''sealed terms'' [Mono [lit ''~321 bytes of ciphertext'']]]]"

text \<open>\<^verbatim>\<open>(Number(perDay) * 30).toFixed(2)\<close>\<close>

definition monthly :: "jsstr \<Rightarrow> jsstr" where
  "monthly perDay =
     (if perDay = [] then DASH
      else to_fixed (num_times (number_of_string perDay) (to_double False 30 1)) 2 @ js '' / month'')"

definition never_published :: "epage \<Rightarrow> 'e view" where
  "never_published p =
     El ''div'' []
       [El ''h3'' [] [lit ''Never published''],
        El ''dl'' []
          [Field ''rate'' [Sealed [Txt (e_perDay p), lit '' / day'']],
           Field ''total cap'' [Sealed [Txt (e_totalCap p)]],
           Field ''implied salary'' [Sealed [Txt (monthly (e_perDay p))]]],
        El ''p'' [] [Txt (js ''These values are sealed to the enclave'' @ [39] @
          js ''s public key in your browser. They are recoverable only by the enclave '' @ DASH @
          js '' and later, if you choose, by publishing them yourself through Audit Mode.'')]]"

definition result_view :: "chain_config \<Rightarrow> jsstr \<times> jsstr \<Rightarrow> 'e view" where
  "result_view C r =
     El ''div'' []
       [El ''p'' [] [lit ''Stream #'', Txt (fst r), lit '' is open.''],
        El ''ul'' []
          [El ''li'' [] [El ''a'' [Href (cc_explorer C @ js ''/tx/'' @ snd r)] [lit ''creation transaction'']],
           El ''li'' [] [El ''a'' [Href (js ''/verify/'' @ fst r)] [lit ''public audit record'']]]]"

definition submit_section ::
    "chain_config \<Rightarrow> bool \<Rightarrow> int option \<Rightarrow> int \<Rightarrow> stream_terms option \<Rightarrow> epage \<Rightarrow> eevent view" where
  "submit_section C isConnected chainId expected draft p =
     El ''section'' []
       ([El ''button'' [Disabled (submit_disabled isConnected chainId expected draft p), OnClick ESubmit]
           [Txt (if employer_busy p then js ''working'' @ DOTS else js ''Seal terms and open stream'')]]
        @ shown_if (\<not> isConnected) [El ''p'' [] [lit ''Connect a wallet to continue.'']]
        @ shown_some (present (e_message p)) (\<lambda>m. [El ''p'' [] [Txt m]])
        @ shown_some (e_result p) (\<lambda>r. [result_view C r]))"

definition employer_footer :: "chain_config \<Rightarrow> 'e view" where
  "employer_footer C =
     El ''footer'' []
       [El ''a'' [Href (js ''/'')] [Txt (BACK @ js '' StealthWage'')], lit '' '',
        Txt (MIDDOT @ js '' vault ''), Txt (short (cc_vault C) 6), Txt (js '' '' @ MIDDOT @ js '' Coston2'')]"

text \<open>The draft and its commitment are computed first; the latter may throw.  \<open>now_ms\<close> is the time at which the
  draft was computed.\<close>

definition employer_view ::
    "viem \<Rightarrow> engine \<Rightarrow> tools \<Rightarrow> chain_config \<Rightarrow> int \<Rightarrow> jsstr list \<Rightarrow> bool \<Rightarrow> jsstr option \<Rightarrow> int option \<Rightarrow> int \<Rightarrow>
     epage \<Rightarrow> eevent view list result" where
  "employer_view V G X C expected connectors isConnected address chainId now_ms p =
     (let draft = draft_of X address now_ms p in
      case commitment_of V draft of
        Inl e \<Rightarrow> Inl e
      | Inr commitment \<Rightarrow>
         (case employer_account G connectors isConnected address of
            Inl e \<Rightarrow> Inl e
          | Inr account \<Rightarrow> Inr [El ''main'' []
              [employer_header expected (wrongChain isConnected chainId expected) account,
               El ''div'' []
                 [employer_form p,
                  El ''section'' [] [El ''h2'' [] [lit ''Before you sign''], published p commitment, never_published p]],
               submit_section C isConnected chainId expected draft p,
               employer_footer C]]))"

end
