(* ===== verification/ViewTheorems.thy ===== *)
theory ViewTheorems
  imports RecipientView VerifyView LandingView EmployerView PageTheorems "HOL-Library.Sublist"
begin

text \<open>
  What the rendered pages promise: how far a displayed amount is from the amount, what the recipient's buttons do
  and do not do, and when the audit page cannot be shown.
\<close>

section \<open>Amounts\<close>

text \<open>C25: a displayed amount is the amount.  With viem's \<^verbatim>\<open>formatUnits\<close> dividing by a power of ten, what \<^verbatim>\<open>fmt\<close>
  prints for an amount of up to ten to the 20 tokens is a numeral of exactly the asked number of decimals whose
  value differs from the amount by at most half a unit of the last decimal plus the rounding of a double, a part
  in two to the 53.\<close>

theorem displayed_amount_close:
  assumes "formats_units fu" "0 \<le> v" "real_of_int v \<le> 10 ^ 20 * 10 ^ decimals" "decimals \<le> 255"
  shows "\<exists>n. fmt fu (Some (decimals, symbol)) (Some v) dp = fixed_text n dp \<and>
    \<bar>real n / 10 ^ dp - v / 10 ^ decimals\<bar> \<le> 1 / (2 * 10 ^ dp) + v / 10 ^ decimals / 2 ^ 53"
  by (rule shown_close [OF assms, of dp]) (auto simp: fmt_def)

section \<open>The recipient's buttons\<close>

lemma cap_of_pays:
  fixes s :: stream and a :: uint256
  assumes "unat (s_withdrawn s) < min (unat a) (unat (s_funded s))"
  shows "ucast (s_withdrawn s) < cap_of a s"
  using assms by (simp add: word_less_nat_alt unat_cap)

lemma withdraw_pays:
  assumes "v_entered v = 1" "s_employer (v_streams v i) \<noteq> 0" "\<not> s_cancelled (v_streams v i)" "tx_time x \<le> d"
    and "tee_signed E (WITHDRAW_TAG E) x v i a d sig"
    and "unat (s_withdrawn (v_streams v i)) < min (unat a) (unat (s_funded (v_streams v i)))"
    and "\<And>amt. \<exists>w' cs. t_transfer T (s_token (v_streams v i)) (tx_this x) (s_recipient (v_streams v i)) amt w = TokReturn True w' cs"
  shows "\<exists>v' w'. withdraw E T x i a d sig (v, w) = Inr (v', w')"
proof -
  let ?s = "v_streams v i"
  have c: "ucast (s_withdrawn ?s) < cap_of a ?s" by (rule cap_of_pays [OF assms(6)])
  obtain w' cs where t: "t_transfer T (s_token ?s) (tx_this x) (s_recipient ?s) (cap_of a ?s - ucast (s_withdrawn ?s)) w = TokReturn True w' cs"
    using assms(7) by blast
  from c show ?thesis
    unfolding withdraw_def nonReentrant_def withdraw_body_def Let_def cap_of_def [symmetric]
    using assms(1-5) t by (simp add: tee_signed_def after_call_closed checked_sub_Some vault_upd_defs)
qed

lemma withdraw_enabled:
  assumes "available p now = Some (int k - int l)" "\<not> p_busy p"
  shows "\<not> withdraw_disabled p now \<longleftrightarrow> p_auth p \<noteq> None \<and> l < k"
  using assms by (auto simp: withdraw_disabled_def)

lemma available_now:
  "p_stream p = Some s \<Longrightarrow> p_terms p = Some t \<Longrightarrow>
     available p now = Some (min (accruedAt t now) (oc_funded s) - oc_withdrawn s)"
  by (simp add: available_def page_accrued_def min_def)

text \<open>The arguments of the click are the values of the authorization the page holds.\<close>

lemma withdraw_click:
  assumes "str_prop auth (js ''cumulativeAccrued'') = Some (js_of_int a)"
    and "str_prop auth (js ''deadline'') = Some (js_of_int d)" "str_prop auth (js ''signature'') = Some sig"
    and "\<And>addr abi fn args w. wl_write W addr abi fn args w = (Inl refused, w @ [(addr, fn, args)])"
    and "p_auth p = Some auth"
  shows "snd (withdraw_page C R (Some W) (Some i) (p, [])) = [(cc_vault C, ''withdraw'', [ABig i, ABig a, ABig d, AHex sig])]"
  using assms by (simp add: withdraw_page_def withdraw_tx_def withdraw_args_def to_bigint_def write_wait_def Let_def)


text \<open>C21: one authorization for each load of the page.  Once the terms are on the page, whatever is clicked, loaded or
  happens on the chain, the page keeps these terms, never asks the enclave again, and holds the authorization it
  had or, after a withdrawal, none: then the button that says to sign again cannot be clicked.\<close>

theorem unlocked_once:
  assumes "(recipient_step V G C fu chainId R param_id)\<^sup>*\<^sup>* (p, w) (p', w')" "p_terms p = Some t"
    and "recipient_view fu G C url connectors param_id isConnected address p' now = Inr vs"
  shows "p_terms p' = Some t \<and> p_auth p' \<in> {p_auth p, None} \<and> RUnlock \<notin> set (clickable vs) \<and>
    (p_auth p' = None \<longrightarrow> RWithdraw \<notin> set (clickable vs))"
  using run_after_unlock [OF assms(1), of t] assms(2) recipient_clicks [OF assms(3)] by (auto simp: withdraw_disabled_def)


definition view_page :: "onchain_stream \<Rightarrow> rpage" where
  "view_page s = init_rpage\<lparr>p_stream := Some s, p_meta := Some (6, js ''USDT0''), p_terms := Some demo_stream_terms,
     p_auth := Some (JObj [(js ''cumulativeAccrued'', JStr (js ''400'')), (js ''deadline'', JStr (js ''60'')),
       (js ''signature'', JStr (bytesToHex demo_sig))])\<rparr>"

text \<open>A plain printer of decimals, as viem's is documented.\<close>

definition plain_units :: "int \<Rightarrow> nat \<Rightarrow> jsstr" where
  "plain_units v d = (let k = replicate (d + 1 - length (dec_digits (nat v))) 48 @ dec_digits (nat v); n = length k - d in
     take n k @ (if d = 0 then [] else 46 # drop n k))"

lemma plain_units_formats: "formats_units plain_units"
  unfolding formats_units_def
proof (intro allI impI)
  fix v :: int and d assume "0 \<le> v"
  define k where "k = replicate (d + 1 - length (dec_digits (nat v))) 48 @ dec_digits (nat v)"
  let ?n = "length k - d"
  have l: "d < length k" by (simp add: k_def)
  have z: "dec_val k = nat v"
    unfolding k_def using dec_val_append [of "replicate m 48" "dec_digits (nat v)" for m] dec_val_zeros [of "[]"] by simp
  have dig: "list_all is_digit k" unfolding k_def by simp (simp add: list_all_length is_digit_def)
  have n: "length (drop ?n k) = d" using l by simp
  then have f: "plain_units v d = take ?n k @ (if drop ?n k = [] then [] else 46 # drop ?n k)"
    unfolding plain_units_def Let_def k_def [symmetric] by (cases "d = 0") auto
  have "take ?n k \<noteq> []" using l by auto
  moreover have "list_all is_digit (take ?n k @ drop ?n k)" "dec_val (take ?n k @ drop ?n k) * 10 ^ d = nat v * 10 ^ length (drop ?n k)"
    unfolding append_take_drop_id n using dig z by simp_all
  ultimately show "\<exists>i f. i \<noteq> [] \<and> list_all is_digit (i @ f) \<and> plain_units v d = i @ (if f = [] then [] else 46 # f) \<and>
      dec_val (i @ f) * 10 ^ d = nat v * 10 ^ length f"
    using f by blast
qed

theorem displayed_amount_close_witness:
  "\<exists>n. fmt plain_units (Some (6, js ''USDT0'')) (Some 1234567) 2 = fixed_text n 2 \<and>
    \<bar>real n / 10 ^ 2 - 1234567 / 10 ^ 6\<bar> \<le> 1 / (2 * 10 ^ 2) + 1234567 / 10 ^ 6 / 2 ^ 53"
  using displayed_amount_close [OF plain_units_formats, of 1234567 6 "js ''USDT0''" 2] by simp


lemma view_total: "p_auth p = None \<Longrightarrow> \<exists>vs. recipient_view fu G C url connectors param_id False address p now = Inr vs"
  by (auto simp: recipient_view_def recipient_account_def signed_amount_def Let_def split: option.split)

lemma view_page_view: "\<exists>vs. recipient_view fu G C url connectors param_id False address (view_page s) now = Inr vs"
proof -
  have "signed_amount G (view_page s) = Inr (Some 400)"
    by (simp add: signed_amount_def view_page_def str_prop_def get_prop_def to_bigint_def bigint_of_digits
        list_all_iff is_digit_def js_def dec_val_def)
  then show ?thesis by (simp add: recipient_view_def recipient_account_def view_page_def Let_def)
qed

definition paying_tokens :: "'w tokens" where
  "paying_tokens = \<lparr>t_transfer = \<lambda>_ _ _ _ w. TokReturn True w [], t_transferFrom = \<lambda>_ _ _ _ _ w. TokReturn True w []\<rparr>"

lemma demo_accrued: "accruedAt demo_stream_terms 1400 = 400"
  by (simp add: accruedAt_def demo_stream_terms_def RATE_SCALE_def sdiv_nonneg Let_def)

definition recording_wallet :: "(jsstr \<times> string \<times> abi_value list) list wallet" where
  "recording_wallet = \<lparr>wl_sign = \<lambda>_. Inl (Error []), wl_write = \<lambda>addr abi fn args w. (Inl (Error []), w @ [(addr, fn, args)]),
     wl_receipt = \<lambda>_ _. Inl (Error [])\<rparr>"


definition lucky_wallet :: "unit wallet" where
  "lucky_wallet = \<lparr>wl_sign = \<lambda>_. Inl (Error []), wl_write = \<lambda>_ _ _ _ w. (Inr (js ''0xaa''), w),
     wl_receipt = \<lambda>_ _. Inr \<lparr>rc_status = js ''success'', rc_logs = []\<rparr>\<rparr>"

theorem unlocked_once_witness:
  "\<exists>s p' w' vs. (recipient_step demo_viem demo_engine demo_config plain_units 114 (\<lambda>_. vault_rpc demo_vault) (js ''1''))\<^sup>*\<^sup>*
       (view_page s, ()) (p', w') \<and> p_withdrawTx p' = Some (js ''0xaa'') \<and>
     recipient_view plain_units demo_engine demo_config [] [] (js ''1'') False None p' 1400 = Inr vs \<and>
     RUnlock \<notin> set (clickable vs) \<and> RWithdraw \<notin> set (clickable vs)"
proof -
  obtain s where s: "readStream (vault_rpc demo_vault) (uint (1 :: uint256)) = Inr s" "oc_funded s = 1000" "oc_withdrawn s = 300"
    by (rule readStream_vault [OF reads_vault_rpc [of demo_vault], of 1]) (simp add: demo_vault_def demo_stream_def)
  obtain vs where vs: "recipient_view plain_units demo_engine demo_config [] [] (js ''1'') False None (view_page s) 1400 = Inr vs"
    using view_page_view by blast
  have "RWithdraw \<in> set (clickable vs)"
    unfolding recipient_clicks(2) [OF vs]
    by (simp add: view_page_def init_rpage_def withdraw_disabled_def available_def page_accrued_def demo_accrued s)
  from step_withdraw [OF vs this, where wl = "Some lucky_wallet" and w = "()"]
  have r: "recipient_step demo_viem demo_engine demo_config plain_units 114 (\<lambda>_. vault_rpc demo_vault) (js ''1'') (view_page s, ())
     (withdraw_page demo_config (\<lambda>_. vault_rpc demo_vault) (Some lucky_wallet) (stream_id_of (js ''1'')) (view_page s, ()))" .
  obtain p' where p': "withdraw_page demo_config (\<lambda>_. vault_rpc demo_vault) (Some lucky_wallet) (stream_id_of (js ''1'')) (view_page s, ()) = (p', ())"
    "p_auth p' = None" "p_withdrawTx p' = Some (js ''0xaa'')"
    by (simp add: withdraw_page_def view_page_def init_rpage_def stream_id_of_def to_bigint_def bigint_of_digits list_all_iff is_digit_def
        js_def dec_val_def withdraw_tx_def withdraw_args_def str_prop_def get_prop_def write_wait_def lucky_wallet_def Let_def)
  obtain us where us: "recipient_view plain_units demo_engine demo_config [] [] (js ''1'') False None p' 1400 = Inr us"
    using view_total [OF p'(2)] by blast
  have run: "(recipient_step demo_viem demo_engine demo_config plain_units 114 (\<lambda>_. vault_rpc demo_vault) (js ''1''))\<^sup>*\<^sup>* (view_page s, ()) (p', ())"
    using r unfolding p'(1) by (rule r_into_rtranclp)
  from unlocked_once [OF run _ us, of demo_stream_terms] p' run us show ?thesis
    by (auto simp: view_page_def)
qed

section \<open>The audit record\<close>

text \<open>C23: the audit page is shown except for terms whose start is no date.  Rendering throws exactly when the record
  and the token are there, the supplied terms match the commitment and decode, and their start time is beyond
  8640000000000 seconds, the last one a JavaScript date has: then the exception is the \<^verbatim>\<open>RangeError\<close> of
  \<^verbatim>\<open>toISOString\<close>, and nothing of the page is shown, the verdict included.\<close>

theorem audit_page_throws:
  assumes "viem_abi V E"
  shows "(case verify_view fu V X C param_id p now of
      Inl e \<Rightarrow> e = JsExn (js ''RangeError'') (js ''Invalid time value'') \<and> vp_stream p \<noteq> None \<and> vp_meta p \<noteq> None \<and>
        (\<exists>t. decoded_of V X p = Some t \<and> 8640000000000 < t_startTime t)
    | Inr vs \<Rightarrow> vp_stream p = None \<or> vp_meta p = None \<or> (\<forall>t. decoded_of V X p = Some t \<longrightarrow> t_startTime t \<le> 8640000000000))"
proof -
  have d: "started_text (t_startTime t) = (if 8640000000000 < t_startTime t then Inl (JsExn (js ''RangeError'') (js ''Invalid time value''))
      else Inr (minutes_part (iso_text (t_startTime t * 1000))))" if "decoded_of V X p = Some t" for t
  proof -
    have "decodeTerms V (trim (vp_termsHex p)) = Inr t"
      using that by (auto simp: decoded_of_def split: if_splits sum.splits)
    with viem_abi.decoded_terms [OF assms this] show ?thesis by (simp add: started_text_date started_text_throws)
  qed
  show ?thesis
    by (auto simp: verify_view_def decoded_view_def Let_def d split: option.splits sum.splits)
qed

text \<open>Committed terms that start in the year 318857.\<close>

definition far_plain :: bytes where
  "far_plain = abi_encode [1, 2, 7, 1000000000000, 1000000, 10000000000000, 99]"

definition far_page :: vpage where
  "far_page = \<lparr>vp_stream = Some \<lparr>oc_employer = addr_text 1, oc_recipient = addr_text 2, oc_token = addr_text 7,
     oc_commitment = hex32 (keccak demo_evm far_plain), oc_funded = 0, oc_withdrawn = 0, oc_startTime = 10000000000000,
     oc_cancelled = False\<rparr>,
     vp_meta = Some (6, js ''USDT0''), vp_termsHex = bytesToHex far_plain, vp_error = None, vp_loading = False\<rparr>"
  
lemma far_decode: "decodeTerms demo_viem (bytesToHex far_plain) = Inr (demo_stream_terms\<lparr>t_startTime := 10000000000000\<rparr>)"
  using abi_words_encode [of "[1, 2, 7, 1000000000000, 1000000, 10000000000000, 99]" "[]"]
  by (simp add: decodeTerms_def ref_decode_def far_plain_def TERMS_ABI_def demo_stream_terms_def
      demo_employer_def del: abi_words.simps)

theorem audit_page_throws_witness:
  "verify_view plain_units demo_viem demo_tools demo_config (js ''1'') far_page 0 = Inl (JsExn (js ''RangeError'') (js ''Invalid time value''))"
proof -
  have "far_plain \<noteq> []" by (simp add: far_plain_def flip: length_0_conv)
  then have "verdict_of demo_viem demo_tools far_page = Match"
    by (subst verdict_supplied [OF demo.viem_abi_axioms isHex_demo])
      (simp_all add: far_page_def trim_no_space [OF hex_no_space])
  then have "decoded_of demo_viem demo_tools far_page = Some (demo_stream_terms\<lparr>t_startTime := 10000000000000\<rparr>)"
    by (simp add: decoded_of_def far_page_def trim_no_space [OF hex_no_space] far_decode)
  with audit_page_throws [OF demo.viem_abi_axioms, where fu = plain_units and X = demo_tools and C = demo_config
      and param_id = "js ''1''" and p = far_page and now = 0]
  show ?thesis by (auto split: sum.splits) (simp_all add: far_page_def)
qed


section \<open>The employer's preview\<close>

text \<open>What \<^verbatim>\<open>commitTo\<close> accepts is in range.\<close>

lemma commitment_fits:
  assumes "viem_abi V E" "commitTo V t = Inr h" "hex_word 32 (t_salt t) \<noteq> None"
  shows "terms_fit V t"
proof -
  obtain b where "v_encode V TERMS_ABI (terms_values t) = Inr b"
    using assms(2) by (auto simp: commitTo_def encodeTerms_def split: sum.splits)
  from viem_abi.encode_checks [OF assms(1) this] assms(3) show ?thesis
    by (simp add: TERMS_ABI_def terms_values_def terms_fit_def)
qed

lemma employer_shows:
  assumes "employer_view V G X C expected connectors isConnected address chainId now_ms p = Inr vs"
  obtains h where "commitment_of V (draft_of X address now_ms p) = Inr h"
    and "sublist (view_text (published p h :: eevent view)) (page_text vs)"
    and "ESubmit \<in> set (clickable vs) \<Longrightarrow> \<not> submit_disabled isConnected chainId expected (draft_of X address now_ms p) p"
proof -
  obtain h acc where h: "commitment_of V (draft_of X address now_ms p) = Inr h" "employer_account G connectors isConnected address = Inr acc"
    and vs: "vs = [El ''main'' []
              [employer_header expected (wrongChain isConnected chainId expected) acc,
               El ''div'' []
                 [employer_form p,
                  El ''section'' [] [El ''h2'' [] [lit ''Before you sign''], published p h, never_published p]],
               submit_section C isConnected chainId expected (draft_of X address now_ms p) p,
               employer_footer C]]"
    using assms by (auto simp: employer_view_def Let_def split: sum.splits)
  have "sublist (view_text (published p h :: eevent view)) (page_text vs)"
    unfolding vs by (simp del: append_assoc) (simp add: sublist_def, metis append_assoc)
  moreover have "ESubmit \<notin> set (clickable acc)"
    using h(2) by (auto simp: employer_account_def clickable_def split: if_splits option.splits)
  then have "ESubmit \<in> set (clickable vs) \<Longrightarrow> \<not> submit_disabled isConnected chainId expected (draft_of X address now_ms p) p"
    unfolding vs by (auto simp: employer_header_def employer_form_def Input_def published_def never_published_def Sealed_def
      submit_section_def result_view_def employer_footer_def clickable_def shown_if_def shown_some_def split: option.splits if_splits)
  ultimately show thesis using that h(1) by blast
qed


text \<open>C24: what the employer is shown is what is sent.  If the rendered page lets the stream be opened, then it displays,
  under \<^verbatim>\<open>Published on chain\<close>, the commitment and the recipient with which the click calls \<^verbatim>\<open>createStream\<close>; the
  commitment is the hash of the very bytes that are encrypted to the enclave, and these decode to the drafted
  terms.  The wallet here records the call and refuses it, as viem does with the ABI that the page passes.\<close>

theorem preview_is_published:
  assumes "viem_abi V E" "\<And>bs. \<exists>c. tl_encrypt X pubkey bs = Inr c" "e_salt p = e_salt (init_epage V created_ms rnd)"
    and "employer_view V G X C expected connectors isConnected address chainId now_ms p = Inr vs" "ESubmit \<in> set (clickable vs)"
    and "\<And>addr abi fn args w. wl_write W addr abi fn args w = (Inl refused, w @ [(addr, fn, args)])"
  shows "\<exists>t u plain cipher. draft_of X address now_ms p = Some t \<and>
    sublist (js ''Published on chaincommitment'' @ hex32 (keccak E plain) @ js ''recipient'' @ short (trim (e_recipient p)) 6) (page_text vs) \<and>
    commitment_of V (Some t) = Inr (Some (hex32 (keccak E plain))) \<and>
    snd (submit V G X C pubkey (Some W) (Some t) (Some (hex32 (keccak E plain))) (p, [])) = [(cc_vault C, ''createStream'',
      [AHex (trim (e_recipient p)), AHex (e_token p), AHex (hex32 (keccak E plain)), ABig (t_startTime t), AHex (bytesToHex cipher)])] \<and>
    tl_encrypt X pubkey plain = Inr cipher \<and> decodeTerms V (bytesToHex plain) = Inr u \<and> same_terms t u"
proof -
  obtain h where h: "commitment_of V (draft_of X address now_ms p) = Inr h"
    "sublist (view_text (published p h :: eevent view)) (page_text vs)"
    "\<not> submit_disabled isConnected chainId expected (draft_of X address now_ms p) p"
    using assms(4,5) by (auto elim: employer_shows)
  then obtain t where t: "draft_of X address now_ms p = Some t" by (auto simp: submit_disabled_def)
  then have f: "recipientValid p" "t_recipient t = trim (e_recipient p)" "t_token t = e_token p" "t_salt t = e_salt p"
    by (auto simp: draft_of_def split: option.splits list.splits if_splits sum.splits)
  obtain s where s: "commitTo V t = Inr s" "h = Some s" using h(1) t by (auto simp: commitment_of_def split: sum.splits)
  have "hex_word 32 (t_salt t) \<noteq> None"
    unfolding f assms(3) by (simp add: init_epage_def viem_abi.keccak_bytes [OF assms(1)] hex32_def)
  from commitment_fits [OF assms(1) s(1) this] have fit: "terms_fit V t" .
  moreover have "to_lower (t_salt t) = t_salt t"
    unfolding f assms(3) by (simp add: init_epage_def viem_abi.keccak_bytes [OF assms(1)])
  ultimately have plain: "plain_terms V t" by (simp add: plain_terms_def)
  obtain ws where ws: "length ws = 7" "encodeTerms V t = Inr (bytesToHex (abi_encode ws))" "commitTo V t = Inr (hex32 (keccak E (abi_encode ws)))"
    using viem_abi.plain_words [OF assms(1) plain] by metis
  let ?b = "abi_encode ws"
  have "?b \<noteq> []" using ws(1) by (simp flip: length_0_conv)
  then have b: "hex_slice_bytes G (bytesToHex ?b) = Inr ?b" by (rule hex_slice_bytesToHex)
  obtain u where u: "decodeTerms V (bytesToHex ?b) = Inr u" "same_terms t u"
    using viem_abi.terms_decode [OF assms(1) fit ws(2)] by blast
  obtain c where c: "tl_encrypt X pubkey ?b = Inr c" using assms(2) by blast
  obtain x y where k: "hex32 (keccak E ?b) = x # y" by (cases "hex32 (keccak E ?b)") (simp_all add: hex32_def bytesToHex_def)
  have "sublist (js ''Published on chaincommitment'' @ hex32 (keccak E ?b) @ js ''recipient'' @ short (trim (e_recipient p)) 6)
      (view_text (published p h :: eevent view))"
    using s ws(3) f(1) by (intro prefix_imp_sublist) (simp add: published_def js_Cons)
  then have "sublist (js ''Published on chaincommitment'' @ hex32 (keccak E ?b) @ js ''recipient'' @ short (trim (e_recipient p)) 6) (page_text vs)"
    using h(2) sublist_order.order_trans by blast
  moreover have "snd (submit V G X C pubkey (Some W) (Some t) (Some (hex32 (keccak E ?b))) (p, [])) = [(cc_vault C, ''createStream'',
        [AHex (trim (e_recipient p)), AHex (e_token p), AHex (hex32 (keccak E ?b)), ABig (t_startTime t), AHex (bytesToHex c)])]"
    unfolding k by (simp add: submit_def submit_tx_def seal_terms_def ws(2) b c write_wait_def assms(6) f)
  ultimately show ?thesis using t c u ws(3) by (auto simp: commitment_of_def)
qed


definition form_page :: epage where
  "form_page = (init_epage demo_viem 0 [])\<lparr>e_recipient := bytesToHex (drop 12 (word_be 2))\<rparr>"

lemma form_draft:
  "\<exists>t. draft_of demo_tools (Some demo_employer) 0 form_page = Some t \<and> terms_fit demo_viem t"
proof -
  obtain c h where e: "demo_employer = c # h" by (simp add: demo_employer_def bytesToHex_def js_Cons)
  have r: "ref_isAddress (bytesToHex (drop 12 (word_be 2)))" "ref_isAddress demo_employer"
    by (simp_all add: demo_employer_def ref_isAddress_lower)
  then have v: "recipientValid form_page"
    by (simp add: recipientValid_def form_page_def init_epage_def trim_no_space [OF hex_no_space] ref_isAddress_def)
  have k: "ref_isAddress (js ''0xc1a5b41512496b80903d1f32d6dea3a73212e71f'')"
    by (simp add: ref_isAddress_def js_Cons is_hex_def hex_digit_val_def starts_with_def)
  have s: "hex_word 32 (e_salt form_page) \<noteq> None"
    by (simp add: form_page_def init_epage_def demo.keccak_bytes hex32_def)
  have z: "ratePerDayToScaled 0 = 0" by (simp add: ratePerDayToScaled_def)
  have p: "tl_parseUnits demo_tools u d = Inr 0" for u d by (simp add: demo_tools_def)
  have f: "trim (e_recipient form_page) = bytesToHex (drop 12 (word_be 2))" "e_token form_page = js ''0xc1a5b41512496b80903d1f32d6dea3a73212e71f''"
    by (simp_all add: form_page_def init_epage_def TOKENS_def trim_no_space [OF hex_no_space])
  have "draft_of demo_tools (Some demo_employer) 0 form_page = Some
      \<lparr>t_employer = demo_employer, t_recipient = bytesToHex (drop 12 (word_be 2)), t_token = js ''0xc1a5b41512496b80903d1f32d6dea3a73212e71f'',
       t_ratePerSecond = 0, t_total = 0, t_startTime = 0, t_salt = e_salt form_page\<rparr>"
    by (simp add: draft_of_def e v p z f now_bigint_def)
  moreover from r k s have "terms_fit demo_viem \<lparr>t_employer = demo_employer, t_recipient = bytesToHex (drop 12 (word_be 2)),
      t_token = js ''0xc1a5b41512496b80903d1f32d6dea3a73212e71f'', t_ratePerSecond = 0, t_total = 0, t_startTime = 0, t_salt = e_salt form_page\<rparr>"
    by (simp add: terms_fit_def)
  ultimately show ?thesis by blast
qed

theorem preview_is_published_witness:
  "\<exists>vs t h c. employer_view demo_viem demo_engine demo_tools demo_config 114 [] True (Some demo_employer) (Some 114) 0 form_page = Inr vs \<and>
     ESubmit \<in> set (clickable vs) \<and>
     sublist (js ''Published on chaincommitment'' @ hex32 h @ js ''recipient'' @ short (trim (e_recipient form_page)) 6) (page_text vs) \<and>
     snd (submit demo_viem demo_engine demo_tools demo_config [] (Some recording_wallet) (Some t) (Some (hex32 h)) (form_page, [])) =
       [(cc_vault demo_config, ''createStream'', [AHex (trim (e_recipient form_page)), AHex (e_token form_page), AHex (hex32 h),
         ABig (t_startTime t), AHex c])]"
proof -
  obtain t where t: "draft_of demo_tools (Some demo_employer) 0 form_page = Some t" "terms_fit demo_viem t"
    using form_draft by blast
  obtain h where h: "commitTo demo_viem t = Inr h"
    using viem_abi.terms_words [OF demo.viem_abi_axioms t(2)] by metis
  then have c: "commitment_of demo_viem (Some t) = Inr (Some h)" by (simp add: commitment_of_def)
  have d: "\<not> submit_disabled True (Some 114) 114 (Some t) form_page"
    by (simp add: submit_disabled_def employer_busy_def wrongChain_def form_page_def init_epage_def)
  obtain vs where vs: "employer_view demo_viem demo_engine demo_tools demo_config 114 [] True (Some demo_employer) (Some 114) 0 form_page = Inr vs"
    "ESubmit \<in> set (clickable vs)"
    using c d by (simp add: employer_view_def t employer_account_def submit_section_def Let_def)
  have "\<exists>t u plain cipher. draft_of demo_tools (Some demo_employer) 0 form_page = Some t \<and>
    sublist (js ''Published on chaincommitment'' @ hex32 (keccak demo_evm plain) @ js ''recipient'' @ short (trim (e_recipient form_page)) 6) (page_text vs) \<and>
    commitment_of demo_viem (Some t) = Inr (Some (hex32 (keccak demo_evm plain))) \<and>
    snd (submit demo_viem demo_engine demo_tools demo_config [] (Some recording_wallet) (Some t) (Some (hex32 (keccak demo_evm plain))) (form_page, [])) =
      [(cc_vault demo_config, ''createStream'', [AHex (trim (e_recipient form_page)), AHex (e_token form_page),
        AHex (hex32 (keccak demo_evm plain)), ABig (t_startTime t), AHex (bytesToHex cipher)])] \<and>
    tl_encrypt demo_tools [] plain = Inr cipher \<and> decodeTerms demo_viem (bytesToHex plain) = Inr u \<and> same_terms t u"
    by (rule preview_is_published [OF demo.viem_abi_axioms _ _ vs])
      (simp_all add: recording_wallet_def form_page_def demo_tools_def)
  then show ?thesis using vs by blast
qed

end
