(* ===== verification/KeyScript.thy ===== *)
theory KeyScript
  imports TeeKeys ChainScripts
begin

text \<open>
  The rest of \<^verbatim>\<open>typescript/scripts/gen-tee-keys.ts\<close>: reading the keys back from the \<^verbatim>\<open>.env\<close> file, the report
  of their public halves and the whole \<^verbatim>\<open>main\<close>, which may throw.  The derivation of an address and of a public
  key are those of the record \<open>keytools\<close>.
\<close>

section \<open>Reading a key\<close>

text \<open>\<^verbatim>\<open>"?([^"\n]+)"?$\<close> at a place: the longest group that lets the rest match.\<close>

definition value_ends :: "jsstr \<Rightarrow> bool" where
  "value_ends r \<longleftrightarrow> line_before r \<or> hd r = 34 \<and> line_before (tl r)"

definition match_value :: "jsstr \<Rightarrow> jsstr option" where
  "match_value s =
     (let t = (if s \<noteq> [] \<and> hd s = 34 then tl s else s);
          n = length (takeWhile (\<lambda>c. c \<noteq> 34 \<and> c \<noteq> 10) t)
      in map_option (\<lambda>i. take i t) (find (\<lambda>i. value_ends (drop i t)) (rev [1..<n + 1])))"

text \<open>\<^verbatim>\<open>^KEY="?([^"\n]+)"?$\<close> with the \<^verbatim>\<open>m\<close> flag: the group of the first match.\<close>

fun match_key :: "jsstr \<Rightarrow> bool \<Rightarrow> jsstr \<Rightarrow> jsstr option" where
  "match_key k at_start [] = None"
| "match_key k at_start (c # s) =
     (case (if at_start \<and> starts_with (c # s) (k @ [61]) then match_value (drop (length k + 1) (c # s)) else None) of
        Some v \<Rightarrow> Some v
      | None \<Rightarrow> match_key k (is_line_end c) s)"

section \<open>The script\<close>

text \<open>The two texts that are printed: the signer's address and the public key.\<close>

definition report :: "keytools \<Rightarrow> jsstr \<Rightarrow> jsstr \<Rightarrow> (jsstr \<times> jsstr) result" where
  "report K eciesPriv signerPriv =
     (case kt_public K eciesPriv of
        Inl e \<Rightarrow> Inl e
      | Inr eciesPub \<Rightarrow>
         (case kt_address K signerPriv of Inl e \<Rightarrow> Inl e | Inr signerAddr \<Rightarrow> Inr (signerAddr, eciesPub)))"

definition surface_keys :: "engine \<Rightarrow> keytools \<Rightarrow> jsstr \<Rightarrow> (jsstr \<times> jsstr) result" where
  "surface_keys G K existing =
     (case match_key ECIES_KEY True existing of
        None \<Rightarrow> Inl (type_error G)
      | Some eciesPriv \<Rightarrow>
         (case match_key SIGNER_KEY True existing of
            None \<Rightarrow> Inl (type_error G)
          | Some signerPriv \<Rightarrow> report K eciesPriv signerPriv))"

definition gen_main ::
    "engine \<Rightarrow> keytools \<Rightarrow> bool \<Rightarrow> jsstr \<Rightarrow> jsstr \<Rightarrow> (jsstr \<Rightarrow> jsstr option) \<Rightarrow>
     (jsstr \<times> jsstr) result \<times> (jsstr \<Rightarrow> jsstr option)" where
  "gen_main G K force ecies signer files =
     ((if already_set files \<and> \<not> force then
         surface_keys G K (case files (hd ENV_FILES) of None \<Rightarrow> [] | Some s \<Rightarrow> s)
       else report K ecies signer),
      gen_tee_keys force ecies signer files)"

section \<open>What is read back\<close>

text \<open>A value without quotes and line ends.\<close>

definition bare :: "jsstr \<Rightarrow> bool" where
  "bare v \<longleftrightarrow> v \<noteq> [] \<and> list_all (\<lambda>c. c \<noteq> 34 \<and> c \<noteq> 36 \<and> \<not> is_line_end c) v"

lemma bare_plain: "bare v \<Longrightarrow> plain_value v"
  by (auto simp: bare_def plain_value_def list_all_iff)

lemma match_value_quoted:
  assumes "bare v" "line_before a"
  shows "match_value (34 # v @ 34 # a) = Some v"
proof -
  have "\<forall>c \<in> set v. c \<noteq> 34 \<and> c \<noteq> 10" using assms(1) by (auto simp: bare_def list_all_iff is_line_end_def)
  then have t: "takeWhile (\<lambda>c. c \<noteq> 34 \<and> c \<noteq> 10) (v @ 34 # a) = v" by (simp add: takeWhile_eq_all_conv takeWhile_append)
  have "1 \<le> length v" using assms(1) by (cases v) (simp_all add: bare_def)
  then have r: "rev [Suc 0..<Suc (length v)] = length v # rev [Suc 0..<length v]" by simp
  show ?thesis
    using assms(2) r by (simp add: match_value_def t value_ends_def Let_def del: upt_Suc)
qed

text \<open>The first line of the key is the one that is read.\<close>

lemma match_first:
  "find_line k st s = Some (b, r) \<Longrightarrow> match_value r = Some v \<Longrightarrow> match_key k st s = Some v"
proof (induction k st s arbitrary: b rule: find_line.induct)
  case (2 k st c s)
  show ?case
  proof (cases "st \<and> starts_with (c # s) (k @ [61])")
    case True
    with 2 show ?thesis by simp
  next
    case False
    then obtain b' where "find_line k (is_line_end c) s = Some (b', r)" using 2(2) by (auto split: if_splits)
    with 2(1) [OF False this 2(3)] False show ?thesis by auto
  qed
qed simp

text \<open>No line of the key.\<close>

lemma starts_with_app: "length p \<le> length s \<Longrightarrow> starts_with (s @ t) p = starts_with s p"
  by (simp add: starts_with_def)

lemma starts_no_end:
  assumes "list_all (\<lambda>c. \<not> is_line_end c) p" "line_before a"
  shows "starts_with (u @ a) p \<longleftrightarrow> starts_with u p"
proof (cases "length p \<le> length u")
  case False
  have "\<not> starts_with (u @ a) p"
  proof
    assume s: "starts_with (u @ a) p"
    then have "p = take (length p) (u @ a)" by (simp add: starts_with_def)
    then have p: "p = u @ take (length p - length u) a" using False by simp
    then have "take (length p - length u) a \<noteq> []" using False by (metis append_Nil2 le_refl)
    then obtain c where "c \<in> set p" "is_line_end c" using assms(2) p
      by (cases a) (auto simp: line_before_def take_Cons split: nat.splits)
    with assms(1) show False by (auto simp: list_all_iff)
  qed
  moreover have "\<not> starts_with u p" using False by (auto simp: starts_with_def dest: arg_cong [of _ _ length])
  ultimately show ?thesis by simp
qed (simp add: starts_with_app)

lemma starts_before_end:
  assumes "list_all (\<lambda>c. \<not> is_line_end c) p" "\<exists>c \<in> set b. is_line_end c"
  shows "starts_with (b @ s) p \<longleftrightarrow> starts_with b p"
    and "starts_with b p \<Longrightarrow> rest_of_line (drop (length p) (b @ s)) = rest_of_line (drop (length p) b)"
proof -
  obtain y e z where b: "b = y @ e # z" "is_line_end e" using assms(2) by (meson split_list)
  have l: "line_before (e # t)" for t using b(2) by (simp add: line_before_def)
  note h = starts_no_end [OF assms(1) l, of y]
  show "starts_with (b @ s) p \<longleftrightarrow> starts_with b p" using h [of "z @ s"] h [of z] b(1) by simp
  assume "starts_with b p"
  then have "starts_with y p" using h [of z] b(1) by simp
  then have "length p \<le> length y" by (auto simp: starts_with_def dest: arg_cong [of _ _ length])
  then have d: "drop (length p) (b @ s) = drop (length p) b @ s" "\<exists>c \<in> set (drop (length p) b). is_line_end c"
    using b by simp_all
  then show "rest_of_line (drop (length p) (b @ s)) = rest_of_line (drop (length p) b)"
    using rest_of_line_ends by simp
qed

lemma key_no_end: "plain_key k \<Longrightarrow> list_all (\<lambda>c. \<not> is_line_end c) (k @ [61])"
  using plain_key_line [of k] by (simp add: is_line_end_def)

lemma find_here [simp]: "find_line k True (k @ 61 # x) = Some ([], x)"
proof (cases "k @ 61 # x")
  case (Cons c s)
  have "starts_with (k @ 61 # x) (k @ [61])" "drop (length k + 1) (k @ 61 # x) = x" by (simp_all add: starts_with_def)
  with Cons show ?thesis by simp
qed simp

text \<open>What follows the key does not matter.\<close>

lemma find_line_prefix:
  "find_line k st (b @ k @ 61 # r) = Some (b, r) \<Longrightarrow> find_line k st (b @ k @ 61 # x) = Some (b, x)"
proof (induction b arbitrary: st)
  case Nil
  then have st: "st"
    by (cases k; cases st) (auto split: if_splits)
  then show ?case by simp
next
  case (Cons c b)
  have e: "starts_with ((c # b @ k @ [61]) @ t) (k @ [61]) = starts_with (c # b @ k @ [61]) (k @ [61])" for t
    by (intro starts_with_app) simp
  have n: "\<not> (st \<and> starts_with (c # b @ k @ 61 # r) (k @ [61]))" using Cons.prems by (auto split: if_splits)
  then have "find_line k (is_line_end c) (b @ k @ 61 # r) = Some (b, r)"
    using Cons.prems by (auto split: if_splits)
  from Cons.IH [OF this] n show ?case using e [of r] e [of x] by simp
qed

text \<open>A new last line.\<close>

lemma find_line_last:
  assumes "plain_key k"
  shows "find_line k st (t @ u) = None \<Longrightarrow> find_line k st (t @ 10 # k @ 61 # x) = Some (t @ [10], x)"
proof (induction t arbitrary: st)
  case Nil
  have "\<not> starts_with (10 # k @ 61 # x) (k @ [61])"
    using assms by (cases k) (auto simp: starts_with_def plain_key_def is_line_end_def)
  then show ?case by (simp add: is_line_end_def)
next
  case (Cons c t)
  have e: "line_before (10 # s)" for s by (simp add: line_before_def is_line_end_def)
  have n: "\<not> (st \<and> starts_with (c # t @ u) (k @ [61]))" and f: "find_line k (is_line_end c) (t @ u) = None"
    using Cons.prems by (auto split: if_splits)
  have "starts_with (c # t @ 10 # k @ 61 # x) (k @ [61]) \<longleftrightarrow> starts_with (c # t) (k @ [61])"
    using starts_no_end [OF key_no_end [OF assms] e, of "c # t" "k @ 61 # x"] by simp
  moreover have "starts_with (c # t) (k @ [61]) \<Longrightarrow> starts_with (c # t @ u) (k @ [61])"
    unfolding starts_with_def by (metis append_Cons append_assoc append_take_drop_id append_eq_conv_conj)
  ultimately show ?case using n Cons.IH [OF f] by auto
qed

lemma find_line_skip:
  "list_all (\<lambda>c. \<not> is_line_end c) u \<Longrightarrow> find_line k False (u @ a) = map_option (\<lambda>(b, r). (u @ b, r)) (find_line k False a)"
  by (cases "find_line k False a") (induction u; auto)+

text \<open>Another line is replaced.\<close>

lemma find_line_replace:
  assumes "plain_key k" "one_line u" "one_line x" "\<not> starts_with u (k @ [61])" "\<not> starts_with x (k @ [61])" "line_before a"
  shows "line_after st b \<Longrightarrow> find_line k st (b @ u @ a) = Some (b', r) \<Longrightarrow>
    \<exists>b'' r'. find_line k st (b @ x @ a) = Some (b'', r') \<and> rest_of_line r' = rest_of_line r"
proof (induction b arbitrary: st b')
  case Nil
  have skip: "find_line k True (y @ a) = map_option (\<lambda>(b, r). (y @ b, r)) (find_line k False a)"
    if y: "one_line y" "\<not> starts_with y (k @ [61])" for y
  proof -
    obtain c t where "y = c # t" "\<not> is_line_end c" "list_all (\<lambda>c. \<not> is_line_end c) t" using y(1) by (cases y) (auto simp: one_line_def)
    moreover have "\<not> starts_with (y @ a) (k @ [61])" using y(2) starts_no_end [OF key_no_end [OF assms(1)] assms(6)] by simp
    ultimately show ?thesis
      using find_line_skip [of t k a] by (cases "find_line k False a") auto
  qed
  from Nil show ?case using skip [OF assms(2,4)] skip [OF assms(3,5)] by auto
next
  case (Cons c b)
  note e = starts_before_end [OF key_no_end [OF assms(1)] line_after_end [OF Cons.prems(1)]]
  show ?case
  proof (cases "st \<and> starts_with (c # b) (k @ [61])")
    case True
    then have st: "starts_with ((c # b) @ s) (k @ [61])" for s using e(1) by blast
    have "find_line k st ((c # b) @ s) = Some ([], drop (length (k @ [61])) ((c # b) @ s))" for s
      using st [of s] True by simp
    then show ?thesis using Cons.prems(2) e(2) [of "u @ a"] e(2) [of "x @ a"] True by (simp del: find_line.simps)
  next
    case False
    then have n: "\<not> (st \<and> starts_with (c # b @ s) (k @ [61]))" for s using e(1) [of s] by auto
    have g: "find_line k st (c # b @ s) = map_option (\<lambda>(b, a). (c # b, a)) (find_line k (is_line_end c) (b @ s))" for s
      by (subst find_line.simps) (simp only: n if_False)
    obtain b1 where "find_line k (is_line_end c) (b @ u @ a) = Some (b1, r)" using Cons.prems(2) g [of "u @ a"] by (auto simp del: find_line.simps)
    from Cons.IH [OF _ this] Cons.prems(1) obtain b2 r' where
      "find_line k (is_line_end c) (b @ x @ a) = Some (b2, r')" "rest_of_line r' = rest_of_line r" by auto
    then show ?thesis using g [of "x @ a"] by (simp del: find_line.simps)
  qed
qed

section \<open>What the script leaves is what it reads\<close>

definition reads :: "jsstr \<Rightarrow> jsstr \<Rightarrow> jsstr \<Rightarrow> bool" where
  "reads k v s \<longleftrightarrow> (\<exists>b r. find_line k True s = Some (b, r) \<and> rest_of_line r = 34 # v @ [34])"

lemma rest_split: "rest_of_line r = q \<Longrightarrow> \<exists>a. r = q @ a \<and> line_before a"
  using line_before_drop [of r] takeWhile_dropWhile_id [of "\<lambda>c. \<not> is_line_end c" r] unfolding rest_of_line_def by metis

lemma reads_match:
  assumes "reads k v s" "bare v"
  shows "match_key k True s = Some v"
proof -
  obtain b r where f: "find_line k True s = Some (b, r)" "rest_of_line r = 34 # v @ [34]" using assms(1) by (auto simp: reads_def)
  obtain a where "r = 34 # v @ 34 # a" "line_before a" using rest_split [OF f(2)] by auto
  then show ?thesis using match_first [OF f(1)] match_value_quoted [OF assms(2)] by simp
qed

lemma rest_quoted: "bare v \<Longrightarrow> line_before a \<Longrightarrow> rest_of_line (34 # v @ 34 # a) = 34 # v @ [34]"
  using rest_of_line_app [of "34 # v @ [34]" a] by (auto simp: bare_def list_all_iff is_line_end_def)

lemma upsert_reads:
  assumes "bare v" "plain_key k"
  shows "reads k v (upsert body k v)"
proof (cases "find_line k True body")
  case None
  obtain u where "body = trimEnd body @ u" unfolding trimEnd_def by (metis rev_append rev_rev_ident takeWhile_dropWhile_id)
  with None have "find_line k True (trimEnd body @ u) = None" by simp
  from find_line_last [OF assms(2) this, of "34 # v @ [34, 10]"] None
  have "find_line k True (upsert body k v) = Some (trimEnd body @ [10], 34 # v @ 34 # [10])"
    by (simp add: upsert_def env_line_def)
  then show ?thesis using rest_quoted [OF assms(1), of "[10]"] by (simp add: reads_def line_before_def is_line_end_def)
next
  case (Some br)
  then obtain b r where f: "find_line k True body = Some (b, r)" by (cases br) auto
  obtain a where u: "upsert body k v = b @ env_line k v @ a" "line_before a"
    by (rule upsert_found [OF f bare_plain [OF assms(1)] assms(2)])
  have "find_line k True (b @ k @ 61 # r) = Some (b, r)" using f find_line_Some [OF f] by simp
  from find_line_prefix [OF this, of "34 # v @ 34 # a"] u(1)
  have "find_line k True (upsert body k v) = Some (b, 34 # v @ 34 # a)" by (simp add: env_line_def)
  then show ?thesis using rest_quoted [OF assms(1) u(2)] by (simp add: reads_def)
qed

lemma other_key: "plain_key k \<Longrightarrow> plain_key k' \<Longrightarrow> k \<noteq> k' \<Longrightarrow> \<not> starts_with (k @ 61 # x) (k' @ [61])"
  using key_unique [of k k' x] starts_with_drop [of "k @ 61 # x" "k' @ [61]"] by auto

lemma upsert_reads_other:
  assumes "plain_value v" "plain_key k" "bare v'" "plain_key k'" "k \<noteq> k'" "reads k' v' body"
  shows "reads k' v' (upsert body k v)"
proof -
  obtain b' r' where f': "find_line k' True body = Some (b', r')" "rest_of_line r' = 34 # v' @ [34]"
    using assms(6) by (auto simp: reads_def)
  show ?thesis
  proof (cases "find_line k True body")
    case None
    obtain a' where a': "r' = 34 # v' @ 34 # a'" "line_before a'" using rest_split [OF f'(2)] by auto
    have body: "body = b' @ env_line k' v' @ a'" using find_line_Some [OF f'(1)] a'(1) by (simp add: env_line_def)
    have "trimEnd body = b' @ env_line k' v' @ trimEnd a'"
      unfolding body by (intro trimEnd_app) (simp_all add: env_line_def is_js_space_def)
    with None have u: "upsert body k v = b' @ k' @ 61 # 34 # v' @ 34 # trimEnd a' @ [10] @ env_line k v @ [10]"
      by (simp add: upsert_def env_line_def)
    have "find_line k' True (b' @ k' @ 61 # r') = Some (b', r')" using f'(1) find_line_Some [OF f'(1)] by simp
    from find_line_prefix [OF this] have
      "find_line k' True (upsert body k v) = Some (b', 34 # v' @ 34 # trimEnd a' @ [10] @ env_line k v @ [10])" unfolding u .
    then show ?thesis using rest_quoted [OF assms(3) trimEnd_before [OF a'(2)]] by (simp add: reads_def)
  next
    case (Some br)
    then obtain b r where f: "find_line k True body = Some (b, r)" by (cases br) auto
    obtain a where s: "body = b @ (k @ [61] @ rest_of_line r) @ a" "upsert body k v = b @ env_line k v @ a"
      "line_after True b" "line_before a" "one_line (k @ [61] @ rest_of_line r)"
      using upsert_found [OF f assms(1,2)] by blast
    have n: "\<not> starts_with (k @ [61] @ x) (k' @ [61])" for x using other_key [OF assms(2,4,5), of x] by simp
    have "\<not> starts_with (env_line k v) (k' @ [61])" using n [of "[34] @ v @ [34]"] by (simp add: env_line_def)
    from find_line_replace [OF assms(4) s(5) one_line_env [OF assms(1,2)] n this s(4,3)] f' s(1,2)
    show ?thesis by (auto simp: reads_def)
  qed
qed

lemma write_keys_reads:
  assumes "bare ecies" "bare signer"
  shows "match_key ECIES_KEY True (write_keys ecies signer body) = Some ecies"
    "match_key SIGNER_KEY True (write_keys ecies signer body) = Some signer"
  unfolding write_keys_def
  by (intro reads_match upsert_reads_other upsert_reads assms bare_plain keys_plain keys_plain(3) [symmetric])+

text \<open>C36: the key script is idempotent and its report is about the keys in the file.  Once there is an \<^verbatim>\<open>.env\<close>, a run
  that generates reports the public halves of the keys it drew, and every further run without \<^verbatim>\<open>--force\<close>, whatever
  it would have drawn, reads these keys back out of the file, reports the same and changes no file.\<close>

theorem keys_reported:
  assumes "files (js ''.env'') = Some body" "bare ecies" "bare signer" "force \<or> \<not> already_set files"
  shows "fst (gen_main G K force ecies signer files) = report K ecies signer \<and>
    gen_main G K False e2 s2 (snd (gen_main G K force ecies signer files))
      = (report K ecies signer, snd (gen_main G K force ecies signer files))"
proof -
  define after where "after = snd (gen_main G K force ecies signer files)"
  have n: "\<not> (already_set files \<and> \<not> force)" using assms(4) by blast
  have w: "after (js ''.env'') = Some (write_keys ecies signer body)"
    using gen_writes [OF n, of "js ''.env''"] assms(1) by (simp add: after_def gen_main_def ENV_FILES_def)
  then have "already_set after"
    using written_hasKey [OF bare_plain [OF assms(2)] bare_plain [OF assms(3)]] by (simp add: already_set_def ENV_FILES_def Let_def)
  with w have "gen_main G K False e2 s2 after = (report K ecies signer, after)"
    using write_keys_reads [OF assms(2,3), of body] by (simp add: gen_main_def surface_keys_def gen_tee_keys_def ENV_FILES_def)
  then show ?thesis using n unfolding after_def [symmetric] by (auto simp: gen_main_def surface_keys_def gen_tee_keys_def ENV_FILES_def)
qed

theorem keys_reported_witness:
  "\<exists>K. gen_main demo_engine K False [49] [50] (snd (gen_main demo_engine K True (js ''0a'') (js ''0b'') [js ''.env'' \<mapsto> js ''A=1'']))
    = (Inr (js ''0b'', js ''0a''), snd (gen_main demo_engine K True (js ''0a'') (js ''0b'') [js ''.env'' \<mapsto> js ''A=1'']))"
  using keys_reported [where body = "js ''A=1''" and G = demo_engine and K = "\<lparr>kt_address = Inr, kt_public = Inr\<rparr>" and force = True
      and ecies = "js ''0a''" and signer = "js ''0b''" and files = "[js ''.env'' \<mapsto> js ''A=1'']"]
  by (intro exI [of _ "\<lparr>kt_address = Inr, kt_public = Inr\<rparr>"]) (simp add: report_def bare_def js_Cons is_line_end_def)

text \<open>An empty placeholder counts as a key, and then cannot be read: the script throws and generates nothing.\<close>

lemma placeholder_throws:
  assumes "files (js ''.env'') = Some (env_line ECIES_KEY [] @ [10] @ env_line SIGNER_KEY [])"
  shows "gen_main G K False ecies signer files = (Inl (type_error G), files)"
proof -
  let ?s = "env_line ECIES_KEY [] @ [10] @ env_line SIGNER_KEY []"
  have p: "plain_value []" by (simp add: plain_value_def)
  have l: "line_before ([10] @ env_line SIGNER_KEY [])" "line_after True (env_line ECIES_KEY [] @ [10])" "line_before []"
    by (simp_all add: line_before_def line_after_def is_line_end_def)
  have "some_line True (\<lambda>l. \<exists>v. l = env_line ECIES_KEY v) ([] @ ?s)"
    by (rule some_line_insert [OF one_line_env [OF p keys_plain(1)] _ l(1)]) auto
  moreover have "some_line True (\<lambda>l. \<exists>v. l = env_line SIGNER_KEY v) ((env_line ECIES_KEY [] @ [10]) @ env_line SIGNER_KEY [] @ [])"
    by (rule some_line_insert [OF one_line_env [OF p keys_plain(2)] _ l(3) l(2)]) auto
  ultimately have k: "hasKey ?s ECIES_KEY" "hasKey ?s SIGNER_KEY"
    using hasKey_line [OF keys_plain(1)] hasKey_line [OF keys_plain(2)] by (simp_all add: hasKey_def)
  have m: "match_key ECIES_KEY True ?s = None"
    by (simp add: env_line_def ECIES_KEY_def SIGNER_KEY_def js_Cons match_value_def starts_with_def is_line_end_def)
  show ?thesis
    using assms k m by (simp add: gen_main_def surface_keys_def gen_tee_keys_def already_set_def ENV_FILES_def Let_def del: append.simps)
qed

end
