(* ===== verification/Startup.thy ===== *)
theory Startup
  imports ServerLemmas RecipientView
begin

text \<open>
  How the extension's process starts: \<^verbatim>\<open>typescript/src/main.ts\<close> in the container and
  \<^verbatim>\<open>typescript/scripts/serve-extension.ts\<close> on a developer's machine.  The result is the server with the ports it
  was given, or the exit code of the process; binding the socket is node:http.
\<close>

record startup =
  st_extPort :: jsnum
  st_signPort :: jsnum
  st_server :: "(stream_env, app_state) server"

text \<open>The server's constructor reads both ports as numbers.  If it throws, the process exits with 1.\<close>

definition start_server ::
    "viem \<Rightarrow> engine \<Rightarrow> (jsstr \<Rightarrow> (jsstr \<times> jsstr) result) \<Rightarrow> jsnum \<Rightarrow> jsnum \<Rightarrow> nat + startup" where
  "start_server V G D extPort signPort =
     (case extension_server V G D of
        Inl e \<Rightarrow> Inl 1
      | Inr srv \<Rightarrow> Inr \<lparr>st_extPort = extPort, st_signPort = signPort, st_server = srv\<rparr>)"

definition main_start ::
    "viem \<Rightarrow> engine \<Rightarrow> (jsstr \<Rightarrow> (jsstr \<times> jsstr) result) \<Rightarrow> (jsstr \<Rightarrow> jsstr option) \<Rightarrow> nat + startup" where
  "main_start V G D env =
     start_server V G D (number_of_string (env_or env ''EXTENSION_PORT'' ''8080''))
       (number_of_string (env_or env ''SIGN_PORT'' ''9090''))"

text \<open>\<^verbatim>\<open>Number\<close> of the text of a number is that number: the next port is passed on as it is.\<close>

definition serve_sign_port :: "(jsstr \<Rightarrow> jsstr option) \<Rightarrow> jsstr \<Rightarrow> jsnum" where
  "serve_sign_port env extPort =
     (case env (js ''SIGN_PORT'') of
        Some s \<Rightarrow> number_of_string s
      | None \<Rightarrow> num_add (number_of_string extPort) (number_of_int 1))"

definition serve_start ::
    "viem \<Rightarrow> engine \<Rightarrow> (jsstr \<Rightarrow> (jsstr \<times> jsstr) result) \<Rightarrow> (jsstr \<Rightarrow> jsstr option) \<Rightarrow> nat + startup" where
  "serve_start V G D env =
     (let extPort = env_or env ''EXTENSION_PORT'' ''18080''; signPort = serve_sign_port env extPort in
      if present (env (js ''TEE_ECIES_PRIVKEY'')) = None \<or> present (env (js ''TEE_SIGNER_PRIVKEY'')) = None then Inl 1
      else start_server V G D (number_of_string extPort) signPort)"

text \<open>A signal closes the server; the exit code says whether that worked.\<close>

definition shutdown_code :: "unit result \<Rightarrow> nat" where
  "shutdown_code result = (case result of Inl e \<Rightarrow> 1 | Inr _ \<Rightarrow> 0)"

section \<open>Client and server meet\<close>

lemma port_number: "number_of_string (js ''18080'') = number_of_int 18080"
  using number_of_decimal [of "js ''18080''" "[]"] by (simp add: number_of_int_def js_Cons is_digit_def dec_val_def)

lemma next_port: "num_add (number_of_int 18080) (number_of_int 1) = number_of_int 18081"
  by (simp add: num_add_def number_of_int_def to_double_def double_exp_def compute_floorlog scaled_num_def scaled_den_def
      div_even_def Let_def)

text \<open>With the two keys and nothing else in the environment, the script serves the extension on the port that the
  browser's client asks by default, and signs on the next one.\<close>

lemma serve_defaults:
  assumes "present (env (js ''TEE_ECIES_PRIVKEY'')) \<noteq> None" "present (env (js ''TEE_SIGNER_PRIVKEY'')) \<noteq> None"
    and "env (js ''EXTENSION_PORT'') = None" "env (js ''SIGN_PORT'') = None"
  shows "serve_start V G D env = Inr \<lparr>st_extPort = number_of_int 18080, st_signPort = number_of_int 18081, st_server = app_server V G D\<rparr>"
    and "ENCLAVE_URL (\<lambda>_. None) = js ''http://127.0.0.1:'' @ js_of_int 18080"
proof -
  show "serve_start V G D env = Inr \<lparr>st_extPort = number_of_int 18080, st_signPort = number_of_int 18081, st_server = app_server V G D\<rparr>"
    using assms
    by (simp add: serve_start_def serve_sign_port_def start_server_def env_or_def port_number next_port extension_server_app Let_def)
  show "ENCLAVE_URL (\<lambda>_. None) = js ''http://127.0.0.1:'' @ js_of_int 18080"
    by (simp add: ENCLAVE_URL_def env_or_def js_Cons js_of_int_def dec_digits.simps)
qed

end
