(* ===== verification/Spec2Isabelle.thy ===== *)
theory Spec2Isabelle
  imports VaultTheorems SystemSafety ClientServer NodeClient PageTheorems Envelopes TeeKeys ScriptTheorems CheckTheorems ViewTheorems KeyScript Startup
begin

text \<open>
  StealthWage, confidential payroll streams on Flare: an employer seals the terms of a stream (rate,
  total, start) to an enclave's key and puts only their hash on the chain; a party asks the enclave,
  which opens the terms, checks them against the hash, computes what has accrued and signs an
  authorization; the vault contract pays against that signature.

  \<^bold>\<open>The parts and how they meet.\<close>  The vault (\<^verbatim>\<open>contracts/StreamVault.sol\<close>) holds the funds and checks
  signatures.  The enclave is a Node server (\<^verbatim>\<open>typescript/src\<close>): an HTTP layer that routes an action
  to a registered handler (\<^verbatim>\<open>base/server.ts\<close>, \<^verbatim>\<open>base/types.ts\<close>), the handlers
  (\<^verbatim>\<open>app/streamHandlers.ts\<close>, \<^verbatim>\<open>app/handlers.ts\<close>) and the client of its tee-node
  (\<^verbatim>\<open>base/node.ts\<close>).  The protocol both sides agree on (terms, digests, accrual) is
  \<^verbatim>\<open>shared/protocol.ts\<close>, which the browser imports too.  The frontend reads the chain
  (\<^verbatim>\<open>frontend/lib/chain.ts\<close>), talks to the enclave (\<^verbatim>\<open>frontend/lib/enclave.ts\<close>) and has four
  pages (\<^verbatim>\<open>frontend/app\<close>).

  \<^bold>\<open>Theories.\<close>
  \<^item> \<open>Prelude\<close>, \<open>JsText\<close>, \<open>Utf8\<close>, \<open>Json\<close>, \<open>JsonRound\<close>: JavaScript's strings as lists of UTF-16 units,
    results as sums with an exception, the conversions the code uses, \<^verbatim>\<open>JSON.parse\<close> and
    \<^verbatim>\<open>JSON.stringify\<close>, and that the second undoes the first.
  \<^item> \<open>Encoding\<close>, \<open>Wire\<close>: \<^verbatim>\<open>base/encoding.ts\<close>.  \<open>Framework\<close>: \<^verbatim>\<open>base/types.ts\<close>, with the registry over
    plain identifiers as its specification.
  \<^item> \<open>Evm\<close>, \<open>Vault\<close>: the contract, words at their width, checked arithmetic, every \<^verbatim>\<open>require\<close> a branch;
    keccak and ecrecover are the record \<open>evm\<close>, the token contracts the record \<open>tokens\<close>, whose calls may
    call the vault's functions again.  \<open>VaultProps\<close> has the inversion rule of each call, \<open>VaultContract\<close> the ledger locale,
    \<open>MockToken\<close> the token of the tests, on which it is interpreted, \<open>Solvency\<close> the invariant,
    \<open>VaultTheorems\<close> the properties.
  \<^item> \<open>Protocol\<close>, \<open>Accrual\<close>: \<^verbatim>\<open>shared/protocol.ts\<close>; viem and eciesjs are the record \<open>viem\<close>.
    \<open>StreamHandlers\<close>, \<open>StreamLemmas\<close>, \<open>StreamTheorems\<close>, \<open>TermsTheorems\<close>: \<^verbatim>\<open>app/streamHandlers.ts\<close>; the
    locale \<open>viem_abi\<close> states the ABI specification, \<open>RefViem\<close> interprets it.
  \<^item> \<open>Server\<close>, \<open>RequestQueue\<close>, \<open>Handlers\<close>, \<open>ServerLemmas\<close>, \<open>ServerTheorems\<close>: \<^verbatim>\<open>base/server.ts\<close>, its
    promise queue as a machine, \<^verbatim>\<open>app/handlers.ts\<close> and \<^verbatim>\<open>main.ts\<close>.  \<open>NodeClient\<close>: \<^verbatim>\<open>base/node.ts\<close>.
  \<^item> \<open>EndToEnd\<close>, \<open>SystemSafety\<close>: the enclave and the vault together; the system as a state machine.
  \<^item> \<open>EnclaveClient\<close>, \<open>ClientServer\<close>, \<open>Envelopes\<close>: \<^verbatim>\<open>frontend/lib/enclave.ts\<close> against the server, and
    the other two builders of the request.
  \<^item> \<open>EventLog\<close>, \<open>Chain\<close>, \<open>Pages\<close>, \<open>RecipientPage\<close>, \<open>VerifyPage\<close>, \<open>LandingPage\<close>, \<open>EmployerPage\<close>,
    \<open>PageTheorems\<close>: \<^verbatim>\<open>frontend/lib/chain.ts\<close> and the state and callbacks of the pages.
  \<^item> \<open>View\<close>, \<open>RecipientView\<close>, \<open>VerifyView\<close>, \<open>LandingView\<close>, \<open>EmployerView\<close>: what the pages render, as trees of
    elements with their texts and events; the recipient's page as a step relation of its clicks.  \<open>JsNumber\<close>,
    \<open>JsDate\<close>: JavaScript's doubles, \<^verbatim>\<open>Number\<close> of a text, \<^verbatim>\<open>toFixed\<close> and \<^verbatim>\<open>toISOString\<close>, which the pages use.
    \<open>ViewTheorems\<close>: what can be read and clicked, against the vault and the enclave.
  \<^item> \<open>TeeKeys\<close>, \<open>KeyScript\<close>: \<^verbatim>\<open>typescript/scripts/gen-tee-keys.ts\<close>, the editing of the files and the whole script.
    \<open>Startup\<close>: \<^verbatim>\<open>main.ts\<close> and \<^verbatim>\<open>serve-extension.ts\<close>.
  \<^item> \<open>Scripts\<close>, \<open>ChainScripts\<close>, \<open>CheckScripts\<close>: the scripts \<^verbatim>\<open>test-settle.ts\<close>, \<^verbatim>\<open>e2e-coston2.ts\<close>,
    \<^verbatim>\<open>create-demo-stream.ts\<close>, \<^verbatim>\<open>check-enclave-client.ts\<close>, \<^verbatim>\<open>verify-browser-ciphertext.ts\<close> and
    \<^verbatim>\<open>gen-golden-vectors.ts\<close> as state transformers that may stop.  \<open>LiveChain\<close>, \<open>LiveCalls\<close>: a world for them,
    made of the vault, the test token and the extension's server.  \<open>ScriptRate\<close>: their
    rates through doubles.  \<open>ScriptSteps\<close>, \<open>ScriptTheorems\<close>, \<open>CheckTheorems\<close>: their runs in it.

  \<^bold>\<open>What the lemmas show.\<close>  The vault pays an authorization once and never more than a stream holds, stays solvent,
  and every call has its effect on every branch.  The accrual is a meter.  The enclave authorizes a party and
  nobody else, for the terms of the commitment, and what it signs the vault pays.  The server answers every request
  but those the theorem on rejections names, which end it, one at a time, and its client reads back what it sent.  The pages show
  what the chain and the contract would do, up to the findings: writes that viem refuses, dates that throw, and an
  authorization that cannot be renewed.  The live scripts end with every check passed.

  \<^bold>\<open>Parameters.\<close>  viem and eciesjs (the records \<open>viem\<close> and \<open>tools\<close>, with the ABI specification as the locale
  \<open>viem_abi\<close>), keccak and ecrecover (\<open>evm\<close>), other token contracts (\<open>tokens\<close>), the wallet, the RPC client and
  \<^verbatim>\<open>fetch\<close>, the clock, the environment and random keys.  viem's \<^verbatim>\<open>formatUnits\<close> is the argument \<open>fu\<close> of the pages;
  \<open>formats_units\<close> is what is assumed of it.

  \<^bold>\<open>Bounds.\<close>  Words have the contract's widths.  Recursions are structural or have a measure; calls that re-enter
  the vault nest to 512 levels, what 1024 calls of the EVM allow, and the guard makes the number irrelevant; the promise queue is a
  step relation whose runs end.  The settlement script is proved for tokens of up to 38 decimals, so that its amounts fit
  the contract's 128 bits, and the end-to-end script for 1 to 24, so that an hour accrues something and the text of
  its rate has no exponent; the demo stream's daily amount is an exact double for 2 to 22 decimals.  In the scripts' world a block takes at most 600 seconds, the lifetime of an
  authorization, and time stays below 2 to the 63.  Displayed amounts are within the bound for up to ten to the 20
  tokens and 255 decimals, which a \<^verbatim>\<open>uint8\<close> can state.

  \<^bold>\<open>Not modelled.\<close>  The Go and Python servers, which repeat the TypeScript one; the Go tools and shell scripts of the
  deployment; \<^verbatim>\<open>InstructionSender.sol\<close>, the template's contract that the product does not use; layouts, providers,
  wagmi's and Next's configuration, which pass constants to libraries; binding the server's socket; what scripts print on the way; styling attributes; the
  order in which JavaScript lists object keys that are integers, which no object of the program has.
\<close>

end
